(* ===== verification/Prelude.thy ===== *)
theory Prelude
  imports Complex_Main
    "HOL-Library.Word"
    "HOL-Library.Finite_Map"
    "HOL-Library.Multiset"
    "HOL-Library.Char_ord"
    "HOL-Library.List_Lexorder"
begin

text \<open>
  Shared vocabulary of the development: the machine integers of the C++ code, the
  containers, the faults a call can end in, and the parts of the C++ standard library's
  strings that the sources use.

  \<^item> \<open>unsigned\<close> is \<open>u32\<close>, \<open>unsigned long long\<close> and \<open>std::size_t\<close> are \<open>u64\<close>; arithmetic
    wraps as it does on the machine.
  \<^item> \<open>std::unordered_map\<close> and \<open>std::map\<close> are finite maps, \<open>std::unordered_set\<close> and \<open>std::set\<close>
    are finite sets (types.hpp renames the unordered ones \<open>map\<close> and \<open>set\<close>). HOL equality on
    them is the C++ \<open>operator==\<close>. A range-for over one of them is a fold over its entries in
    ascending key order: that is the order of the ordered containers, and one of the orders
    the standard allows for the unordered ones.
  \<^item> \<open>m[k]\<close> on a missing key inserts a value-initialised entry: \<open>fm_at\<close> is the value read,
    \<open>fm_touch\<close> the insertion, \<open>fm_modify\<close> an update through the reference.
  \<^item> A call that throws, dereferences a null pointer, reads out of range, divides by zero or
    never returns is a \<open>fault\<close>; \<open>fault + 'a\<close> is the result type and \<open>bindr\<close> sequences it.
\<close>

section \<open>Types\<close>

type_synonym u32 = "32 word"
type_synonym u64 = "64 word"
type_synonym Key = string
type_synonym Address = string

named_theorems lattice_simps \<open>closed forms of the lattice operations\<close>

section \<open>Faults\<close>

datatype fault =
    Bad_index          \<comment> \<open>\<open>v[i]\<close> or \<open>*begin()\<close> outside the container\<close>
  | Invalid_argument   \<comment> \<open>\<open>std::invalid_argument\<close>\<close>
  | Out_of_range       \<comment> \<open>\<open>std::out_of_range\<close>\<close>
  | Null_pointer       \<comment> \<open>call through a null pointer\<close>
  | Division_by_zero   \<comment> \<open>\<open>% 0\<close>\<close>
  | Signed_overflow    \<comment> \<open>an \<open>int\<close> counted past its largest value\<close>
  | Float_conversion   \<comment> \<open>a \<open>double\<close> outside the range of the integer type it is converted to\<close>
  | Invalid_iterator   \<comment> \<open>a container changed while a loop iterates over it\<close>
  | Diverges           \<comment> \<open>a loop that never ends\<close>
  | Assertion_failed   \<comment> \<open>\<open>assert\<close>\<close>
  | Uninitialised      \<comment> \<open>a variable read before it was assigned\<close>
  | Length_error       \<comment> \<open>\<open>std::length_error\<close>\<close>

definition bindr :: "fault + 'a \<Rightarrow> ('a \<Rightarrow> fault + 'b) \<Rightarrow> fault + 'b" where
  "bindr r f = (case r of Inl e \<Rightarrow> Inl e | Inr x \<Rightarrow> f x)"

lemma bindr_simps [simp]: "bindr (Inl e) f = Inl e" "bindr (Inr x) f = f x"
  by (simp_all add: bindr_def)

lemma bindr_Inr_iff: "bindr r f = Inr y \<longleftrightarrow> (\<exists>x. r = Inr x \<and> f x = Inr y)"
  by (cases r) simp_all

lemma bindr_Inl_iff: "bindr r f = Inl e \<longleftrightarrow> r = Inl e \<or> (\<exists>x. r = Inr x \<and> f x = Inl e)"
  by (cases r) simp_all

lemma bindr_InrE:
  assumes "bindr r f = Inr y"
  obtains x where "r = Inr x" and "f x = Inr y"
  using assms by (auto simp: bindr_Inr_iff)

lemma bindr_assoc [simp]: "bindr (bindr r f) g = bindr r (\<lambda>x. bindr (f x) g)"
  by (cases r) simp_all

text \<open>A loop over a container whose body may fault: the first fault ends it.\<close>

fun for_each :: "('x \<Rightarrow> 's \<Rightarrow> fault + 's) \<Rightarrow> 'x list \<Rightarrow> 's \<Rightarrow> fault + 's" where
  "for_each f [] s = Inr s"
| "for_each f (x # xs) s = bindr (f x s) (for_each f xs)"

lemma for_each_append: "for_each f (xs @ ys) s = bindr (for_each f xs s) (for_each f ys)"
proof (induction xs arbitrary: s)
  case Nil
  show ?case by simp
next
  case (Cons x xs)
  have "for_each f (xs @ ys) = (\<lambda>s. bindr (for_each f xs s) (for_each f ys))"
    using Cons.IH by (intro ext)
  then show ?case by simp
qed

lemma for_each_invariant:
  assumes "for_each f xs s = Inr t" and "P s"
    and "\<And>x s s'. x \<in> set xs \<Longrightarrow> P s \<Longrightarrow> f x s = Inr s' \<Longrightarrow> P s'"
  shows "P t"
  using assms
proof (induction xs arbitrary: s)
  case Nil
  then show ?case by simp
next
  case (Cons x xs)
  from Cons.prems(1) obtain s' where s': "f x s = Inr s'" and rest: "for_each f xs s' = Inr t"
    by (auto simp: bindr_Inr_iff)
  have "P s'" using Cons.prems(2) s' Cons.prems(3)[of x] by simp
  then show ?case
    using rest Cons.prems(3) by (intro Cons.IH) auto
qed

lemma for_each_total:
  assumes "P s"
    and "\<And>x s. x \<in> set xs \<Longrightarrow> P s \<Longrightarrow> \<exists>s'. f x s = Inr s' \<and> P s'"
  shows "\<exists>t. for_each f xs s = Inr t \<and> P t"
  using assms
proof (induction xs arbitrary: s)
  case Nil
  then show ?case by simp
next
  case (Cons x xs)
  from Cons.prems obtain s' where "f x s = Inr s'" "P s'" by fastforce
  moreover have "\<exists>t. for_each f xs s' = Inr t \<and> P t"
    using \<open>P s'\<close> Cons.prems(2) by (intro Cons.IH) auto
  ultimately show ?case by auto
qed

lemma for_each_pure:
  assumes "\<And>x s. x \<in> set xs \<Longrightarrow> f x s = Inr (g x s)"
  shows "for_each f xs s = Inr (fold g xs s)"
  using assms by (induction xs arbitrary: s) auto

section \<open>Maps and sets\<close>

definition fm_at :: "'v \<Rightarrow> ('k, 'v) fmap \<Rightarrow> 'k \<Rightarrow> 'v" where
  "fm_at d m k = (case fmlookup m k of None \<Rightarrow> d | Some v \<Rightarrow> v)"

definition fm_touch :: "'v \<Rightarrow> 'k \<Rightarrow> ('k, 'v) fmap \<Rightarrow> ('k, 'v) fmap" where
  "fm_touch d k m = (if fmlookup m k = None then fmupd k d m else m)"

definition fm_modify :: "'v \<Rightarrow> 'k \<Rightarrow> ('v \<Rightarrow> 'v) \<Rightarrow> ('k, 'v) fmap \<Rightarrow> ('k, 'v) fmap" where
  "fm_modify d k f m = fmupd k (f (fm_at d m k)) m"

abbreviation fm_contains :: "('k, 'v) fmap \<Rightarrow> 'k \<Rightarrow> bool" where
  "fm_contains m k \<equiv> fmlookup m k \<noteq> None"

abbreviation fm_entries :: "('k::linorder, 'v) fmap \<Rightarrow> ('k \<times> 'v) list" where
  "fm_entries \<equiv> sorted_list_of_fmap"

abbreviation fs_elems :: "'a::linorder fset \<Rightarrow> 'a list" where
  "fs_elems \<equiv> sorted_list_of_fset"

lemma fm_at_upd [simp]: "fm_at d (fmupd k v m) k' = (if k = k' then v else fm_at d m k')"
  by (simp add: fm_at_def)

lemma fm_at_empty [simp]: "fm_at d fmempty k = d"
  by (simp add: fm_at_def)

lemma fm_at_drop [simp]: "fm_at d (fmdrop k m) k' = (if k = k' then d else fm_at d m k')"
  by (simp add: fm_at_def)

lemma fm_at_touch [simp]: "fm_at d (fm_touch d k m) k' = fm_at d m k'"
  by (simp add: fm_at_def fm_touch_def)

lemma fm_at_Some: "fmlookup m k = Some v \<Longrightarrow> fm_at d m k = v"
  by (simp add: fm_at_def)

lemma fm_at_None: "fmlookup m k = None \<Longrightarrow> fm_at d m k = d"
  by (simp add: fm_at_def)

lemma fmlookup_touch: "fmlookup (fm_touch d k m) k' =
    (if k = k' \<and> fmlookup m k = None then Some d else fmlookup m k')"
  by (simp add: fm_touch_def)

lemma fmlookup_touch_same [simp]: "fmlookup (fm_touch d k m) k = Some (fm_at d m k)"
  by (auto simp: fm_touch_def fm_at_def)

lemma fmlookup_touch_other [simp]: "k \<noteq> k' \<Longrightarrow> fmlookup (fm_touch d k m) k' = fmlookup m k'"
  by (simp add: fm_touch_def)

lemma fmlookup_modify [simp]: "fmlookup (fm_modify d k f m) k' =
    (if k = k' then Some (f (fm_at d m k)) else fmlookup m k')"
  by (simp add: fm_modify_def)

lemma fm_at_modify [simp]: "fm_at d (fm_modify d k f m) k' =
    (if k = k' then f (fm_at d m k) else fm_at d m k')"
  by (simp add: fm_modify_def)

lemma fm_touch_idem [simp]: "fm_contains m k \<Longrightarrow> fm_touch d k m = m"
  by (auto simp: fm_touch_def)

lemma fmlookup_fold_drop: "fmlookup (fold fmdrop ks m) k = (if k \<in> set ks then None else fmlookup m k)"
  by (induction ks arbitrary: m) auto

lemma map_of_fm_entries: "map_of (fm_entries m) = fmlookup m"
  by simp

lemma set_fm_entries: "(k, v) \<in> set (fm_entries m) \<longleftrightarrow> fmlookup m k = Some v"
  by (auto simp: sorted_list_of_fmap_def fmdomI dest: fmdomI)

lemma map_fst_fm_entries: "map fst (fm_entries m) = sorted_list_of_fset (fmdom m)"
  by (simp add: sorted_list_of_fmap_def comp_def)

lemma distinct_fm_entries: "distinct (map fst (fm_entries m))"
  by (simp add: map_fst_fm_entries sorted_list_of_fset.rep_eq)

lemma sorted_fm_entries: "sorted (map fst (fm_entries m))"
  by (simp add: map_fst_fm_entries sorted_list_of_fset.rep_eq)

lemma length_fm_entries: "length (fm_entries m) = fcard (fmdom m)"
  by (simp add: sorted_list_of_fmap_def sorted_list_of_fset.rep_eq fcard.rep_eq)

lemma set_fs_elems [simp]: "set (fs_elems s) = fset s"
  by (simp add: sorted_list_of_fset.rep_eq)

lemma fm_entries_eqI:
  assumes "sorted (map fst es)" "distinct (map fst es)" "fmlookup m = map_of es"
  shows "fm_entries m = es"
proof (rule map_sorted_distinct_set_unique [where f = fst])
  have "(k, v) \<in> set es \<longleftrightarrow> fmlookup m k = Some v" for k v
    using assms(2,3) by (simp add: map_of_eq_Some_iff)
  then show "set (fm_entries m) = set es" using set_fm_entries [of _ _ m] by auto
  then show "inj_on fst (set (fm_entries m) \<union> set es)"
    using assms(2) by (simp add: distinct_map)
qed (use assms sorted_fm_entries distinct_fm_entries in auto)

lemma fm_entries_one [simp]: "fm_entries (fmupd k v fmempty) = [(k, v)]"
  by (rule fm_entries_eqI) auto

lemma fm_entries_two [simp]:
  "k1 < k2 \<Longrightarrow> fm_entries (fmupd k1 v1 (fmupd k2 v2 fmempty)) = [(k1, v1), (k2, v2)]"
  "k1 < k2 \<Longrightarrow> fm_entries (fmupd k2 v2 (fmupd k1 v1 fmempty)) = [(k1, v1), (k2, v2)]"
  by (auto intro!: fm_entries_eqI)

lemma fs_elems_none [simp]: "fs_elems {||} = []"
  by (simp add: sorted_list_of_fset.rep_eq)

lemma fs_elems_one [simp]: "fs_elems {|x|} = [x]"
  by (simp add: sorted_list_of_fset.rep_eq)

lemma fm_entries_empty [simp]: "fm_entries fmempty = []"
  by (simp add: sorted_list_of_fmap_def sorted_list_of_fset.rep_eq)

lemma fm_entries_eq_Nil [simp]: "fm_entries m = [] \<longleftrightarrow> m = fmempty"
proof
  assume "fm_entries m = []"
  then have "map_of (fm_entries m) = Map.empty" by simp
  then have "fmlookup m = fmlookup fmempty" by auto
  then show "m = fmempty" by (simp add: fmlookup_inject)
qed simp


section \<open>Words\<close>

lemma unat_u64_of_nat [simp]: "n < 2 ^ 64 \<Longrightarrow> unat (of_nat n :: u64) = n"
  by (simp add: unsigned_of_nat take_bit_nat_eq_self)

lemma unat_u32_of_nat [simp]: "n < 2 ^ 32 \<Longrightarrow> unat (of_nat n :: u32) = n"
  by (simp add: unsigned_of_nat take_bit_nat_eq_self)

lemma unat_u32_lt: "unat (w :: u32) < 2 ^ 32"
  by (rule order_less_le_trans [OF unsigned_less]) simp

lemma unat_u64_lt: "unat (w :: u64) < 2 ^ 64"
  by (rule order_less_le_trans [OF unsigned_less]) simp

end
