(* ===== verification/Merge_Laws.thy ===== *)
theory Merge_Laws
  imports Prelude
begin

text \<open>
  The contract of include/lattices/lattice.hpp: what the storage servers and caches rely on
  when they call \<open>merge\<close>. A lattice merges by a join that is associative, commutative and
  idempotent; the consequence the system is built on is that a replica's state depends only
  on which values it has merged, not on the order or the number of their deliveries.

  The contract is stated on a carrier set, because two of the lattices (last-writer-wins and
  the causal ones) meet it only for values that are consistent with each other.
\<close>

locale merge_on =
  fixes C :: "'a set"
    and mrg :: "'a \<Rightarrow> 'a \<Rightarrow> 'a"
  assumes closed: "a \<in> C \<Longrightarrow> b \<in> C \<Longrightarrow> mrg a b \<in> C"
    and assoc: "a \<in> C \<Longrightarrow> b \<in> C \<Longrightarrow> c \<in> C \<Longrightarrow> mrg (mrg a b) c = mrg a (mrg b c)"
    and comm: "a \<in> C \<Longrightarrow> b \<in> C \<Longrightarrow> mrg a b = mrg b a"
    and idem: "a \<in> C \<Longrightarrow> mrg a a = a"
begin

lemma foldl_closed: "s \<in> C \<Longrightarrow> set xs \<subseteq> C \<Longrightarrow> foldl mrg s xs \<in> C"
  by (induction xs arbitrary: s) (auto intro: closed)

text \<open>\<open>a\<close> is below \<open>b\<close> when merging \<open>a\<close> into \<open>b\<close> changes nothing.\<close>

lemma below_trans:
  assumes "a \<in> C" "b \<in> C" "c \<in> C" "mrg a b = b" "mrg b c = c"
  shows "mrg a c = c"
  using assms by (metis assoc)

lemma below_merge: "a \<in> C \<Longrightarrow> b \<in> C \<Longrightarrow> mrg a (mrg a b) = mrg a b"
  by (metis assoc idem)

lemma start_below: "s \<in> C \<Longrightarrow> set xs \<subseteq> C \<Longrightarrow> mrg s (foldl mrg s xs) = foldl mrg s xs"
proof (induction xs arbitrary: s)
  case Nil
  then show ?case by (simp add: idem)
next
  case (Cons x xs)
  have C: "s \<in> C" "mrg s x \<in> C" "foldl mrg (mrg s x) xs \<in> C"
    using Cons.prems by (auto intro: closed foldl_closed)
  have "mrg s (mrg s x) = mrg s x" using Cons.prems by (simp add: below_merge)
  moreover have "mrg (mrg s x) (foldl mrg (mrg s x) xs) = foldl mrg (mrg s x) xs"
    using Cons.prems C by (intro Cons.IH) auto
  ultimately have "mrg s (foldl mrg (mrg s x) xs) = foldl mrg (mrg s x) xs"
    by (rule below_trans [OF C])
  then show ?case by simp
qed

lemma delivered_below:
  "s \<in> C \<Longrightarrow> set xs \<subseteq> C \<Longrightarrow> x \<in> set xs \<Longrightarrow> mrg x (foldl mrg s xs) = foldl mrg s xs"
proof (induction xs arbitrary: s)
  case Nil
  then show ?case by simp
next
  case (Cons y xs)
  then have sy: "mrg s y \<in> C" and xs: "set xs \<subseteq> C" by (auto intro: closed)
  show ?case
  proof (cases "x = y")
    case True
    have y: "y \<in> C" using Cons.prems by simp
    have "mrg y (mrg y s) = mrg y s" using Cons.prems(1) y by (rule below_merge [rotated])
    then have "mrg y (mrg s y) = mrg s y" using comm [OF y Cons.prems(1)] by simp
    moreover have "mrg (mrg s y) (foldl mrg (mrg s y) xs) = foldl mrg (mrg s y) xs"
      using sy xs by (rule start_below)
    ultimately have "mrg y (foldl mrg (mrg s y) xs) = foldl mrg (mrg s y) xs"
      by (rule below_trans [OF y sy foldl_closed [OF sy xs]])
    then show ?thesis using True by simp
  next
    case False
    then show ?thesis using Cons sy xs by simp
  qed
qed

lemma foldl_least:
  assumes "s \<in> C" "set xs \<subseteq> C" "u \<in> C" "mrg s u = u" "\<And>x. x \<in> set xs \<Longrightarrow> mrg x u = u"
  shows "mrg (foldl mrg s xs) u = u"
  using assms
proof (induction xs arbitrary: s)
  case Nil
  then show ?case by simp
next
  case (Cons x xs)
  have "mrg (mrg s x) u = u" using Cons.prems by (simp add: assoc)
  then show ?case using Cons by (simp add: closed)
qed

text \<open>
  Convergence: replicas that start from the same value and merge the same set of values end
  in the same state, whatever the order and the number of deliveries.
\<close>

lemma replicas_converge:
  assumes "s \<in> C" "set xs \<subseteq> C" "set xs = set ys"
  shows "foldl mrg s xs = foldl mrg s ys"
proof -
  let ?a = "foldl mrg s xs" and ?b = "foldl mrg s ys"
  have C: "?a \<in> C" "?b \<in> C" using assms by (simp_all add: foldl_closed)
  have "mrg ?a ?b = ?b"
    using assms C by (intro foldl_least) (auto simp: start_below delivered_below)
  moreover have "mrg ?b ?a = ?a"
    using assms C by (intro foldl_least) (auto simp: start_below delivered_below)
  ultimately show ?thesis using comm [OF C] by simp
qed

text \<open>A value that was already merged can be delivered again without effect.\<close>

lemma redelivery_noop:
  assumes "s \<in> C" "set xs \<subseteq> C" "x \<in> set xs"
  shows "mrg (foldl mrg s xs) x = foldl mrg s xs"
  using assms delivered_below [OF assms] comm [OF foldl_closed, of s xs x] by auto

lemma below_join:
  assumes "x \<in> C" "a \<in> C" "b \<in> C" "mrg x a = a"
  shows "mrg x (mrg a b) = mrg a b" "mrg x (mrg b a) = mrg b a"
proof -
  show ab: "mrg x (mrg a b) = mrg a b"
    using assms assoc [of x a b] by simp
  show "mrg x (mrg b a) = mrg b a"
    using ab comm [of a b] assms by simp
qed

text \<open>Two replicas that merge each other's states agree.\<close>

lemma exchange_agrees:
  assumes "s \<in> C" "set xs \<subseteq> C" "set ys \<subseteq> C"
  shows "mrg (foldl mrg s xs) (foldl mrg s ys) = foldl mrg s (xs @ ys)"
proof -
  define a b c where abc: "a = foldl mrg s xs" "b = foldl mrg s ys" "c = foldl mrg s (xs @ ys)"
  have C: "a \<in> C" "b \<in> C" "c \<in> C"
    unfolding abc by (rule foldl_closed; use assms in auto)+
  have sc: "mrg s c = c" unfolding abc by (rule start_below) (use assms in auto)
  have xc: "mrg x c = c" if "x \<in> set (xs @ ys)" for x
    unfolding abc by (rule delivered_below) (use assms that in auto)
  have "mrg a c = c"
    unfolding abc(1) by (rule foldl_least) (use assms C sc xc in auto)
  moreover have "mrg b c = c"
    unfolding abc(2) by (rule foldl_least) (use assms C sc xc in auto)
  ultimately have abc1: "mrg (mrg a b) c = c" using C by (simp add: assoc)
  have ab: "mrg a b \<in> C" using C by (simp add: closed)
  have "mrg c (mrg a b) = mrg a b"
    unfolding abc(3)
  proof (rule foldl_least)
    have "mrg s a = a" unfolding abc by (rule start_below) (use assms in auto)
    then show "mrg s (mrg a b) = mrg a b" using assms C by (simp add: below_join)
    fix x assume x: "x \<in> set (xs @ ys)"
    then have "x \<in> C" using assms by auto
    moreover have "mrg x a = a \<or> mrg x b = b"
      using x assms unfolding abc by (auto simp: delivered_below)
    ultimately show "mrg x (mrg a b) = mrg a b" using C by (auto simp: below_join)
  qed (use assms ab in auto)
  then show ?thesis using abc1 comm [OF C(3) ab] unfolding abc by simp
qed

end

text \<open>A lattice with a default value below everything: a fresh entry takes the first value merged.\<close>

locale merge_bot = merge_on +
  fixes bot :: 'a
  assumes bot_in: "bot \<in> C"
    and bot_merge: "a \<in> C \<Longrightarrow> mrg bot a = a"
begin

lemma fresh_entry:
  assumes "set (x # xs) \<subseteq> C"
  shows "foldl mrg bot (x # xs) = foldl mrg x xs"
  using assms by (simp add: bot_merge)

end

end
