(* ===== verification/Fluent_Lattices.thy ===== *)
theory Fluent_Lattices
  imports Merge_Laws
begin

text \<open>
  The lattices of include/lattices/: \<open>BoolLattice\<close>, \<open>MaxLattice\<close>, \<open>SetLattice\<close>,
  \<open>OrderedSetLattice\<close> and \<open>MapLattice\<close> (core_lattices.hpp), \<open>LWWPairLattice\<close>
  (lww_pair_lattice.hpp), \<open>CausalPairLattice\<close> (vector_clock_pair_lattice.hpp) and
  \<open>CrossCausalLattice\<close> (cross_causal_lattice.hpp). A \<open>Lattice<T>\<close> object holds one field,
  \<open>element\<close>, so a lattice is modelled by the type of its element: \<open>reveal\<close>, \<open>assign\<close> and
  \<open>operator==\<close> are the identity, replacement and equality, and each \<open>do_merge\<close> is a function
  from the element and the argument to the new element.

  The templates are modelled at the instances the sources use: \<open>MaxLattice<unsigned>\<close>,
  \<open>LWWPairLattice<string>\<close>, and the causal lattices over \<open>SetLattice<string>\<close>.
\<close>

section \<open>core_lattices.hpp\<close>

subsection \<open>BoolLattice and MaxLattice\<close>

definition bool_do_merge :: "bool \<Rightarrow> bool \<Rightarrow> bool" where
  "bool_do_merge element e \<longleftrightarrow> element \<or> e"

text \<open>
  \<open>int current = element\<close> reads the element as signed; \<open>current < e\<close> converts it back to
  unsigned for the comparison.
\<close>

definition max_do_merge :: "u32 \<Rightarrow> u32 \<Rightarrow> u32" where
  "max_do_merge element e =
     (let current = sint element in if word_of_int current < e then e else element)"

definition max_add :: "u32 \<Rightarrow> u32 \<Rightarrow> u32" where
  "max_add element n = element + n"

definition max_subtract :: "u32 \<Rightarrow> u32 \<Rightarrow> u32" where
  "max_subtract element n = element - n"

subsection \<open>SetLattice and OrderedSetLattice\<close>

definition set_do_merge :: "'a::linorder fset \<Rightarrow> 'a fset \<Rightarrow> 'a fset" where
  "set_do_merge element e = fold finsert (fs_elems e) element"

definition set_size :: "'a fset \<Rightarrow> u32" where
  "set_size element = of_nat (fcard element)"

definition set_insert :: "'a \<Rightarrow> 'a fset \<Rightarrow> 'a fset" where
  "set_insert e element = finsert e element"

definition set_intersect :: "'a::linorder fset \<Rightarrow> 'a fset \<Rightarrow> 'a fset" where
  "set_intersect element s =
     fold (\<lambda>that_elem. fold (\<lambda>this_elem res.
        if this_elem = that_elem then finsert this_elem res else res) (fs_elems element))
       (fs_elems s) {||}"

definition set_project :: "('a::linorder \<Rightarrow> bool) \<Rightarrow> 'a fset \<Rightarrow> 'a fset" where
  "set_project f element =
     fold (\<lambda>elem res. if f elem then finsert elem res else res) (fs_elems element) {||}"

definition oset_do_merge :: "'a::linorder fset \<Rightarrow> 'a fset \<Rightarrow> 'a fset" where
  "oset_do_merge element e = fold finsert (fs_elems e) element"

definition oset_size :: "'a fset \<Rightarrow> u32" where
  "oset_size element = of_nat (fcard element)"

definition oset_insert :: "'a \<Rightarrow> 'a fset \<Rightarrow> 'a fset" where
  "oset_insert e element = finsert e element"

definition oset_intersect :: "'a::linorder fset \<Rightarrow> 'a fset \<Rightarrow> 'a fset" where
  "oset_intersect element s =
     fold (\<lambda>that_elem. fold (\<lambda>this_elem res.
        if this_elem = that_elem then finsert this_elem res else res) (fs_elems element))
       (fs_elems s) {||}"

definition oset_project :: "('a::linorder \<Rightarrow> bool) \<Rightarrow> 'a fset \<Rightarrow> 'a fset" where
  "oset_project f element =
     fold (\<lambda>elem res. if f elem then finsert elem res else res) (fs_elems element) {||}"

subsection \<open>MapLattice\<close>

text \<open>The parameter \<open>mv\<close> is the \<open>merge\<close> of the value lattice, \<open>d\<close> its default-constructed value.\<close>

definition map_insert_pair ::
  "('v \<Rightarrow> 'v \<Rightarrow> 'v) \<Rightarrow> 'k \<Rightarrow> 'v \<Rightarrow> ('k, 'v) fmap \<Rightarrow> ('k, 'v) fmap" where
  "map_insert_pair mv k v element =
     (case fmlookup element k of
        Some v0 \<Rightarrow> fmupd k (mv v0 v) element
      | None \<Rightarrow> fmupd k v element)"

definition map_do_merge ::
  "('v \<Rightarrow> 'v \<Rightarrow> 'v) \<Rightarrow> ('k::linorder, 'v) fmap \<Rightarrow> ('k, 'v) fmap \<Rightarrow> ('k, 'v) fmap" where
  "map_do_merge mv element m = fold (\<lambda>(k, v). map_insert_pair mv k v) (fm_entries m) element"

definition map_size :: "('k, 'v) fmap \<Rightarrow> u32" where
  "map_size element = of_nat (fcard (fmdom element))"

definition map_contains :: "'k \<Rightarrow> ('k, 'v) fmap \<Rightarrow> bool" where
  "map_contains k element = (fmlookup element k \<noteq> None)"

definition map_intersect ::
  "('v \<Rightarrow> 'v \<Rightarrow> 'v) \<Rightarrow> 'v \<Rightarrow> ('k::linorder, 'v) fmap \<Rightarrow> ('k, 'v) fmap \<Rightarrow> ('k, 'v) fmap" where
  "map_intersect mv d element m =
     fold (\<lambda>(k, v) res.
        if map_contains k element
        then map_insert_pair mv k v (map_insert_pair mv k (fm_at d element k) res)
        else res) (fm_entries m) fmempty"

definition map_project :: "('v \<Rightarrow> bool) \<Rightarrow> ('k::linorder, 'v) fmap \<Rightarrow> ('k, 'v) fmap" where
  "map_project f element =
     fold (\<lambda>(k, v) res. if f v then fmupd k v res else res) (fm_entries element) fmempty"

definition map_key_set :: "('k::linorder, 'v) fmap \<Rightarrow> 'k fset" where
  "map_key_set element = fold (\<lambda>(k, v). finsert k) (fm_entries element) {||}"

definition map_at :: "'v \<Rightarrow> 'k \<Rightarrow> ('k, 'v) fmap \<Rightarrow> 'v \<times> ('k, 'v) fmap" where
  "map_at d k element = (fm_at d element k, fm_touch d k element)"

definition map_remove :: "'k \<Rightarrow> ('k, 'v) fmap \<Rightarrow> ('k, 'v) fmap" where
  "map_remove k element = (if fmlookup element k \<noteq> None then fmdrop k element else element)"

definition map_insert :: "('v \<Rightarrow> 'v \<Rightarrow> 'v) \<Rightarrow> 'k \<Rightarrow> 'v \<Rightarrow> ('k, 'v) fmap \<Rightarrow> ('k, 'v) fmap" where
  "map_insert mv k v element = map_insert_pair mv k v element"

section \<open>lww_pair_lattice.hpp\<close>

record TimestampValuePair =
  timestamp :: u64
  tvp_value :: string

definition lww_default :: TimestampValuePair where
  "lww_default = \<lparr>timestamp = 0, tvp_value = []\<rparr>"

text \<open>\<open>value.size() + sizeof(unsigned long long)\<close>, truncated to \<open>unsigned\<close>.\<close>

definition lww_size :: "TimestampValuePair \<Rightarrow> u32" where
  "lww_size element = of_nat (length (tvp_value element) + 8)"

definition lww_do_merge :: "TimestampValuePair \<Rightarrow> TimestampValuePair \<Rightarrow> TimestampValuePair" where
  "lww_do_merge element p =
     (if timestamp element \<le> timestamp p
      then element\<lparr>timestamp := timestamp p, tvp_value := tvp_value p\<rparr>
      else element)"

section \<open>vector_clock_pair_lattice.hpp\<close>

type_synonym VectorClock = "(string, u32) fmap"

definition vc_merge :: "VectorClock \<Rightarrow> VectorClock \<Rightarrow> VectorClock" where
  "vc_merge = map_do_merge max_do_merge"

definition vc_insert :: "string \<Rightarrow> u32 \<Rightarrow> VectorClock \<Rightarrow> VectorClock" where
  "vc_insert = map_insert max_do_merge"

record VectorClockValuePair =
  vector_clock :: VectorClock
  vcp_value :: "string fset"

definition vcp_default :: VectorClockValuePair where
  "vcp_default = \<lparr>vector_clock = fmempty, vcp_value = {||}\<rparr>"

text \<open>
  The \<open>size_t\<close> sum truncated to \<open>unsigned\<close> is the same sum at 32 bits
  (\<open>sizeof(unsigned)\<close> is 4).
\<close>

definition vcp_size :: "VectorClockValuePair \<Rightarrow> u32" where
  "vcp_size p = map_size (vector_clock p) * 2 * 4 + set_size (vcp_value p)"

definition causal_do_merge ::
  "VectorClockValuePair \<Rightarrow> VectorClockValuePair \<Rightarrow> VectorClockValuePair" where
  "causal_do_merge element p =
     (let prev = vector_clock element;
          element1 = element\<lparr>vector_clock := vc_merge prev (vector_clock p)\<rparr>
      in if vector_clock element1 = vector_clock p
         then element1\<lparr>vcp_value := vcp_value p\<rparr>
         else if \<not> vector_clock element1 = prev
         then element1\<lparr>vcp_value := set_do_merge (vcp_value element1) (vcp_value p)\<rparr>
         else element1)"

section \<open>cross_causal_lattice.hpp\<close>

record CrossCausalPayload =
  cc_vector_clock :: VectorClock
  cc_dependency :: "(Key, VectorClock) fmap"
  cc_value :: "string fset"

definition cc_default :: CrossCausalPayload where
  "cc_default = \<lparr>cc_vector_clock = fmempty, cc_dependency = fmempty, cc_value = {||}\<rparr>"

definition dep_merge ::
  "(Key, VectorClock) fmap \<Rightarrow> (Key, VectorClock) fmap \<Rightarrow> (Key, VectorClock) fmap" where
  "dep_merge = map_do_merge vc_merge"

definition dep_insert ::
  "Key \<Rightarrow> VectorClock \<Rightarrow> (Key, VectorClock) fmap \<Rightarrow> (Key, VectorClock) fmap" where
  "dep_insert = map_insert vc_merge"

definition cc_size :: "CrossCausalPayload \<Rightarrow> u32" where
  "cc_size p =
     (let dep_size = fold (\<lambda>(k, vc) dep_size.
            dep_size + of_nat (length k) + map_size vc * 2 * 4) (fm_entries (cc_dependency p)) 0
      in map_size (cc_vector_clock p) * 2 * 4 + dep_size + set_size (cc_value p))"

definition cross_causal_do_merge ::
  "CrossCausalPayload \<Rightarrow> CrossCausalPayload \<Rightarrow> CrossCausalPayload" where
  "cross_causal_do_merge element p =
     (let prev = cc_vector_clock element;
          element1 = element\<lparr>cc_vector_clock := vc_merge prev (cc_vector_clock p)\<rparr>
      in if cc_vector_clock element1 = cc_vector_clock p
         then element1\<lparr>cc_dependency := cc_dependency p, cc_value := cc_value p\<rparr>
         else if \<not> cc_vector_clock element1 = prev
         then element1\<lparr>cc_dependency := dep_merge (cc_dependency element1) (cc_dependency p),
                       cc_value := set_do_merge (cc_value element1) (cc_value p)\<rparr>
         else element1)"

section \<open>What the operations compute\<close>

lemma max_do_merge_max [lattice_simps]: "max_do_merge a b = max a b"
  by (auto simp: max_do_merge_def max_def)

lemma fold_finsert: "fold finsert xs s = fset_of_list xs |\<union>| s"
  by (induction xs arbitrary: s) auto

lemma set_do_merge_union [lattice_simps]: "set_do_merge a b = a |\<union>| b"
  by (simp add: set_do_merge_def fold_finsert fset_eq_iff fset_of_list_elem) blast

lemma oset_do_merge_union [lattice_simps]: "oset_do_merge a b = a |\<union>| b"
  using set_do_merge_union [of a b] by (simp add: set_do_merge_def oset_do_merge_def)

lemma fold_finsert_if:
  "fset (fold (\<lambda>x res. if P x then finsert x res else res) xs s) = {x \<in> set xs. P x} \<union> fset s"
  by (induction xs arbitrary: s) auto

lemma set_project_filter [lattice_simps]: "set_project f a = ffilter f a"
  by (auto simp: set_project_def fold_finsert_if fset_eq_iff simp flip: fset_inject)

lemma set_intersect_inter [lattice_simps]: "set_intersect a b = a |\<inter>| b"
proof -
  have "fset (fold (\<lambda>that. fold (\<lambda>this res. if this = that then finsert this res else res)
      (fs_elems a)) xs s) = (fset a \<inter> set xs) \<union> fset s" for xs s
    by (induction xs arbitrary: s) (auto simp: fold_finsert_if)
  then show ?thesis
    by (auto simp: set_intersect_def simp flip: fset_inject)
qed

text \<open>Merging two maps keeps the keys of both and joins the values they share.\<close>

lemma fmlookup_map_insert_pair:
  "fmlookup (map_insert_pair mv k v m) k' =
     (if k' = k then Some (case fmlookup m k of Some v0 \<Rightarrow> mv v0 v | None \<Rightarrow> v)
      else fmlookup m k')"
  by (auto simp: map_insert_pair_def split: option.splits)

lemma fmlookup_fold_insert_pair:
  assumes "distinct (map fst es)"
  shows "fmlookup (fold (\<lambda>(k, v). map_insert_pair mv k v) es m) k =
     (case map_of es k of
        None \<Rightarrow> fmlookup m k
      | Some v \<Rightarrow> Some (case fmlookup m k of Some v0 \<Rightarrow> mv v0 v | None \<Rightarrow> v))"
  using assms
proof (induction es arbitrary: m)
  case Nil
  show ?case by simp
next
  case (Cons e es)
  obtain k0 v0 where e: "e = (k0, v0)" by (cases e)
  have "k = k0 \<Longrightarrow> map_of es k = None"
    using Cons.prems by (auto simp: e map_of_eq_None_iff)
  then show ?case
    using Cons by (auto simp: e fmlookup_map_insert_pair split: option.splits)
qed

lemma fmlookup_map_do_merge [lattice_simps]:
  "fmlookup (map_do_merge mv m e) k =
     (case fmlookup e k of
        None \<Rightarrow> fmlookup m k
      | Some v \<Rightarrow> Some (case fmlookup m k of Some v0 \<Rightarrow> mv v0 v | None \<Rightarrow> v))"
  by (simp add: map_do_merge_def fmlookup_fold_insert_pair distinct_fm_entries)

lemma fmlookup_vc_merge [lattice_simps]:
  "fmlookup (vc_merge a b) k =
     (case fmlookup b k of
        None \<Rightarrow> fmlookup a k
      | Some v \<Rightarrow> Some (case fmlookup a k of Some v0 \<Rightarrow> max v0 v | None \<Rightarrow> v))"
  by (simp add: vc_merge_def fmlookup_map_do_merge max_do_merge_max split: option.splits)

lemma vc_merge_empty [simp]: "vc_merge a fmempty = a" "vc_merge fmempty a = a"
  by (auto intro!: fmap_ext simp: fmlookup_vc_merge split: option.splits)


section \<open>The merge contract\<close>

text \<open>The lattices that meet the contract on all their values.\<close>

interpretation bool_lat: merge_bot UNIV bool_do_merge False
  by unfold_locales (auto simp: bool_do_merge_def)

interpretation max_lat: merge_bot UNIV max_do_merge 0
  by unfold_locales (auto simp: lattice_simps max.assoc intro: max.commute)

interpretation set_lat: merge_bot UNIV set_do_merge "{||}"
  by unfold_locales (auto simp: lattice_simps)

interpretation oset_lat: merge_bot UNIV oset_do_merge "{||}"
  by unfold_locales (auto simp: lattice_simps)

text \<open>A map of lattice values is a lattice.\<close>

lemma map_merge_contract:
  assumes "merge_on UNIV mv"
  shows "merge_bot UNIV (map_do_merge mv) (fmempty :: ('k::linorder, 'v) fmap)"
proof -
  have laws: "mv (mv a b) c = mv a (mv b c)" "mv a a = a" for a b c
    using merge_on.assoc [OF assms, of a b c] merge_on.idem [OF assms, of a] by simp_all
  have comm: "mv a b = mv b a" for a b
    using merge_on.comm [OF assms, of a b] by simp
  show ?thesis
  proof
    fix a b c :: "('k, 'v) fmap"
    show "map_do_merge mv (map_do_merge mv a b) c = map_do_merge mv a (map_do_merge mv b c)"
      by (rule fmap_ext) (simp add: lattice_simps laws split: option.splits)
    show "map_do_merge mv a b = map_do_merge mv b a"
      by (rule fmap_ext) (simp add: lattice_simps split: option.splits, metis comm)
    show "map_do_merge mv a a = a"
      by (rule fmap_ext) (simp add: lattice_simps laws split: option.splits)
    show "map_do_merge mv fmempty a = a"
      by (rule fmap_ext) (simp add: lattice_simps split: option.splits)
  qed simp_all
qed

interpretation vc_lat: merge_bot UNIV vc_merge fmempty
  unfolding vc_merge_def by (rule map_merge_contract) unfold_locales

interpretation dep_lat: merge_bot UNIV dep_merge fmempty
  unfolding dep_merge_def by (rule map_merge_contract) unfold_locales

subsection \<open>Last writer wins\<close>

text \<open>
  \<open>LWWPairLattice\<close> compares timestamps only and lets the incoming value win a tie, so it is a
  join on writes in which a timestamp determines the value: \<open>f\<close> below says which.
\<close>

definition lww_writes :: "(u64 \<Rightarrow> string) \<Rightarrow> TimestampValuePair set" where
  "lww_writes f = {p. tvp_value p = f (timestamp p)}"

lemma lww_do_merge_max:
  "a \<in> lww_writes f \<Longrightarrow> b \<in> lww_writes f \<Longrightarrow>
   lww_do_merge a b = \<lparr>timestamp = max (timestamp a) (timestamp b),
                       tvp_value = f (max (timestamp a) (timestamp b))\<rparr>"
  by (cases a; cases b) (auto simp: lww_do_merge_def lww_writes_def max_def)

interpretation lww_lat: merge_on "lww_writes f" lww_do_merge for f
proof
  fix a b c
  assume a: "a \<in> lww_writes f" and b: "b \<in> lww_writes f"
  show ab: "lww_do_merge a b \<in> lww_writes f"
    using a b by (simp add: lww_do_merge_max) (simp add: lww_writes_def)
  show "lww_do_merge a b = lww_do_merge b a"
    using a b by (simp add: lww_do_merge_max max.commute)
  assume c: "c \<in> lww_writes f"
  have bc: "lww_do_merge b c \<in> lww_writes f"
    using b c by (simp add: lww_do_merge_max) (simp add: lww_writes_def)
  show "lww_do_merge (lww_do_merge a b) c = lww_do_merge a (lww_do_merge b c)"
    using lww_do_merge_max [OF ab c] lww_do_merge_max [OF a bc]
    by (simp add: lww_do_merge_max [OF a b] lww_do_merge_max [OF b c] max.assoc)
next
  fix a assume "a \<in> lww_writes f"
  then show "lww_do_merge a a = a" by (simp add: lww_do_merge_def)
qed

subsection \<open>Vector clocks and the causal lattices\<close>

text \<open>The order of vector clocks: every entry of \<open>a\<close> is in \<open>b\<close> and not larger there.\<close>

definition vc_le :: "VectorClock \<Rightarrow> VectorClock \<Rightarrow> bool" where
  "vc_le a b = fmpred (\<lambda>k n. case fmlookup b k of None \<Rightarrow> False | Some m \<Rightarrow> n \<le> m) a"

lemma vc_le_iff: "vc_le a b \<longleftrightarrow> vc_merge a b = b"
proof
  assume le: "vc_le a b"
  show "vc_merge a b = b"
  proof (rule fmap_ext)
    fix k
    show "fmlookup (vc_merge a b) k = fmlookup b k"
      using fmpredD [OF le [unfolded vc_le_def], of k]
      by (cases "fmlookup a k") (auto simp: lattice_simps max_def split: option.splits)
  qed
next
  assume eq: "vc_merge a b = b"
  have "case fmlookup b k of None \<Rightarrow> False | Some m \<Rightarrow> n \<le> m" if "fmlookup a k = Some n" for k n
    using arg_cong [OF eq, of "\<lambda>m. fmlookup m k"] that
    by (auto simp: lattice_simps max_def split: option.splits if_splits)
  then show "vc_le a b" by (simp add: vc_le_def fmpredI)
qed

lemma vc_le_iff': "vc_le a b \<longleftrightarrow> vc_merge b a = b"
  using vc_lat.comm [of a b] by (simp add: vc_le_iff)

lemma vc_le_refl [simp]: "vc_le a a"
  by (simp add: vc_le_iff vc_lat.idem)

lemma vc_le_antisym: "vc_le a b \<Longrightarrow> vc_le b a \<Longrightarrow> a = b"
  unfolding vc_le_iff using vc_lat.comm [of a b] by simp

lemma vc_le_trans: "vc_le a b \<Longrightarrow> vc_le b c \<Longrightarrow> vc_le a c"
  unfolding vc_le_iff by (rule vc_lat.below_trans) simp_all

lemma vc_le_merge [simp]: "vc_le a (vc_merge a b)" "vc_le b (vc_merge a b)"
  by (simp_all add: vc_le_iff vc_lat.below_merge) (simp add: vc_lat.comm [of a b] vc_lat.below_merge)

lemma vc_merge_least: "vc_le a c \<Longrightarrow> vc_le b c \<Longrightarrow> vc_le (vc_merge a b) c"
  by (simp add: vc_le_iff vc_lat.assoc)

text \<open>The three cases of the causal merges, in terms of the clock order.\<close>

lemma causal_do_merge_cases [lattice_simps]:
  "causal_do_merge e p =
     (if vc_le (vector_clock e) (vector_clock p)
      then e\<lparr>vector_clock := vector_clock p, vcp_value := vcp_value p\<rparr>
      else if vc_le (vector_clock p) (vector_clock e) then e
      else e\<lparr>vector_clock := vc_merge (vector_clock e) (vector_clock p),
             vcp_value := vcp_value e |\<union>| vcp_value p\<rparr>)"
  by (auto simp: causal_do_merge_def Let_def set_do_merge_union simp flip: vc_le_iff vc_le_iff')

lemma cross_causal_do_merge_cases [lattice_simps]:
  "cross_causal_do_merge e p =
     (if vc_le (cc_vector_clock e) (cc_vector_clock p)
      then e\<lparr>cc_vector_clock := cc_vector_clock p, cc_dependency := cc_dependency p,
             cc_value := cc_value p\<rparr>
      else if vc_le (cc_vector_clock p) (cc_vector_clock e) then e
      else e\<lparr>cc_vector_clock := vc_merge (cc_vector_clock e) (cc_vector_clock p),
             cc_dependency := dep_merge (cc_dependency e) (cc_dependency p),
             cc_value := cc_value e |\<union>| cc_value p\<rparr>)"
  by (auto simp: cross_causal_do_merge_def Let_def set_do_merge_union simp flip: vc_le_iff vc_le_iff')


text \<open>
  Writes whose value is a function of the clock, with concurrent clocks carrying the union of
  their values: on these the causal merge is a join.
\<close>

definition clock_determined :: "(VectorClock \<Rightarrow> string fset) \<Rightarrow> bool" where
  "clock_determined g \<longleftrightarrow>
     (\<forall>a b. \<not> vc_le a b \<longrightarrow> \<not> vc_le b a \<longrightarrow> g (vc_merge a b) = g a |\<union>| g b)"

definition causal_writes :: "(VectorClock \<Rightarrow> string fset) \<Rightarrow> VectorClockValuePair set" where
  "causal_writes g = {p. vcp_value p = g (vector_clock p)}"

lemma causal_writes_iff:
  "p \<in> causal_writes g \<longleftrightarrow> p = \<lparr>vector_clock = vector_clock p, vcp_value = g (vector_clock p)\<rparr>"
  by (cases p) (simp add: causal_writes_def)

lemma causal_do_merge_join:
  assumes "clock_determined g" "a \<in> causal_writes g" "b \<in> causal_writes g"
  shows "causal_do_merge a b =
    \<lparr>vector_clock = vc_merge (vector_clock a) (vector_clock b),
     vcp_value = g (vc_merge (vector_clock a) (vector_clock b))\<rparr>"
proof -
  let ?a = "vector_clock a" and ?b = "vector_clock b"
  have m: "vc_le ?a ?b \<Longrightarrow> vc_merge ?a ?b = ?b" "vc_le ?b ?a \<Longrightarrow> vc_merge ?a ?b = ?a"
    by (simp_all add: vc_le_iff vc_lat.comm)
  show ?thesis
    using assms by (cases a; cases b)
      (auto simp: causal_do_merge_cases clock_determined_def causal_writes_def
        vc_le_iff [THEN iffD1] vc_le_iff' [THEN iffD1])
qed

lemma causal_merge_contract:
  assumes g: "clock_determined g"
  shows "merge_on (causal_writes g) causal_do_merge"
proof
  fix a b c assume a: "a \<in> causal_writes g" and b: "b \<in> causal_writes g"
  note join = causal_do_merge_join [OF g]
  show ab: "causal_do_merge a b \<in> causal_writes g"
    using join [OF a b] by (simp add: causal_writes_def)
  show "causal_do_merge a b = causal_do_merge b a"
    using join [OF a b] join [OF b a] by (simp add: vc_lat.comm)
  assume c: "c \<in> causal_writes g"
  have bc: "causal_do_merge b c \<in> causal_writes g"
    using join [OF b c] by (simp add: causal_writes_def)
  show "causal_do_merge (causal_do_merge a b) c = causal_do_merge a (causal_do_merge b c)"
    using join [OF ab c] join [OF a bc] by (simp add: join [OF a b] join [OF b c] vc_lat.assoc)
next
  fix a assume "a \<in> causal_writes g"
  then show "causal_do_merge a a = a" by (simp add: causal_do_merge_cases)
qed

lemma lww_do_merge_later [lattice_simps]:
  "lww_do_merge a b = (if timestamp a \<le> timestamp b then b else a)"
  by (cases a; cases b) (simp add: lww_do_merge_def)

lemma last_filter_snoc_max:
  fixes f :: "'a \<Rightarrow> 'b::linorder"
  assumes "zs \<noteq> []"
  defines "m \<equiv> last (filter (\<lambda>p. f p = Max (f ` set zs)) zs)"
  shows "last (filter (\<lambda>p. f p = Max (f ` set (zs @ [x]))) (zs @ [x])) = (if f m \<le> f x then x else m)"
proof -
  define M where "M = Max (f ` set zs)"
  have "M \<in> f ` set zs" unfolding M_def using assms by (intro Max_in) auto
  then have "filter (\<lambda>p. f p = M) zs \<noteq> []" by (auto simp: filter_empty_conv)
  then have "m \<in> set (filter (\<lambda>p. f p = M) zs)" unfolding m_def M_def by (rule last_in_set)
  then have m: "f m = M" by simp
  have M': "Max (f ` set (zs @ [x])) = max (f x) M"
    using assms by (simp add: M_def Max_insert)
  show ?thesis
    unfolding M' m by (cases "M \<le> f x") (auto simp: max_def m_def M_def dest: order.antisym)
qed

section \<open>Properties\<close>

text \<open>
  C16. Last writer wins, for any sequence of merges: after merging \<open>xs\<close> into \<open>s\<close>, a
  \<open>LWWPairLattice\<close> holds the last of the pairs whose timestamp is the largest of all.
\<close>

theorem lww_holds_last_maximal:
  "foldl lww_do_merge s xs =
     last (filter (\<lambda>p. timestamp p = Max (timestamp ` set (s # xs))) (s # xs))"
proof (induction xs rule: rev_induct)
  case (snoc x xs)
  then show ?case
    using last_filter_snoc_max [of "s # xs" timestamp x] by (simp add: lww_do_merge_later)
qed simp

text \<open>
  Replicas of a last-writer-wins value converge: when no two of the writes share a timestamp,
  replicas that start from \<open>s\<close> and merge the same writes, in any order and any number of
  times, hold the same pair.
\<close>

lemma lww_replicas_converge:
  assumes "\<And>p q. p \<in> set (s # xs) \<Longrightarrow> q \<in> set (s # xs) \<Longrightarrow> timestamp p = timestamp q \<Longrightarrow> p = q"
    and "set xs = set ys"
  shows "foldl lww_do_merge s xs = foldl lww_do_merge s ys"
proof -
  define f where "f t = tvp_value (SOME p. p \<in> set (s # xs) \<and> timestamp p = t)" for t
  have "tvp_value p = f (timestamp p)" if "p \<in> set (s # xs)" for p
  proof -
    have "(SOME q. q \<in> set (s # xs) \<and> timestamp q = timestamp p) = p"
      using that assms(1) by (intro some_equality) auto
    then show ?thesis by (simp add: f_def)
  qed
  then have "s \<in> lww_writes f" "set xs \<subseteq> lww_writes f"
    by (auto simp: lww_writes_def)
  then show ?thesis using assms(2) by (rule lww_lat.replicas_converge)
qed

text \<open>
  Merging vector clocks computes their least upper bound in the pointwise order, so a merged
  clock covers exactly the history of the two.
\<close>

lemma vc_merge_least_upper_bound:
  "vc_le (vc_merge a b) c \<longleftrightarrow> vc_le a c \<and> vc_le b c"
  by (meson vc_le_merge vc_le_trans vc_merge_least)




end
