(* ===== verification/Cxx_Strings.thy ===== *)
theory Cxx_Strings
  imports Prelude
begin

text \<open>
  The string operations the sources use: \<open>std::to_string\<close> on unsigned integers, \<open>std::stoi\<close>,
  \<open>std::string::find\<close> and \<open>substr\<close> (with \<open>size_type\<close> arithmetic at 64 bits, so that
  \<open>npos + 1 = 0\<close>), and the \<open>split\<close> helper of include/common.hpp, which is a
  \<open>std::getline\<close> loop. The lemmas are the round trips the message formats rely on.
\<close>

section \<open>Decimal printing and parsing\<close>

definition digit_char :: "nat \<Rightarrow> char" where
  "digit_char d = char_of (48 + d)"

definition is_digit :: "char \<Rightarrow> bool" where
  "is_digit c \<longleftrightarrow> 48 \<le> (of_char c :: nat) \<and> (of_char c :: nat) \<le> 57"

definition digit_val :: "char \<Rightarrow> nat" where
  "digit_val c = of_char c - 48"

definition is_space :: "char \<Rightarrow> bool" where
  "is_space c \<longleftrightarrow> of_char c = (32::nat) \<or> (9 \<le> (of_char c :: nat) \<and> (of_char c :: nat) \<le> 13)"

fun nat_to_string :: "nat \<Rightarrow> string" where
  "nat_to_string n =
     (if n < 10 then [digit_char n] else nat_to_string (n div 10) @ [digit_char (n mod 10)])"

declare nat_to_string.simps [simp del]

definition to_string :: "u32 \<Rightarrow> string" where
  "to_string n = nat_to_string (unat n)"

fun digits_val :: "nat \<Rightarrow> string \<Rightarrow> nat" where
  "digits_val acc [] = acc"
| "digits_val acc (c # cs) = digits_val (10 * acc + digit_val c) cs"

text \<open>\<open>std::stoi\<close>: white space, an optional sign, then the longest run of digits.\<close>

definition stoi :: "string \<Rightarrow> fault + int" where
  "stoi s =
     (let s1 = dropWhile is_space s;
          neg = (s1 \<noteq> [] \<and> hd s1 = CHR ''-'');
          s2 = (if s1 \<noteq> [] \<and> (hd s1 = CHR ''-'' \<or> hd s1 = CHR ''+'') then tl s1 else s1);
          ds = takeWhile is_digit s2;
          v = (if neg then - int (digits_val 0 ds) else int (digits_val 0 ds))
      in if ds = [] then Inl Invalid_argument
         else if v < - (2 ^ 31) \<or> 2 ^ 31 \<le> v then Inl Out_of_range
         else Inr v)"

lemma of_char_digit_char: "d < 10 \<Longrightarrow> of_char (digit_char d) = (48 + d :: nat)"
  by (simp add: digit_char_def)

lemma digit_char_is_digit [simp]: "d < 10 \<Longrightarrow> is_digit (digit_char d)"
  by (simp add: is_digit_def of_char_digit_char)

lemma digit_val_digit_char [simp]: "d < 10 \<Longrightarrow> digit_val (digit_char d) = d"
  by (simp add: digit_val_def of_char_digit_char)

lemma nat_to_string_digits: "c \<in> set (nat_to_string n) \<Longrightarrow> is_digit c"
proof (induction n rule: nat_to_string.induct)
  case (1 n)
  then show ?case
    by (cases "n < 10") (auto simp: nat_to_string.simps [of n])
qed

lemma nat_to_string_not_Nil [simp]: "nat_to_string n \<noteq> []"
  by (subst nat_to_string.simps) simp

lemma digits_val_append: "digits_val a (xs @ ys) = digits_val (digits_val a xs) ys"
  by (induction xs arbitrary: a) auto

lemma digits_val_nat_to_string [simp]: "digits_val 0 (nat_to_string n) = n"
proof (induction n rule: nat_to_string.induct)
  case (1 n)
  then show ?case
    by (cases "n < 10") (simp_all add: nat_to_string.simps [of n] digits_val_append)
qed

lemma nat_to_string_inject [simp]: "nat_to_string m = nat_to_string n \<longleftrightarrow> m = n"
  by (metis digits_val_nat_to_string)

lemma to_string_inject [simp]: "to_string m = to_string n \<longleftrightarrow> m = n"
  by (simp add: to_string_def word_unat_eq_iff)

lemma to_string_digits: "c \<in> set (to_string n) \<Longrightarrow> is_digit c"
  by (auto simp: to_string_def nat_to_string_digits)

lemma to_string_not_Nil [simp]: "to_string n \<noteq> []"
  by (simp add: to_string_def)

lemma takeWhile_digits [simp]: "takeWhile is_digit (nat_to_string n) = nat_to_string n"
  by (simp add: takeWhile_eq_all_conv nat_to_string_digits)

lemma is_digit_not_space: "is_digit c \<Longrightarrow> \<not> is_space c"
  by (auto simp: is_digit_def is_space_def)

lemma is_digit_not_sign: "is_digit c \<Longrightarrow> c \<noteq> CHR ''-'' \<and> c \<noteq> CHR ''+''"
  by (auto simp: is_digit_def)

lemma stoi_nat_to_string:
  assumes "n < 2 ^ 31"
  shows "stoi (nat_to_string n) = Inr (int n)"
proof -
  obtain c cs where ccs: "nat_to_string n = c # cs"
    by (cases "nat_to_string n") auto
  then have c: "is_digit c" using nat_to_string_digits [of c n] by simp
  have drop: "dropWhile is_space (nat_to_string n) = nat_to_string n"
    using c by (simp add: ccs is_digit_not_space)
  have "hd (nat_to_string n) \<noteq> CHR ''-''" "hd (nat_to_string n) \<noteq> CHR ''+''"
    using is_digit_not_sign [OF c] by (simp_all add: ccs)
  then show ?thesis
    using assms by (simp add: stoi_def drop Let_def)
qed

text \<open>An unsigned value printed by \<open>to_string\<close> reads back through \<open>stoi\<close> when it fits an \<open>int\<close>.\<close>

lemma stoi_to_string:
  assumes "unat n < 2 ^ 31"
  shows "stoi (to_string n) = Inr (uint n)"
  using stoi_nat_to_string [OF assms] by (simp add: to_string_def)

section \<open>Splitting\<close>

text \<open>include/common.hpp, \<open>split\<close>: pieces between delimiters; an empty last piece is not produced.\<close>

fun split_loop :: "char \<Rightarrow> string \<Rightarrow> string \<Rightarrow> string list" where
  "split_loop delim item [] = (if item = [] then [] else [item])"
| "split_loop delim item (c # cs) =
     (if c = delim then item # split_loop delim [] cs else split_loop delim (item @ [c]) cs)"

definition split :: "string \<Rightarrow> char \<Rightarrow> string list" where
  "split s delim = split_loop delim [] s"

lemma split_loop_nodelim:
  "delim \<notin> set s \<Longrightarrow> split_loop delim item s = (if item @ s = [] then [] else [item @ s])"
  by (induction s arbitrary: item) auto

lemma split_loop_delim:
  "delim \<notin> set s \<Longrightarrow>
   split_loop delim item (s @ delim # rest) = (item @ s) # split_loop delim [] rest"
  by (induction s arbitrary: item) auto

lemma split_one: "delim \<notin> set s \<Longrightarrow> s \<noteq> [] \<Longrightarrow> split s delim = [s]"
  by (simp add: split_def split_loop_nodelim)

lemma split_cons: "delim \<notin> set s \<Longrightarrow> split (s @ delim # rest) delim = s # split rest delim"
  by (simp add: split_def split_loop_delim)

lemma split_empty [simp]: "split [] delim = []"
  by (simp add: split_def)

lemma split_pieces_nodelim: "x \<in> set (split s delim) \<Longrightarrow> delim \<notin> set x"
proof -
  have "delim \<notin> set item \<Longrightarrow> x \<in> set (split_loop delim item s) \<Longrightarrow> delim \<notin> set x" for item
    by (induction s arbitrary: item) (fastforce split: if_splits)+
  from this [of "[]"] show "x \<in> set (split s delim) \<Longrightarrow> delim \<notin> set x"
    by (simp add: split_def)
qed

text \<open>Reading \<open>v[i]\<close> of the pieces.\<close>

definition vec_at :: "'a list \<Rightarrow> nat \<Rightarrow> fault + 'a" where
  "vec_at xs i = (if i < length xs then Inr (xs ! i) else Inl Bad_index)"

lemma vec_at_Cons [simp]:
  "vec_at (x # xs) 0 = Inr x" "vec_at (x # xs) (Suc i) = vec_at xs i"
  by (simp_all add: vec_at_def)

lemma vec_at_numeral [simp]: "vec_at (x # xs) (numeral n) = vec_at xs (pred_numeral n)"
  by (simp add: numeral_eq_Suc)

lemma vec_at_Nil [simp]: "vec_at [] i = Inl Bad_index"
  by (simp add: vec_at_def)

section \<open>Searching and cutting\<close>

definition npos :: u64 where
  "npos = - 1"

fun index_of :: "char \<Rightarrow> string \<Rightarrow> nat option" where
  "index_of c [] = None"
| "index_of c (x # xs) = (if x = c then Some 0 else map_option Suc (index_of c xs))"

definition str_find :: "string \<Rightarrow> char \<Rightarrow> u64 \<Rightarrow> u64" where
  "str_find s c pos =
     (case index_of c (drop (unat pos) s) of None \<Rightarrow> npos | Some i \<Rightarrow> pos + of_nat i)"

definition substr :: "string \<Rightarrow> u64 \<Rightarrow> u64 \<Rightarrow> fault + string" where
  "substr s pos len =
     (if length s < unat pos then Inl Out_of_range
      else Inr (take (unat len) (drop (unat pos) s)))"

lemma index_of_append: "c \<notin> set xs \<Longrightarrow> index_of c (xs @ c # ys) = Some (length xs)"
  by (induction xs) auto

lemma index_of_None [simp]: "index_of c xs = None \<longleftrightarrow> c \<notin> set xs"
  by (induction xs) auto

lemma unat_npos: "unat npos = 2 ^ 64 - 1"
  by (simp add: npos_def unsigned_minus_1_eq_mask mask_eq_exp_minus_1)

end
