(* ===== verification/Messages.thy ===== *)
theory Messages
  imports Fluent_Lattices Cxx_Strings
begin

text \<open>
  The messages of include/proto/kvs.proto, kvs/include/proto/metadata.proto and
  kvs/include/proto/replication.proto as records, and the helpers of include/common.hpp and
  include/requests.hpp that build, encode and decode them.

  \<^item> An optional field, and a required scalar field whose absence the code can observe, is an
    \<open>option\<close>; the accessors below return the protobuf default when it is absent. Repeated fields
    are lists, protobuf maps are finite maps.
  \<^item> The code that protoc generates is not part of the sources: \<open>SerializeToString\<close> and
    \<open>ParseFromString\<close> of every message that is stored as the payload of another one are fields of
    the record \<open>wire\<close>, an argument of the definitions that use them. Parsing returns the message
    and the success flag. \<open>wire_ok\<close> states what is relied on: a message that was serialized
    with all its required fields set parses back to itself.
  \<^item> Messages sent over a socket are the values of the type \<open>message\<close>; a handler receives the
    decoded message.
\<close>

section \<open>kvs.proto\<close>

datatype RequestType = GET | PUT

datatype LatticeType = NO | LWW | SET | CAUSAL | CROSSCAUSAL | ORDERED_SET

datatype ResponseErrorType = TIMEOUT | LATTICE

record LWWValue =
  lv_timestamp :: "u64 option"
  lv_value :: "string option"

record CausalValue =
  cv_vector_clock :: VectorClock
  cv_values :: "string list"

record Dependency =
  d_key :: Key
  d_vector_clock :: VectorClock

record CrossCausalValue =
  ccv_vector_clock :: VectorClock
  ccv_deps :: "Dependency list"
  ccv_values :: "string list"

record KeyTuple =
  t_key :: Key
  t_lattice_type :: "LatticeType option"
  t_error :: "u32 option"
  t_payload :: "string option"
  t_address_cache_size :: "u32 option"
  t_invalidate :: "bool option"
  t_addresses :: "Address list"

record KeyRequest =
  q_type :: RequestType
  q_tuples :: "KeyTuple list"
  q_response_address :: "Address option"
  q_request_id :: "string option"

record KeyResponse =
  r_type :: RequestType
  r_tuples :: "KeyTuple list"
  r_response_id :: "string option"
  r_error :: "u32 option"

record KeyAddressRequest =
  aq_response_address :: Address
  aq_keys :: "Key list"
  aq_request_id :: "string option"

record KeyAddress =
  ka_key :: Key
  ka_ips :: "Address list"

record KeyAddressResponse =
  ar_addresses :: "KeyAddress list"
  ar_error :: u32
  ar_response_id :: "string option"

section \<open>metadata.proto and replication.proto\<close>

record ServerThreadStatistics =
  sts_storage_consumption :: u64
  sts_occupancy :: rat
  sts_epoch :: u32
  sts_access_count :: u32

type_synonym KeyAccessData = "(Key \<times> u32) list"
type_synonym KeySizeData = "(Key \<times> u32) list"

record MembershipServer =
  ms_public_ip :: Address
  ms_private_ip :: Address

type_synonym TierMembership = "(u32 \<times> MembershipServer list) list"

record Replication =
  rep_tier_id :: u32
  rep_factor :: u32

record ReplicationFactor =
  rf_key :: Key
  rf_global :: "Replication list"
  rf_local :: "Replication list"

type_synonym ReplicationFactorUpdate = "ReplicationFactor list"

text \<open>Accessors with protobuf defaults, and empty messages.\<close>

definition from_option :: "'a \<Rightarrow> 'a option \<Rightarrow> 'a" where
  "from_option d x = (case x of None \<Rightarrow> d | Some v \<Rightarrow> v)"

lemma from_option_simps [simp]: "from_option d None = d" "from_option d (Some v) = v"
  by (simp_all add: from_option_def)

definition t_lattice :: "KeyTuple \<Rightarrow> LatticeType" where
  "t_lattice t = from_option NO (t_lattice_type t)"

definition t_err :: "KeyTuple \<Rightarrow> u32" where
  "t_err t = from_option 0 (t_error t)"

definition t_value :: "KeyTuple \<Rightarrow> string" where
  "t_value t = from_option [] (t_payload t)"

definition empty_tuple :: KeyTuple where
  "empty_tuple = \<lparr>t_key = [], t_lattice_type = None, t_error = None, t_payload = None,
     t_address_cache_size = None, t_invalidate = None, t_addresses = []\<rparr>"

definition empty_request :: KeyRequest where
  "empty_request = \<lparr>q_type = GET, q_tuples = [], q_response_address = None, q_request_id = None\<rparr>"

definition empty_response :: KeyResponse where
  "empty_response = \<lparr>r_type = GET, r_tuples = [], r_response_id = None, r_error = None\<rparr>"

text \<open>What a process sends: to which address, and which message.\<close>

datatype message =
    Msg_request KeyRequest
  | Msg_response KeyResponse
  | Msg_address_request KeyAddressRequest
  | Msg_address_response KeyAddressResponse
  | Msg_replication ReplicationFactorUpdate
  | Msg_membership TierMembership
  | Msg_string string

section \<open>Wire format of stored payloads\<close>

record wire =
  ser_lww :: "LWWValue \<Rightarrow> string"
  parse_lww :: "string \<Rightarrow> LWWValue \<times> bool"
  ser_set :: "string list \<Rightarrow> string"
  parse_set :: "string \<Rightarrow> string list \<times> bool"
  ser_causal :: "CausalValue \<Rightarrow> string"
  parse_causal :: "string \<Rightarrow> CausalValue \<times> bool"
  ser_cross :: "CrossCausalValue \<Rightarrow> string"
  parse_cross :: "string \<Rightarrow> CrossCausalValue \<times> bool"
  ser_rep :: "ReplicationFactor \<Rightarrow> string"
  parse_rep :: "string \<Rightarrow> ReplicationFactor \<times> bool"
  ser_stats :: "ServerThreadStatistics \<Rightarrow> string"
  parse_stats :: "string \<Rightarrow> ServerThreadStatistics \<times> bool"
  ser_access :: "KeyAccessData \<Rightarrow> string"
  parse_access :: "string \<Rightarrow> KeyAccessData \<times> bool"
  ser_sizes :: "KeySizeData \<Rightarrow> string"
  parse_sizes :: "string \<Rightarrow> KeySizeData \<times> bool"
  ser_keyset :: "Key list \<Rightarrow> string"
  parse_keyset :: "string \<Rightarrow> Key list \<times> bool"

definition lww_initialized :: "LWWValue \<Rightarrow> bool" where
  "lww_initialized v \<longleftrightarrow> lv_timestamp v \<noteq> None \<and> lv_value v \<noteq> None"

definition wire_ok :: "'a wire_scheme \<Rightarrow> bool" where
  "wire_ok w \<longleftrightarrow>
     (\<forall>m. lww_initialized m \<longrightarrow> parse_lww w (ser_lww w m) = (m, True)) \<and>
     (\<forall>m. parse_set w (ser_set w m) = (m, True)) \<and>
     (\<forall>m. parse_causal w (ser_causal w m) = (m, True)) \<and>
     (\<forall>m. parse_cross w (ser_cross w m) = (m, True)) \<and>
     (\<forall>m. parse_rep w (ser_rep w m) = (m, True)) \<and>
     (\<forall>m. parse_stats w (ser_stats w m) = (m, True)) \<and>
     (\<forall>m. parse_access w (ser_access w m) = (m, True)) \<and>
     (\<forall>m. parse_sizes w (ser_sizes w m) = (m, True)) \<and>
     (\<forall>m. parse_keyset w (ser_keyset w m) = (m, True))"

lemma wire_okD:
  assumes "wire_ok w"
  shows "lww_initialized m \<Longrightarrow> parse_lww w (ser_lww w m) = (m, True)"
    and "parse_set w (ser_set w s) = (s, True)"
    and "parse_causal w (ser_causal w cv) = (cv, True)"
    and "parse_cross w (ser_cross w ccv) = (ccv, True)"
    and "parse_rep w (ser_rep w rf) = (rf, True)"
    and "parse_stats w (ser_stats w sts) = (sts, True)"
    and "parse_access w (ser_access w ad) = (ad, True)"
    and "parse_sizes w (ser_sizes w sd) = (sd, True)"
    and "parse_keyset w (ser_keyset w ks) = (ks, True)"
  using assms by (simp_all add: wire_ok_def)

text \<open>Parsing fails when a required field is missing; the empty string has none of \<open>LWWValue\<close>'s.\<close>

definition lww_required :: "'a wire_scheme \<Rightarrow> bool" where
  "lww_required w \<longleftrightarrow> \<not> snd (parse_lww w [])"

section \<open>common.hpp\<close>

datatype UserMetadataType = cache_ip

definition kMetadataIdentifier :: string where
  "kMetadataIdentifier = ''ANNA_METADATA''"

definition kMetadataDelimiter :: string where
  "kMetadataDelimiter = ''|''"

definition kMetadataDelimiterChar :: char where
  "kMetadataDelimiterChar = CHR ''|''"

definition kMetadataTypeCacheIP :: string where
  "kMetadataTypeCacheIP = ''cache_ip''"

text \<open>
  \<open>generate_timestamp\<close> with the clock reading \<open>time\<close> as an argument. The loop multiplies a
  32-bit \<open>pow\<close>, which wraps, so it may run forever: \<open>None\<close>.
\<close>

partial_function (option) pow_loop :: "u32 \<Rightarrow> u32 \<Rightarrow> u32 option" where
  "pow_loop tid pow = (if pow \<le> tid then pow_loop tid (pow * 10) else Some pow)"

definition generate_timestamp :: "u64 \<Rightarrow> u32 \<Rightarrow> fault + u64" where
  "generate_timestamp time tid =
     (case pow_loop tid 10 of
        None \<Rightarrow> Inl Diverges
      | Some pow \<Rightarrow> Inr (time * ucast pow + ucast tid))"

definition get_user_metadata_key :: "string \<Rightarrow> UserMetadataType \<Rightarrow> Key" where
  "get_user_metadata_key data_key type =
     (if type = cache_ip
      then kMetadataIdentifier @ kMetadataDelimiter @ kMetadataTypeCacheIP @
           kMetadataDelimiter @ data_key
      else [])"

definition get_key_from_user_metadata :: "Key \<Rightarrow> fault + Key" where
  "get_key_from_user_metadata metadata_key =
     (let n_id = str_find metadata_key kMetadataDelimiterChar 0;
          n_type = str_find metadata_key kMetadataDelimiterChar (n_id + 1)
      in bindr (substr metadata_key (n_id + 1) (n_type - (n_id + 1))) (\<lambda>metadata_type.
         if metadata_type = kMetadataTypeCacheIP
         then substr metadata_key (n_type + 1) npos
         else Inr []))"

definition prepare_get_tuple :: "KeyRequest \<Rightarrow> Key \<Rightarrow> LatticeType \<Rightarrow> KeyRequest" where
  "prepare_get_tuple req key lattice_type =
     req\<lparr>q_tuples := q_tuples req @
       [empty_tuple\<lparr>t_key := key, t_lattice_type := Some lattice_type\<rparr>]\<rparr>"

definition prepare_put_tuple :: "KeyRequest \<Rightarrow> Key \<Rightarrow> LatticeType \<Rightarrow> string \<Rightarrow> KeyRequest" where
  "prepare_put_tuple req key lattice_type payload =
     req\<lparr>q_tuples := q_tuples req @
       [empty_tuple\<lparr>t_key := key, t_lattice_type := Some lattice_type, t_payload := Some payload\<rparr>]\<rparr>"

definition serialize_lww :: "'a wire_scheme \<Rightarrow> TimestampValuePair \<Rightarrow> string" where
  "serialize_lww w l = ser_lww w \<lparr>lv_timestamp = Some (timestamp l), lv_value = Some (tvp_value l)\<rparr>"

definition serialize_ts :: "'a wire_scheme \<Rightarrow> u64 \<Rightarrow> string \<Rightarrow> string" where
  "serialize_ts w ts v = ser_lww w \<lparr>lv_timestamp = Some ts, lv_value = Some v\<rparr>"

definition serialize_set :: "'a wire_scheme \<Rightarrow> string fset \<Rightarrow> string" where
  "serialize_set w l = ser_set w (fold (\<lambda>val vs. vs @ [val]) (fs_elems l) [])"

definition serialize_ordered_set :: "'a wire_scheme \<Rightarrow> string fset \<Rightarrow> string" where
  "serialize_ordered_set w l = ser_set w (fold (\<lambda>val vs. vs @ [val]) (fs_elems l) [])"

definition copy_clock :: "VectorClock \<Rightarrow> VectorClock" where
  "copy_clock vc = fold (\<lambda>(k, v). fmupd k v) (fm_entries vc) fmempty"

definition serialize_causal :: "'a wire_scheme \<Rightarrow> VectorClockValuePair \<Rightarrow> string" where
  "serialize_causal w l = ser_causal w
     \<lparr>cv_vector_clock = copy_clock (vector_clock l),
      cv_values = fold (\<lambda>val vs. vs @ [val]) (fs_elems (vcp_value l)) []\<rparr>"

definition serialize_cross_causal :: "'a wire_scheme \<Rightarrow> CrossCausalPayload \<Rightarrow> string" where
  "serialize_cross_causal w l = ser_cross w
     \<lparr>ccv_vector_clock = copy_clock (cc_vector_clock l),
      ccv_deps = fold (\<lambda>(k, vc) ds. ds @ [\<lparr>d_key = k, d_vector_clock = copy_clock vc\<rparr>])
        (fm_entries (cc_dependency l)) [],
      ccv_values = fold (\<lambda>val vs. vs @ [val]) (fs_elems (cc_value l)) []\<rparr>"

definition deserialize_lww :: "'a wire_scheme \<Rightarrow> string \<Rightarrow> TimestampValuePair" where
  "deserialize_lww w serialized =
     (let lww = fst (parse_lww w serialized)
      in \<lparr>timestamp = from_option 0 (lv_timestamp lww), tvp_value = from_option [] (lv_value lww)\<rparr>)"

definition deserialize_set :: "'a wire_scheme \<Rightarrow> string \<Rightarrow> string fset" where
  "deserialize_set w serialized = fold finsert (fst (parse_set w serialized)) {||}"

definition deserialize_ordered_set :: "'a wire_scheme \<Rightarrow> string \<Rightarrow> string fset" where
  "deserialize_ordered_set w serialized = fold finsert (fst (parse_set w serialized)) {||}"

definition deserialize_causal :: "'a wire_scheme \<Rightarrow> string \<Rightarrow> CausalValue" where
  "deserialize_causal w serialized = fst (parse_causal w serialized)"

definition deserialize_cross_causal :: "'a wire_scheme \<Rightarrow> string \<Rightarrow> CrossCausalValue" where
  "deserialize_cross_causal w serialized = fst (parse_cross w serialized)"

definition to_vector_clock_value_pair :: "CausalValue \<Rightarrow> VectorClockValuePair" where
  "to_vector_clock_value_pair cv =
     (let p = fold (\<lambda>(k, v) p. p\<lparr>vector_clock := vc_insert k v (vector_clock p)\<rparr>)
                (fm_entries (cv_vector_clock cv)) vcp_default
      in fold (\<lambda>val p. p\<lparr>vcp_value := set_insert val (vcp_value p)\<rparr>) (cv_values cv) p)"

definition to_cross_causal_payload :: "CrossCausalValue \<Rightarrow> CrossCausalPayload" where
  "to_cross_causal_payload ccv =
     (let p = fold (\<lambda>(k, v) p. p\<lparr>cc_vector_clock := vc_insert k v (cc_vector_clock p)\<rparr>)
                (fm_entries (ccv_vector_clock ccv)) cc_default;
          p = fold (\<lambda>dep p. p\<lparr>cc_dependency :=
                dep_insert (d_key dep)
                  (fold (\<lambda>(k, v). vc_insert k v) (fm_entries (d_vector_clock dep)) fmempty)
                  (cc_dependency p)\<rparr>) (ccv_deps ccv) p
      in fold (\<lambda>val p. p\<lparr>cc_value := set_insert val (cc_value p)\<rparr>) (ccv_values ccv) p)"

section \<open>requests.hpp\<close>

text \<open>
  \<open>receive\<close>: the socket delivers a sequence of events, a response or (\<open>None\<close>) a receive timeout.
  The result is the return value, the remaining request ids, the responses and the events not
  consumed; \<open>None\<close> means the call still waits when the given events are used up.
\<close>

fun receive ::
  "('r \<Rightarrow> string) \<Rightarrow> 'r option list \<Rightarrow> string fset \<Rightarrow> 'r list \<Rightarrow> u32 \<Rightarrow>
   (bool \<times> string fset \<times> 'r list \<times> 'r option list) option" where
  "receive response_id [] request_ids responses timeout_limit = None"
| "receive response_id (Some response # evs) request_ids responses timeout_limit =
     (let resp_id = response_id response;
          hit = resp_id |\<in>| request_ids;
          request_ids' = (if hit then request_ids |-| {|resp_id|} else request_ids);
          responses' = (if hit then responses @ [response] else responses)
      in if request_ids' = {||} then Some (True, request_ids', responses', evs)
         else receive response_id evs request_ids' responses' timeout_limit)"
| "receive response_id (None # evs) request_ids responses timeout_limit =
     (let limit = timeout_limit - 1
      in if limit = 0 then Some (False, request_ids, [], evs)
         else receive response_id evs request_ids responses limit)"

text \<open>\<open>make_request\<close>: the message sent, the response (\<open>RES()\<close> on failure) and \<open>succeed\<close>.\<close>

definition make_request ::
  "('r \<Rightarrow> string) \<Rightarrow> 'r \<Rightarrow> 'q \<Rightarrow> string \<Rightarrow> 'r option list \<Rightarrow>
   ('q \<times> 'r \<times> bool \<times> 'r option list) option" where
  "make_request response_id empty_res request request_id evs =
     (case receive response_id evs {|request_id|} [] (of_nat (fcard {|request_id|})) of
        None \<Rightarrow> None
      | Some (succeed, _, responses, rest) \<Rightarrow>
          Some (request, if succeed then responses ! 0 else empty_res, succeed, rest))"

end
