(* ===== verification/Sample_Wire.thy ===== *)
theory Sample_Wire
  imports Messages
begin

text \<open>
  A concrete wire format that meets \<open>wire_ok\<close>, so that the theorems that assume it can be
  applied to concrete inputs. Strings are written with a unary length in front, and every
  message as the list of its fields.
\<close>

definition enc_str :: "string \<Rightarrow> string" where
  "enc_str s = replicate (length s) CHR ''1'' @ CHR ''0'' # s"

definition enc_list :: "string list \<Rightarrow> string" where
  "enc_list xs = concat (map enc_str xs)"

function dec_list :: "string \<Rightarrow> string list" where
  "dec_list s =
     (if s = [] then []
      else let n = length (takeWhile (\<lambda>c. c = CHR ''1'') s); rest = drop (Suc n) s
           in take n rest # dec_list (drop n rest))"
  by auto
termination
  by (relation "measure length") (auto simp: Let_def)

declare dec_list.simps [simp del]

lemma dec_enc_str: "dec_list (enc_str x @ s) = x # dec_list s"
proof -
  have "takeWhile (\<lambda>c. c = CHR ''1'') (replicate n CHR ''1'' @ CHR ''0'' # t) = replicate n CHR ''1''"
    for n t by (induction n) auto
  then show ?thesis by (subst dec_list.simps) (simp add: enc_str_def)
qed

lemma dec_enc_list [simp]: "dec_list (enc_list xs) = xs"
  by (induction xs) (simp_all add: enc_list_def dec_enc_str dec_list.simps [of "[]"])

definition enc_word :: "'a::len word \<Rightarrow> string" where
  "enc_word w = nat_to_string (unat w)"

definition dec_word :: "string \<Rightarrow> 'a::len word" where
  "dec_word s = of_nat (digits_val 0 s)"

lemma dec_enc_word [simp]: "dec_word (enc_word w) = w"
  by (simp add: dec_word_def enc_word_def)

definition enc_int :: "int \<Rightarrow> string" where
  "enc_int i = (if i < 0 then CHR ''-'' else CHR ''+'') # nat_to_string (nat \<bar>i\<bar>)"

definition dec_int :: "string \<Rightarrow> int" where
  "dec_int s = (if hd s = CHR ''-'' then - int (digits_val 0 (tl s)) else int (digits_val 0 (tl s)))"

lemma dec_enc_int [simp]: "dec_int (enc_int i) = i"
  by (simp add: dec_int_def enc_int_def)

definition enc_opt :: "string option \<Rightarrow> string" where
  "enc_opt x = enc_list (case x of None \<Rightarrow> [] | Some s \<Rightarrow> [s])"

definition dec_opt :: "string \<Rightarrow> string option" where
  "dec_opt s = (case dec_list s of [] \<Rightarrow> None | x # _ \<Rightarrow> Some x)"

lemma dec_enc_opt [simp]: "dec_opt (enc_opt x) = x"
  by (cases x) (simp_all add: dec_opt_def enc_opt_def)

definition enc_pairs :: "(string \<times> 'a::len word) list \<Rightarrow> string" where
  "enc_pairs ps = enc_list (map (\<lambda>(k, v). enc_list [k, enc_word v]) ps)"

definition dec_pairs :: "string \<Rightarrow> (string \<times> 'a::len word) list" where
  "dec_pairs s = map (\<lambda>e. let p = dec_list e in (p ! 0, dec_word (p ! 1))) (dec_list s)"

lemma dec_enc_pairs [simp]: "dec_pairs (enc_pairs ps) = ps"
  by (induction ps) (auto simp: dec_pairs_def enc_pairs_def)

definition enc_clock :: "VectorClock \<Rightarrow> string" where
  "enc_clock vc = enc_pairs (fm_entries vc)"

definition dec_clock :: "string \<Rightarrow> VectorClock" where
  "dec_clock s = fmap_of_list (dec_pairs s)"

lemma dec_enc_clock [simp]: "dec_clock (enc_clock vc) = vc"
  by (rule fmap_ext) (simp add: dec_clock_def enc_clock_def fmap_of_list.rep_eq)

definition enc_dep :: "Dependency \<Rightarrow> string" where
  "enc_dep d = enc_list [d_key d, enc_clock (d_vector_clock d)]"

definition dec_dep :: "string \<Rightarrow> Dependency" where
  "dec_dep s = (let p = dec_list s in \<lparr>d_key = p ! 0, d_vector_clock = dec_clock (p ! 1)\<rparr>)"

lemma dec_enc_dep [simp]: "dec_dep (enc_dep d) = d"
  by (simp add: dec_dep_def enc_dep_def)

definition enc_reps :: "Replication list \<Rightarrow> string" where
  "enc_reps rs = enc_list (map (\<lambda>r. enc_list [enc_word (rep_tier_id r), enc_word (rep_factor r)]) rs)"

definition dec_reps :: "string \<Rightarrow> Replication list" where
  "dec_reps s = map (\<lambda>e. let p = dec_list e in
     \<lparr>rep_tier_id = dec_word (p ! 0), rep_factor = dec_word (p ! 1)\<rparr>) (dec_list s)"

lemma dec_enc_reps [simp]: "dec_reps (enc_reps rs) = rs"
  by (induction rs) (auto simp: dec_reps_def enc_reps_def)

definition sample_wire :: wire where
  "sample_wire = \<lparr>
     ser_lww = (\<lambda>m. enc_list [enc_opt (map_option enc_word (lv_timestamp m)), enc_opt (lv_value m)]),
     parse_lww = (\<lambda>s. let p = dec_list s in
       if length p = 2
       then let m = \<lparr>lv_timestamp = map_option dec_word (dec_opt (p ! 0)), lv_value = dec_opt (p ! 1)\<rparr>
            in (m, lww_initialized m)
       else (\<lparr>lv_timestamp = None, lv_value = None\<rparr>, False)),
     ser_set = enc_list,
     parse_set = (\<lambda>s. (dec_list s, True)),
     ser_causal = (\<lambda>m. enc_list [enc_clock (cv_vector_clock m), enc_list (cv_values m)]),
     parse_causal = (\<lambda>s. let p = dec_list s in
       (\<lparr>cv_vector_clock = dec_clock (p ! 0), cv_values = dec_list (p ! 1)\<rparr>, True)),
     ser_cross = (\<lambda>m. enc_list [enc_clock (ccv_vector_clock m),
       enc_list (map enc_dep (ccv_deps m)), enc_list (ccv_values m)]),
     parse_cross = (\<lambda>s. let p = dec_list s in
       (\<lparr>ccv_vector_clock = dec_clock (p ! 0), ccv_deps = map dec_dep (dec_list (p ! 1)),
         ccv_values = dec_list (p ! 2)\<rparr>, True)),
     ser_rep = (\<lambda>m. enc_list [rf_key m, enc_reps (rf_global m), enc_reps (rf_local m)]),
     parse_rep = (\<lambda>s. let p = dec_list s in
       (\<lparr>rf_key = p ! 0, rf_global = dec_reps (p ! 1), rf_local = dec_reps (p ! 2)\<rparr>, True)),
     ser_stats = (\<lambda>m. enc_list [enc_word (sts_storage_consumption m),
       enc_int (fst (quotient_of (sts_occupancy m))), enc_int (snd (quotient_of (sts_occupancy m))),
       enc_word (sts_epoch m), enc_word (sts_access_count m)]),
     parse_stats = (\<lambda>s. let p = dec_list s in
       (\<lparr>sts_storage_consumption = dec_word (p ! 0),
         sts_occupancy = of_int (dec_int (p ! 1)) / of_int (dec_int (p ! 2)),
         sts_epoch = dec_word (p ! 3), sts_access_count = dec_word (p ! 4)\<rparr>, True)),
     ser_access = enc_pairs,
     parse_access = (\<lambda>s. (dec_pairs s, True)),
     ser_sizes = enc_pairs,
     parse_sizes = (\<lambda>s. (dec_pairs s, True)),
     ser_keyset = enc_list,
     parse_keyset = (\<lambda>s. (dec_list s, True))\<rparr>"

lemma quotient_of_divide: "of_int (fst (quotient_of r)) / of_int (snd (quotient_of r)) = r"
  by (metis Fract_of_int_quotient quotient_of_div surjective_pairing)

lemma sample_wire_required [simp]: "lww_required sample_wire"
  by (simp add: lww_required_def sample_wire_def dec_list.simps [of "[]"])

lemma sample_wire_ok [simp]: "wire_ok sample_wire"
  by (simp add: wire_ok_def sample_wire_def quotient_of_divide option.map_comp comp_def option.map_ident
      numeral_eq_Suc map_idI Let_def lww_initialized_def)

end
