(* ===== verification/Message_Laws.thy ===== *)
theory Message_Laws
  imports Messages Sample_Wire
begin

text \<open>
  What the helpers of include/common.hpp and include/requests.hpp guarantee: encoding a lattice
  and decoding it gives it back, metadata keys can be taken apart, timestamps are unique per
  thread and clock reading, and \<open>receive\<close> returns exactly the responses that were asked for.
\<close>

section \<open>Encoding and decoding lattices\<close>

lemma fold_snoc: "fold (\<lambda>x xs. xs @ [f x]) ys zs = zs @ map f ys"
  by (induction ys arbitrary: zs) auto

lemmas fold_snoc_id = fold_snoc [where f = "\<lambda>x. x", simplified]

lemma fmlookup_fold_upd:
  assumes "distinct (map fst es)"
  shows "fmlookup (fold (\<lambda>(k, v). fmupd k v) es m) k =
     (case map_of es k of None \<Rightarrow> fmlookup m k | Some v \<Rightarrow> Some v)"
  using assms
proof (induction es arbitrary: m)
  case (Cons e es)
  obtain k0 v0 where e: "e = (k0, v0)" by (cases e)
  have "k = k0 \<Longrightarrow> map_of es k = None"
    using Cons.prems by (auto simp: e map_of_eq_None_iff)
  then show ?case using Cons by (auto simp: e split: option.splits)
qed simp

lemma copy_clock_id [simp]: "copy_clock vc = vc"
  by (rule fmap_ext)
    (simp add: copy_clock_def fmlookup_fold_upd distinct_fm_entries split: option.splits)

lemma fold_vc_insert [simp]: "fold (\<lambda>(k, v). vc_insert k v) (fm_entries vc) fmempty = vc"
proof -
  have "fold (\<lambda>(k, v). vc_insert k v) (fm_entries vc) fmempty = vc_merge fmempty vc"
    by (simp add: vc_merge_def map_do_merge_def vc_insert_def map_insert_def [abs_def])
  then show ?thesis by simp
qed

lemma fold_dep_insert [simp]: "fold (\<lambda>(k, v). dep_insert k v) (fm_entries dep) fmempty = dep"
proof -
  have "fold (\<lambda>(k, v). dep_insert k v) (fm_entries dep) fmempty = dep_merge fmempty dep"
    by (simp add: dep_merge_def map_do_merge_def dep_insert_def map_insert_def [abs_def])
  then show ?thesis by (simp add: dep_lat.bot_merge)
qed

lemma fold_update_field:
  assumes "\<And>x p. upd (g x (get p)) p = f x p"
    and "\<And>v p. get (upd v p) = v" "\<And>v v' p. upd v (upd v' p) = upd v p" "\<And>p. upd (get p) p = p"
  shows "fold f xs p = upd (fold g xs (get p)) p"
proof (induction xs arbitrary: p)
  case Nil
  show ?case by (simp add: assms(4))
next
  case (Cons x xs)
  have "fold f (x # xs) p = upd (fold g xs (get (f x p))) (f x p)" by (simp add: Cons.IH)
  also have "\<dots> = upd (fold g xs (g x (get p))) p"
    by (simp flip: assms(1) add: assms(2,3))
  finally show ?case by simp
qed

lemma to_vector_clock_value_pair_eq:
  "to_vector_clock_value_pair cv =
     \<lparr>vector_clock = cv_vector_clock cv, vcp_value = fset_of_list (cv_values cv)\<rparr>"
proof -
  have clock: "fold (\<lambda>(k, v) p. p\<lparr>vector_clock := vc_insert k v (vector_clock p)\<rparr>) es p =
      p\<lparr>vector_clock := fold (\<lambda>(k, v). vc_insert k v) es (vector_clock p)\<rparr>" for es p
    by (rule fold_update_field) auto
  have vals: "fold (\<lambda>val p. p\<lparr>vcp_value := set_insert val (vcp_value p)\<rparr>) vs p =
      p\<lparr>vcp_value := fold set_insert vs (vcp_value p)\<rparr>" for vs p
    by (rule fold_update_field) auto
  have ins: "fold set_insert vs {||} = fset_of_list vs" for vs :: "string list"
    using fold_finsert [of vs "{||}"] by (simp add: set_insert_def [abs_def])
  show ?thesis
    by (simp add: to_vector_clock_value_pair_def clock vals vcp_default_def ins)
qed

lemma to_cross_causal_payload_eq:
  "to_cross_causal_payload ccv =
     \<lparr>cc_vector_clock = ccv_vector_clock ccv,
      cc_dependency = fold (\<lambda>d. dep_insert (d_key d) (d_vector_clock d)) (ccv_deps ccv) fmempty,
      cc_value = fset_of_list (ccv_values ccv)\<rparr>"
proof -
  have clock: "fold (\<lambda>(k, v) p. p\<lparr>cc_vector_clock := vc_insert k v (cc_vector_clock p)\<rparr>) es p =
      p\<lparr>cc_vector_clock := fold (\<lambda>(k, v). vc_insert k v) es (cc_vector_clock p)\<rparr>" for es p
    by (rule fold_update_field) auto
  have deps: "fold (\<lambda>d p. p\<lparr>cc_dependency := dep_insert (d_key d) (d_vector_clock d) (cc_dependency p)\<rparr>)
      ds p = p\<lparr>cc_dependency := fold (\<lambda>d. dep_insert (d_key d) (d_vector_clock d)) ds (cc_dependency p)\<rparr>"
    for ds p
    by (rule fold_update_field) auto
  have vals: "fold (\<lambda>val p. p\<lparr>cc_value := set_insert val (cc_value p)\<rparr>) vs p =
      p\<lparr>cc_value := fold set_insert vs (cc_value p)\<rparr>" for vs p
    by (rule fold_update_field) auto
  have ins: "fold set_insert vs {||} = fset_of_list vs" for vs :: "string list"
    using fold_finsert [of vs "{||}"] by (simp add: set_insert_def [abs_def])
  show ?thesis
    by (simp add: to_cross_causal_payload_def clock deps vals cc_default_def ins)
qed

lemma fold_dep_records:
  "fold (\<lambda>d. dep_insert (d_key d) (d_vector_clock d))
     (map (\<lambda>(k, vc). \<lparr>d_key = k, d_vector_clock = vc\<rparr>) es) m = fold (\<lambda>(k, v). dep_insert k v) es m"
  by (induction es arbitrary: m) auto

lemma serialize_cross_deps:
  "fold (\<lambda>(k, vc) ds. ds @ [\<lparr>d_key = k, d_vector_clock = vc\<rparr>]) es zs =
     zs @ map (\<lambda>(k, vc). \<lparr>d_key = k, d_vector_clock = vc\<rparr>) es"
  by (induction es arbitrary: zs) auto

lemma cross_causal_reads_back:
  assumes "wire_ok w"
  shows "to_cross_causal_payload (deserialize_cross_causal w (serialize_cross_causal w x)) = x"
  by (simp add: deserialize_cross_causal_def serialize_cross_causal_def wire_okD [OF assms] fold_snoc_id
      to_cross_causal_payload_eq serialize_cross_deps fold_dep_records fold_finsert Let_def)

text \<open>
  C22. Every lattice written with \<open>serialize\<close> is read back unchanged by the matching
  \<open>deserialize\<close>, for any wire format on which protobuf's own round trip holds.
\<close>

theorem serialize_roundtrip:
  assumes "wire_ok w"
  shows "deserialize_lww w (serialize_lww w l) = l \<and>
    deserialize_lww w (serialize_ts w ts v) = \<lparr>timestamp = ts, tvp_value = v\<rparr> \<and>
    deserialize_set w (serialize_set w s) = s \<and>
    deserialize_ordered_set w (serialize_ordered_set w os) = os \<and>
    to_vector_clock_value_pair (deserialize_causal w (serialize_causal w c)) = c \<and>
    to_cross_causal_payload (deserialize_cross_causal w (serialize_cross_causal w x)) = x"
  by (simp add: deserialize_lww_def serialize_lww_def serialize_ts_def deserialize_set_def
      serialize_set_def deserialize_ordered_set_def serialize_ordered_set_def deserialize_causal_def
      serialize_causal_def cross_causal_reads_back [OF assms] wire_okD [OF assms] lww_initialized_def Let_def
      fold_snoc_id fold_finsert to_vector_clock_value_pair_eq)

theorem serialize_roundtrip_witness:
  "deserialize_lww sample_wire (serialize_lww sample_wire \<lparr>timestamp = 71, tvp_value = ''v''\<rparr>) =
     \<lparr>timestamp = 71, tvp_value = ''v''\<rparr>"
  using serialize_roundtrip [OF sample_wire_ok, of "\<lparr>timestamp = 71, tvp_value = ''v''\<rparr>"] by blast


section \<open>Metadata keys\<close>

lemma str_find_append:
  assumes "c \<notin> set s" "pos = of_nat (length p)" "length p < 2 ^ 64"
  shows "str_find (p @ s @ c # rest) c pos = of_nat (length p + length s)"
  using assms by (simp add: str_find_def index_of_append unat_u64_of_nat)

lemma substr_append:
  assumes "length p < 2 ^ 64" "length s < 2 ^ 64"
  shows "substr (p @ s @ rest) (of_nat (length p)) (of_nat (length s)) = Inr s"
  using assms by (simp add: substr_def unat_u64_of_nat)

lemma substr_rest:
  assumes "length p < 2 ^ 64" "length s < 2 ^ 64"
  shows "substr (p @ s) (of_nat (length p)) npos = Inr s"
  using assms by (simp add: substr_def unat_u64_of_nat unat_npos)

text \<open>The shape both metadata-key parsers rely on: identifier, delimiter, type, delimiter, key.\<close>

lemma metadata_key_parts:
  fixes i t k :: string
  defines "s \<equiv> i @ CHR ''|'' # t @ CHR ''|'' # k"
  assumes "CHR ''|'' \<notin> set i" "CHR ''|'' \<notin> set t" "length s < 2 ^ 64"
  shows "str_find s (CHR ''|'') 0 = of_nat (length i)"
    and "str_find s (CHR ''|'') (of_nat (length i) + 1) = of_nat (Suc (length i + length t))"
    and "substr s (of_nat (length i) + 1)
           (of_nat (Suc (length i + length t)) - (of_nat (length i) + 1)) = Inr t"
    and "substr s (of_nat (Suc (length i + length t)) + 1) npos = Inr k"
proof -
  show "str_find s (CHR ''|'') 0 = of_nat (length i)"
    using str_find_append [of "CHR ''|''" i 0 "[]"] assms by simp
  show "str_find s (CHR ''|'') (of_nat (length i) + 1) = of_nat (Suc (length i + length t))"
    using str_find_append [of "CHR ''|''" t "of_nat (length i) + 1" "i @ ''|''" k] assms
    by simp
  show "substr s (of_nat (length i) + 1)
      (of_nat (Suc (length i + length t)) - (of_nat (length i) + 1)) = Inr t"
    using substr_append [of "i @ ''|''" t "CHR ''|'' # k"] assms by (simp add: ac_simps)
  show "substr s (of_nat (Suc (length i + length t)) + 1) npos = Inr k"
    using substr_rest [of "i @ CHR ''|'' # t @ ''|''" k] assms by (simp add: ac_simps)
qed

lemma kMetadataIdentifier_nodelim [simp]: "CHR ''|'' \<notin> set kMetadataIdentifier"
  by (simp add: kMetadataIdentifier_def)

text \<open>
  The cache-IP metadata key of any data key, delimiters in it included, is taken apart to that
  data key again.
\<close>

lemma key_from_user_metadata_key:
  assumes "length data_key < 2 ^ 63"
  shows "get_key_from_user_metadata (get_user_metadata_key data_key cache_ip) = Inr data_key"
proof -
  have key: "get_user_metadata_key data_key cache_ip =
      kMetadataIdentifier @ CHR ''|'' # kMetadataTypeCacheIP @ CHR ''|'' # data_key"
    by (simp add: get_user_metadata_key_def kMetadataDelimiter_def)
  have len: "length (kMetadataIdentifier @ CHR ''|'' # kMetadataTypeCacheIP @ CHR ''|'' # data_key)
      < 2 ^ 64"
    using assms by (simp add: kMetadataIdentifier_def kMetadataTypeCacheIP_def)
  have "CHR ''|'' \<notin> set kMetadataTypeCacheIP" by (simp add: kMetadataTypeCacheIP_def)
  note parts = metadata_key_parts [OF kMetadataIdentifier_nodelim this len]
  show ?thesis
    unfolding get_key_from_user_metadata_def key kMetadataDelimiterChar_def Let_def parts by simp
qed

section \<open>Timestamps\<close>

lemma unat_ten_power: "k \<le> 9 \<Longrightarrow> unat ((10 :: u32) ^ k) = 10 ^ k"
proof -
  assume "k \<le> 9"
  then have "(10 :: nat) ^ k \<le> 10 ^ 9" by (rule power_increasing) simp
  then have "unat (of_nat (10 ^ k) :: u32) = 10 ^ k" by (intro unat_u32_of_nat) simp
  then show ?thesis by simp
qed

lemma nat_to_string_length:
  "n < 10 ^ length (nat_to_string n) \<and> (m < length (nat_to_string n) \<longrightarrow> 0 < m \<longrightarrow> 10 ^ m \<le> n)"
proof (induction n arbitrary: m rule: nat_to_string.induct)
  case (1 n)
  show ?case
  proof (cases "n < 10")
    case True
    then show ?thesis by (simp add: nat_to_string.simps [of n])
  next
    case False
    have len: "length (nat_to_string n) = Suc (length (nat_to_string (n div 10)))"
      using False by (simp add: nat_to_string.simps [of n])
    have "n div 10 < 10 ^ length (nat_to_string (n div 10))" using 1 [OF False] by blast
    then have "n < 10 ^ length (nat_to_string n)" by (simp add: len)
    moreover have "10 ^ m \<le> n" if lt: "m < length (nat_to_string n)" and pos: "0 < m"
    proof (cases "m = 1")
      case True
      then show ?thesis using False by simp
    next
      case m: False
      then obtain m' where m': "m = Suc m'" "0 < m'" using pos m by (cases m) auto
      then have "10 ^ m' \<le> n div 10" using 1 [OF False, of m'] lt by (simp add: len)
      then show ?thesis by (simp add: m' less_eq_div_iff_mult_less_eq mult.commute)
    qed
    ultimately show ?thesis by blast
  qed
qed

lemma pow_loop_reaches:
  assumes "k \<le> j" "j \<le> 9" "unat tid < 10 ^ j" "\<And>m. k \<le> m \<Longrightarrow> m < j \<Longrightarrow> 10 ^ m \<le> unat tid"
  shows "pow_loop tid (10 ^ k) = Some (10 ^ j)"
  using assms(1)
proof (induction rule: inc_induct)
  case base
  then show ?case
    using assms by (subst pow_loop.simps) (simp add: word_le_nat_alt unat_ten_power)
next
  case (step m)
  then have "(10 :: u32) ^ m \<le> tid"
    using assms by (simp add: word_le_nat_alt unat_ten_power)
  then show ?case using step.IH by (subst pow_loop.simps) (simp add: mult.commute)
qed

lemma pow_loop_digits:
  assumes "unat tid < 10 ^ 9"
  shows "pow_loop tid 10 = Some (10 ^ length (to_string tid))" "length (to_string tid) \<le> 9"
proof -
  let ?j = "length (nat_to_string (unat tid))"
  show j9: "length (to_string tid) \<le> 9"
  proof (rule ccontr)
    assume "\<not> length (to_string tid) \<le> 9"
    then have "10 ^ 9 \<le> unat tid"
      using nat_to_string_length [of "unat tid" 9] by (simp add: to_string_def)
    then show False using assms by simp
  qed
  have "1 \<le> ?j" by (cases "nat_to_string (unat tid)") auto
  then have "pow_loop tid (10 ^ 1) = Some (10 ^ ?j)"
    using j9 nat_to_string_length [of "unat tid"]
    by (intro pow_loop_reaches) (auto simp: to_string_def)
  then show "pow_loop tid 10 = Some (10 ^ length (to_string tid))"
    by (simp add: to_string_def)
qed

lemma generate_timestamp_value:
  assumes "unat tid < 10 ^ 9" "(unat time + 1) * 10 ^ length (to_string tid) \<le> 2 ^ 64"
  shows "\<exists>ts. generate_timestamp time tid = Inr ts \<and>
    unat ts = unat time * 10 ^ length (to_string tid) + unat tid"
proof -
  let ?n = "length (to_string tid)"
  note pow = pow_loop_digits [OF assms(1)]
  have tid: "unat tid < 10 ^ ?n"
    using nat_to_string_length [of "unat tid"] by (simp add: to_string_def)
  have "(10 :: nat) ^ ?n \<le> 10 ^ 9" using pow(2) by (rule power_increasing) simp
  then have u: "unat (ucast ((10 :: u32) ^ ?n) :: u64) = 10 ^ ?n"
    by (simp add: unsigned_ucast_eq unat_ten_power [OF pow(2)] take_bit_nat_eq_self)
  have v: "unat (ucast tid :: u64) = unat tid"
    using unat_u32_lt [of tid] by (simp add: unsigned_ucast_eq take_bit_nat_eq_self)
  have lt: "unat time * 10 ^ ?n + unat tid < 2 ^ 64" using assms(2) tid by (simp add: algebra_simps)
  have m: "unat (time * ucast ((10 :: u32) ^ ?n) :: u64) = unat time * 10 ^ ?n"
    using lt by (simp add: unat_word_ariths u)
  have "unat (time * ucast ((10 :: u32) ^ ?n) + ucast tid :: u64) = unat time * 10 ^ ?n + unat tid"
    using lt by (simp add: unat_word_ariths m v u)
  then show ?thesis by (simp add: generate_timestamp_def pow(1))
qed


text \<open>
  C24. Timestamps do not collide: two threads whose ids have the same number of digits get the
  same timestamp only at the same clock reading and with the same id. The bound says that the
  product of the clock and the power of ten stays within 64 bits.
\<close>

theorem timestamps_unique:
  assumes "unat id1 < 10 ^ 9" "unat id2 < 10 ^ 9" "length (to_string id1) = length (to_string id2)"
    and "(unat t1 + 1) * 10 ^ length (to_string id1) \<le> 2 ^ 64"
    and "(unat t2 + 1) * 10 ^ length (to_string id2) \<le> 2 ^ 64"
  shows "generate_timestamp t1 id1 = generate_timestamp t2 id2 \<longleftrightarrow> t1 = t2 \<and> id1 = id2"
proof
  assume eq: "generate_timestamp t1 id1 = generate_timestamp t2 id2"
  let ?p = "(10 :: nat) ^ length (to_string id1)"
  have lt: "unat id1 < ?p" "unat id2 < ?p"
    using nat_to_string_length [of "unat id1"] nat_to_string_length [of "unat id2"] assms(3)
    by (simp_all add: to_string_def)
  have "unat t1 * ?p + unat id1 = unat t2 * ?p + unat id2"
    using generate_timestamp_value [OF assms(1,4)] generate_timestamp_value [OF assms(2,5)] eq assms(3)
    by auto
  then have "(unat t1 * ?p + unat id1) div ?p = (unat t2 * ?p + unat id2) div ?p"
    "(unat t1 * ?p + unat id1) mod ?p = (unat t2 * ?p + unat id2) mod ?p" by simp_all
  then show "t1 = t2 \<and> id1 = id2" using lt by (simp add: word_unat_eq_iff)
qed simp

theorem timestamps_unique_witness:
  "generate_timestamp 1541030400000 3 \<noteq> generate_timestamp 1541030400000 7"
  using timestamps_unique [of 3 7 1541030400000 1541030400000]
  by (simp add: to_string_def nat_to_string.simps [of 3] nat_to_string.simps [of 7])

text \<open>
  The number of digits of the thread id outweighs the clock: a timestamp of a thread with a
  two-digit id is larger than that of a thread with a one-digit id taken up to ten times as late.
\<close>

lemma timestamp_digits_outweigh_time:
  assumes "unat id1 < 10" "10 \<le> unat id2" "unat id2 < 100"
    and "unat t1 < 10 * unat t2" "(unat t2 + 1) * 100 \<le> 2 ^ 64"
  shows "\<exists>ts1 ts2. generate_timestamp t1 id1 = Inr ts1 \<and> generate_timestamp t2 id2 = Inr ts2 \<and>
    ts1 < ts2"
proof -
  have len: "length (to_string id1) = 1" "length (to_string id2) = 2"
    using assms by (simp_all add: to_string_def nat_to_string.simps [of "unat id1"]
        nat_to_string.simps [of "unat id2"] nat_to_string.simps [of "unat id2 div 10"])
  have 1: "\<exists>ts. generate_timestamp t1 id1 = Inr ts \<and> unat ts = unat t1 * 10 + unat id1"
    using generate_timestamp_value [of id1 t1] assms by (simp add: len)
  have 2: "\<exists>ts. generate_timestamp t2 id2 = Inr ts \<and> unat ts = unat t2 * 100 + unat id2"
    using generate_timestamp_value [of id2 t2] assms by (simp add: len)
  show ?thesis using 1 2 assms by (auto simp: word_less_nat_alt)
qed

section \<open>Collecting responses\<close>

lemma receive_collects:
  assumes "receive rid evs ids resps limit = Some (True, ids', resps', rest)"
  shows "ids' = {||} \<and> (\<exists>new. resps' = resps @ new \<and> distinct (map rid new) \<and>
    set (map rid new) = fset ids \<and> set new \<subseteq> {r. Some r \<in> set evs})"
  using assms
proof (induction rid evs ids resps limit rule: receive.induct)
  case (2 rid r evs ids resps limit)
  show ?case
  proof (cases "rid r |\<in>| ids")
    case hit: True
    let ?ids = "ids |-| {|rid r|}"
    show ?thesis
    proof (cases "?ids = {||}")
      case none: True
      have "fset ids - {rid r} = {}" using arg_cong [OF none, of fset] by simp
      then have one: "fset ids = {rid r}" using hit by blast
      have "ids' = {||}" "resps' = resps @ [r]" using 2(2) hit none by (simp_all add: Let_def)
      then show ?thesis using one by (intro conjI exI [of _ "[r]"]) simp_all
    next
      case False
      then have rec: "receive rid evs ?ids (resps @ [r]) limit = Some (True, ids', resps', rest)"
        using 2(2) hit by (simp add: Let_def)
      from 2(1) [OF refl refl refl refl] rec hit False
      obtain new where "ids' = {||}" "resps' = (resps @ [r]) @ new" "distinct (map rid new)"
        "set (map rid new) = fset ?ids" "set new \<subseteq> {r. Some r \<in> set evs}" by auto
      then show ?thesis using hit by (intro conjI exI [of _ "r # new"]) auto
    qed
  next
    case miss: False
    show ?thesis
    proof (cases "ids = {||}")
      case True
      then show ?thesis using 2(2) miss by (simp add: Let_def)
    next
      case False
      with 2(1) [OF refl refl refl refl] 2(2) miss
      obtain new where "ids' = {||}" "resps' = resps @ new" "distinct (map rid new)"
        "set (map rid new) = fset ids" "set new \<subseteq> {r. Some r \<in> set evs}"
        by (auto simp: Let_def)
      then show ?thesis by (intro conjI exI [of _ new]) auto
    qed
  qed
next
  case (3 rid evs ids resps limit)
  then show ?case by (auto simp: Let_def split: if_splits)
qed simp

end
