(* ===== verification/Threads.thy ===== *)
theory Threads
  imports Cxx_Strings
begin

text \<open>
  The thread descriptors of include/threads.hpp and kvs/include/kvs_threads.hpp: who a thread
  is, and the addresses its sockets bind and connect to. Every class is a record of its members
  (without the trailing underscores), every constructor a function, every address method a
  definition with the class's prefix. Getters that return a member are the record's selectors.
\<close>

section \<open>threads.hpp\<close>

definition kKeyAddressPort :: u32 where
  "kKeyAddressPort = 6450"

definition kUserResponsePort :: u32 where
  "kUserResponsePort = 6800"

definition kUserKeyAddressPort :: u32 where
  "kUserKeyAddressPort = 6850"

definition kBenchmarkCommandPort :: u32 where
  "kBenchmarkCommandPort = 6900"

definition kKopsRestartCountPort :: u32 where
  "kKopsRestartCountPort = 7000"

definition kCacheUpdatePort :: u32 where
  "kCacheUpdatePort = 7150"

definition kCausalCacheUpdatePort :: u32 where
  "kCausalCacheUpdatePort = 7150"

definition kCausalCacheVersionGCPort :: u32 where
  "kCausalCacheVersionGCPort = 7200"

definition kCausalCacheVersionedKeyRequestPort :: u32 where
  "kCausalCacheVersionedKeyRequestPort = 7250"

definition kCausalCacheVersionedKeyResponsePort :: u32 where
  "kCausalCacheVersionedKeyResponsePort = 7300"

definition kBindBase :: Address where
  "kBindBase = ''tcp://*:''"

record CacheThread =
  ct_ip :: Address
  ct_ip_base :: Address
  ct_tid :: u32

definition make_CacheThread :: "Address \<Rightarrow> u32 \<Rightarrow> CacheThread" where
  "make_CacheThread ip tid =
     \<lparr>ct_ip = ip, ct_ip_base = ''tcp://'' @ ip @ '':'', ct_tid = tid\<rparr>"

definition ct_cache_get_bind_address :: "CacheThread \<Rightarrow> Address" where
  "ct_cache_get_bind_address t = ''ipc:///requests/get''"

definition ct_cache_get_connect_address :: "CacheThread \<Rightarrow> Address" where
  "ct_cache_get_connect_address t = ''ipc:///requests/get''"

definition ct_cache_put_bind_address :: "CacheThread \<Rightarrow> Address" where
  "ct_cache_put_bind_address t = ''ipc:///requests/put''"

definition ct_cache_put_connect_address :: "CacheThread \<Rightarrow> Address" where
  "ct_cache_put_connect_address t = ''ipc:///requests/put''"

definition ct_cache_update_bind_address :: "CacheThread \<Rightarrow> Address" where
  "ct_cache_update_bind_address t = kBindBase @ to_string (ct_tid t + kCacheUpdatePort)"

definition ct_cache_update_connect_address :: "CacheThread \<Rightarrow> Address" where
  "ct_cache_update_connect_address t = ct_ip_base t @ to_string (ct_tid t + kCacheUpdatePort)"

record CausalCacheThread =
  cct_ip :: Address
  cct_ip_base :: Address
  cct_tid :: u32

definition make_CausalCacheThread :: "Address \<Rightarrow> u32 \<Rightarrow> CausalCacheThread" where
  "make_CausalCacheThread ip tid =
     \<lparr>cct_ip = ip, cct_ip_base = ''tcp://'' @ ip @ '':'', cct_tid = tid\<rparr>"

definition cct_causal_cache_get_bind_address :: "CausalCacheThread \<Rightarrow> Address" where
  "cct_causal_cache_get_bind_address t = ''ipc:///requests/get''"

definition cct_causal_cache_get_connect_address :: "CausalCacheThread \<Rightarrow> Address" where
  "cct_causal_cache_get_connect_address t = ''ipc:///requests/get''"

definition cct_causal_cache_put_bind_address :: "CausalCacheThread \<Rightarrow> Address" where
  "cct_causal_cache_put_bind_address t = ''ipc:///requests/put''"

definition cct_causal_cache_put_connect_address :: "CausalCacheThread \<Rightarrow> Address" where
  "cct_causal_cache_put_connect_address t = ''ipc:///requests/put''"

definition cct_causal_cache_update_bind_address :: "CausalCacheThread \<Rightarrow> Address" where
  "cct_causal_cache_update_bind_address t = kBindBase @ to_string (cct_tid t + kCausalCacheUpdatePort)"

definition cct_causal_cache_update_connect_address :: "CausalCacheThread \<Rightarrow> Address" where
  "cct_causal_cache_update_connect_address t = cct_ip_base t @ to_string (cct_tid t + kCausalCacheUpdatePort)"

definition cct_causal_cache_version_gc_bind_address :: "CausalCacheThread \<Rightarrow> Address" where
  "cct_causal_cache_version_gc_bind_address t = kBindBase @ to_string (cct_tid t + kCausalCacheVersionGCPort)"

definition cct_causal_cache_version_gc_connect_address :: "CausalCacheThread \<Rightarrow> Address" where
  "cct_causal_cache_version_gc_connect_address t = cct_ip_base t @ to_string (cct_tid t + kCausalCacheVersionGCPort)"

definition cct_causal_cache_versioned_key_request_bind_address :: "CausalCacheThread \<Rightarrow> Address" where
  "cct_causal_cache_versioned_key_request_bind_address t = kBindBase @ to_string (cct_tid t + kCausalCacheVersionedKeyRequestPort)"

definition cct_causal_cache_versioned_key_request_connect_address :: "CausalCacheThread \<Rightarrow> Address" where
  "cct_causal_cache_versioned_key_request_connect_address t = cct_ip_base t @ to_string (cct_tid t + kCausalCacheVersionedKeyRequestPort)"

definition cct_causal_cache_versioned_key_response_bind_address :: "CausalCacheThread \<Rightarrow> Address" where
  "cct_causal_cache_versioned_key_response_bind_address t = kBindBase @ to_string (cct_tid t + kCausalCacheVersionedKeyResponsePort)"

definition cct_causal_cache_versioned_key_response_connect_address :: "CausalCacheThread \<Rightarrow> Address" where
  "cct_causal_cache_versioned_key_response_connect_address t = cct_ip_base t @ to_string (cct_tid t + kCausalCacheVersionedKeyResponsePort)"

record UserRoutingThread =
  urt_ip :: Address
  urt_ip_base :: Address
  urt_tid :: u32

definition make_UserRoutingThread :: "Address \<Rightarrow> u32 \<Rightarrow> UserRoutingThread" where
  "make_UserRoutingThread ip tid =
     \<lparr>urt_ip = ip, urt_ip_base = ''tcp://'' @ ip @ '':'', urt_tid = tid\<rparr>"

definition urt_key_address_connect_address :: "UserRoutingThread \<Rightarrow> Address" where
  "urt_key_address_connect_address t = urt_ip_base t @ to_string (urt_tid t + kKeyAddressPort)"

definition urt_key_address_bind_address :: "UserRoutingThread \<Rightarrow> Address" where
  "urt_key_address_bind_address t = kBindBase @ to_string (urt_tid t + kKeyAddressPort)"

record UserThread =
  ut_ip :: Address
  ut_ip_base :: Address
  ut_tid :: u32

definition make_UserThread :: "Address \<Rightarrow> u32 \<Rightarrow> UserThread" where
  "make_UserThread ip tid =
     \<lparr>ut_ip = ip, ut_ip_base = ''tcp://'' @ ip @ '':'', ut_tid = tid\<rparr>"

definition ut_response_connect_address :: "UserThread \<Rightarrow> Address" where
  "ut_response_connect_address t = ut_ip_base t @ to_string (ut_tid t + kUserResponsePort)"

definition ut_response_bind_address :: "UserThread \<Rightarrow> Address" where
  "ut_response_bind_address t = kBindBase @ to_string (ut_tid t + kUserResponsePort)"

definition ut_key_address_connect_address :: "UserThread \<Rightarrow> Address" where
  "ut_key_address_connect_address t = ut_ip_base t @ to_string (ut_tid t + kUserKeyAddressPort)"

definition ut_key_address_bind_address :: "UserThread \<Rightarrow> Address" where
  "ut_key_address_bind_address t = kBindBase @ to_string (ut_tid t + kUserKeyAddressPort)"

section \<open>kvs\_threads.hpp\<close>

definition kNodeJoinPort :: u32 where
  "kNodeJoinPort = 6000"

definition kNodeDepartPort :: u32 where
  "kNodeDepartPort = 6050"

definition kSelfDepartPort :: u32 where
  "kSelfDepartPort = 6100"

definition kServerReplicationResponsePort :: u32 where
  "kServerReplicationResponsePort = 6150"

definition kKeyRequestPort :: u32 where
  "kKeyRequestPort = 6200"

definition kGossipPort :: u32 where
  "kGossipPort = 6250"

definition kServerReplicationChangePort :: u32 where
  "kServerReplicationChangePort = 6300"

definition kCacheIpResponsePort :: u32 where
  "kCacheIpResponsePort = 7050"

definition kSeedPort :: u32 where
  "kSeedPort = 6350"

definition kRoutingNotifyPort :: u32 where
  "kRoutingNotifyPort = 6400"

definition kRoutingReplicationResponsePort :: u32 where
  "kRoutingReplicationResponsePort = 6500"

definition kRoutingReplicationChangePort :: u32 where
  "kRoutingReplicationChangePort = 6550"

definition kMonitoringNotifyPort :: u32 where
  "kMonitoringNotifyPort = 6600"

definition kMonitoringResponsePort :: u32 where
  "kMonitoringResponsePort = 6650"

definition kDepartDonePort :: u32 where
  "kDepartDonePort = 6700"

definition kLatencyReportPort :: u32 where
  "kLatencyReportPort = 6750"

definition kKopsFuncNodesPort :: u32 where
  "kKopsFuncNodesPort = 7002"

text \<open>The three-argument constructor leaves \<open>virtual_num_\<close> uninitialised: \<open>None\<close>.\<close>

record ServerThread =
  st_public_ip :: Address
  st_public_base :: Address
  st_private_ip :: Address
  st_private_base :: Address
  st_tid :: u32
  st_virtual_num :: "u32 option"

definition make_ServerThread :: "Address \<Rightarrow> Address \<Rightarrow> u32 \<Rightarrow> ServerThread" where
  "make_ServerThread public_ip private_ip tid =
     \<lparr>st_public_ip = public_ip, st_public_base = ''tcp://'' @ public_ip @ '':'',
      st_private_ip = private_ip, st_private_base = ''tcp://'' @ private_ip @ '':'',
      st_tid = tid, st_virtual_num = None\<rparr>"

definition make_virtual_ServerThread :: "Address \<Rightarrow> Address \<Rightarrow> u32 \<Rightarrow> u32 \<Rightarrow> ServerThread" where
  "make_virtual_ServerThread public_ip private_ip tid virtual_num =
     (make_ServerThread public_ip private_ip tid)\<lparr>st_virtual_num := Some virtual_num\<rparr>"

definition st_id :: "ServerThread \<Rightarrow> string" where
  "st_id t = st_private_ip t @ '':'' @ to_string (st_tid t)"

text \<open>\<open>virtual_id\<close> reads \<open>virtual_num_\<close>; it is called on threads made by the four-argument constructor.\<close>

definition st_virtual_id :: "ServerThread \<Rightarrow> string" where
  "st_virtual_id t =
     st_private_ip t @ '':'' @ to_string (st_tid t) @ ''_'' @
     to_string (case st_virtual_num t of Some n \<Rightarrow> n | None \<Rightarrow> 0)"

definition st_node_join_connect_address :: "ServerThread \<Rightarrow> Address" where
  "st_node_join_connect_address t = st_private_base t @ to_string (st_tid t + kNodeJoinPort)"

definition st_node_join_bind_address :: "ServerThread \<Rightarrow> Address" where
  "st_node_join_bind_address t = kBindBase @ to_string (st_tid t + kNodeJoinPort)"

definition st_node_depart_connect_address :: "ServerThread \<Rightarrow> Address" where
  "st_node_depart_connect_address t = st_private_base t @ to_string (st_tid t + kNodeDepartPort)"

definition st_node_depart_bind_address :: "ServerThread \<Rightarrow> Address" where
  "st_node_depart_bind_address t = kBindBase @ to_string (st_tid t + kNodeDepartPort)"

definition st_self_depart_connect_address :: "ServerThread \<Rightarrow> Address" where
  "st_self_depart_connect_address t = st_private_base t @ to_string (st_tid t + kSelfDepartPort)"

definition st_self_depart_bind_address :: "ServerThread \<Rightarrow> Address" where
  "st_self_depart_bind_address t = kBindBase @ to_string (st_tid t + kSelfDepartPort)"

definition st_key_request_connect_address :: "ServerThread \<Rightarrow> Address" where
  "st_key_request_connect_address t = st_public_base t @ to_string (st_tid t + kKeyRequestPort)"

definition st_key_request_bind_address :: "ServerThread \<Rightarrow> Address" where
  "st_key_request_bind_address t = kBindBase @ to_string (st_tid t + kKeyRequestPort)"

definition st_replication_response_connect_address :: "ServerThread \<Rightarrow> Address" where
  "st_replication_response_connect_address t = st_private_base t @ to_string (st_tid t + kServerReplicationResponsePort)"

definition st_replication_response_bind_address :: "ServerThread \<Rightarrow> Address" where
  "st_replication_response_bind_address t = kBindBase @ to_string (st_tid t + kServerReplicationResponsePort)"

definition st_cache_ip_response_connect_address :: "ServerThread \<Rightarrow> Address" where
  "st_cache_ip_response_connect_address t = st_private_base t @ to_string (st_tid t + kCacheIpResponsePort)"

definition st_cache_ip_response_bind_address :: "ServerThread \<Rightarrow> Address" where
  "st_cache_ip_response_bind_address t = kBindBase @ to_string (st_tid t + kCacheIpResponsePort)"

definition st_gossip_connect_address :: "ServerThread \<Rightarrow> Address" where
  "st_gossip_connect_address t = st_private_base t @ to_string (st_tid t + kGossipPort)"

definition st_gossip_bind_address :: "ServerThread \<Rightarrow> Address" where
  "st_gossip_bind_address t = kBindBase @ to_string (st_tid t + kGossipPort)"

definition st_replication_change_connect_address :: "ServerThread \<Rightarrow> Address" where
  "st_replication_change_connect_address t = st_private_base t @ to_string (st_tid t + kServerReplicationChangePort)"

definition st_replication_change_bind_address :: "ServerThread \<Rightarrow> Address" where
  "st_replication_change_bind_address t = kBindBase @ to_string (st_tid t + kServerReplicationChangePort)"

definition st_eq :: "ServerThread \<Rightarrow> ServerThread \<Rightarrow> bool" where
  "st_eq l r \<longleftrightarrow> st_id l = st_id r"

record RoutingThread =
  rt_ip :: Address
  rt_ip_base :: Address
  rt_tid :: u32

definition make_RoutingThread :: "Address \<Rightarrow> u32 \<Rightarrow> RoutingThread" where
  "make_RoutingThread ip tid =
     \<lparr>rt_ip = ip, rt_ip_base = ''tcp://'' @ ip @ '':'', rt_tid = tid\<rparr>"

definition rt_seed_connect_address :: "RoutingThread \<Rightarrow> Address" where
  "rt_seed_connect_address t = rt_ip_base t @ to_string (rt_tid t + kSeedPort)"

definition rt_seed_bind_address :: "RoutingThread \<Rightarrow> Address" where
  "rt_seed_bind_address t = kBindBase @ to_string (rt_tid t + kSeedPort)"

definition rt_notify_connect_address :: "RoutingThread \<Rightarrow> Address" where
  "rt_notify_connect_address t = rt_ip_base t @ to_string (rt_tid t + kRoutingNotifyPort)"

definition rt_notify_bind_address :: "RoutingThread \<Rightarrow> Address" where
  "rt_notify_bind_address t = kBindBase @ to_string (rt_tid t + kRoutingNotifyPort)"

definition rt_key_address_connect_address :: "RoutingThread \<Rightarrow> Address" where
  "rt_key_address_connect_address t = rt_ip_base t @ to_string (rt_tid t + kKeyAddressPort)"

definition rt_key_address_bind_address :: "RoutingThread \<Rightarrow> Address" where
  "rt_key_address_bind_address t = kBindBase @ to_string (rt_tid t + kKeyAddressPort)"

definition rt_replication_response_connect_address :: "RoutingThread \<Rightarrow> Address" where
  "rt_replication_response_connect_address t = rt_ip_base t @ to_string (rt_tid t + kRoutingReplicationResponsePort)"

definition rt_replication_response_bind_address :: "RoutingThread \<Rightarrow> Address" where
  "rt_replication_response_bind_address t = kBindBase @ to_string (rt_tid t + kRoutingReplicationResponsePort)"

definition rt_replication_change_connect_address :: "RoutingThread \<Rightarrow> Address" where
  "rt_replication_change_connect_address t = rt_ip_base t @ to_string (rt_tid t + kRoutingReplicationChangePort)"

definition rt_replication_change_bind_address :: "RoutingThread \<Rightarrow> Address" where
  "rt_replication_change_bind_address t = kBindBase @ to_string (rt_tid t + kRoutingReplicationChangePort)"

record MonitoringThread =
  mt_ip :: Address
  mt_ip_base :: Address

definition make_MonitoringThread :: "Address \<Rightarrow> MonitoringThread" where
  "make_MonitoringThread ip =
     \<lparr>mt_ip = ip, mt_ip_base = ''tcp://'' @ ip @ '':''\<rparr>"

definition mt_notify_connect_address :: "MonitoringThread \<Rightarrow> Address" where
  "mt_notify_connect_address t = mt_ip_base t @ to_string kMonitoringNotifyPort"

definition mt_notify_bind_address :: "MonitoringThread \<Rightarrow> Address" where
  "mt_notify_bind_address t = kBindBase @ to_string kMonitoringNotifyPort"

definition mt_response_connect_address :: "MonitoringThread \<Rightarrow> Address" where
  "mt_response_connect_address t = mt_ip_base t @ to_string kMonitoringResponsePort"

definition mt_response_bind_address :: "MonitoringThread \<Rightarrow> Address" where
  "mt_response_bind_address t = kBindBase @ to_string kMonitoringResponsePort"

definition mt_depart_done_connect_address :: "MonitoringThread \<Rightarrow> Address" where
  "mt_depart_done_connect_address t = mt_ip_base t @ to_string kDepartDonePort"

definition mt_depart_done_bind_address :: "MonitoringThread \<Rightarrow> Address" where
  "mt_depart_done_bind_address t = kBindBase @ to_string kDepartDonePort"

definition mt_latency_report_connect_address :: "MonitoringThread \<Rightarrow> Address" where
  "mt_latency_report_connect_address t = mt_ip_base t @ to_string kLatencyReportPort"

definition mt_latency_report_bind_address :: "MonitoringThread \<Rightarrow> Address" where
  "mt_latency_report_bind_address t = kBindBase @ to_string kLatencyReportPort"

record BenchmarkThread =
  bt_ip :: Address
  bt_tid :: u32

definition bt_benchmark_command_address :: "BenchmarkThread \<Rightarrow> Address" where
  "bt_benchmark_command_address t = ''tcp://'' @ bt_ip t @ '':'' @ to_string (bt_tid t + kBenchmarkCommandPort)"

definition get_join_count_req_address :: "string \<Rightarrow> string" where
  "get_join_count_req_address management_ip =
     ''tcp://'' @ management_ip @ '':'' @ to_string kKopsRestartCountPort"

definition get_func_nodes_req_address :: "string \<Rightarrow> string" where
  "get_func_nodes_req_address management_ip =
     ''tcp://'' @ management_ip @ '':'' @ to_string kKopsFuncNodesPort"

text \<open>\<open>ThreadHash\<close>, with \<open>std::hash<string>\<close> as a parameter.\<close>

definition ThreadHash :: "(string \<Rightarrow> u64) \<Rightarrow> ServerThread \<Rightarrow> u64" where
  "ThreadHash std_hash st = std_hash (st_id st)"
section \<open>Identity and sockets\<close>

text \<open>The id of a thread determines its address and thread number, whatever the address contains.\<close>

lemma st_id_eq: "st_id l = st_id r \<longleftrightarrow> st_private_ip l = st_private_ip r \<and> st_tid l = st_tid r"
proof
  assume eq: "st_id l = st_id r"
  have colon: "CHR '':'' \<notin> set (to_string n)" for n
    using to_string_digits [of "CHR '':''" n] by (auto simp: is_digit_def)
  have pick: "takeWhile (\<lambda>c. c \<noteq> CHR '':'') (rev (st_id t)) = rev (to_string (st_tid t))" for t
    using colon by (simp add: st_id_def takeWhile_append)
  have tid: "st_tid l = st_tid r" using pick [of l] pick [of r] eq by simp
  then show "st_private_ip l = st_private_ip r \<and> st_tid l = st_tid r" using eq by (simp add: st_id_def)
qed (simp add: st_id_def)

lemma st_id_make [simp]: "st_id (make_ServerThread pub priv tid) = priv @ '':'' @ to_string tid"
  by (simp add: st_id_def make_ServerThread_def)

lemma make_ServerThread_sel [simp]:
  "st_public_ip (make_ServerThread pub priv tid) = pub"
  "st_private_ip (make_ServerThread pub priv tid) = priv"
  "st_tid (make_ServerThread pub priv tid) = tid"
  by (simp_all add: make_ServerThread_def)

definition server_bind_addresses :: "ServerThread \<Rightarrow> Address list" where
  "server_bind_addresses t =
     [st_node_join_bind_address t, st_node_depart_bind_address t, st_self_depart_bind_address t,
      st_replication_response_bind_address t, st_key_request_bind_address t, st_gossip_bind_address t,
      st_replication_change_bind_address t, st_cache_ip_response_bind_address t]"

lemmas port_defs = kNodeJoinPort_def kNodeDepartPort_def kSelfDepartPort_def
  kServerReplicationResponsePort_def kKeyRequestPort_def kGossipPort_def
  kServerReplicationChangePort_def kCacheIpResponsePort_def

lemma server_bind_addresses_nth:
  assumes "i < 8"
  shows "server_bind_addresses t ! i =
    kBindBase @ to_string (st_tid t + of_nat (if i = 7 then 7050 else 6000 + 50 * i))"
proof -
  have "i \<in> {0, 1, 2, 3, 4, 5, 6, 7}" using assms by auto
  then show ?thesis
    by (auto simp: server_bind_addresses_def port_defs st_node_join_bind_address_def
        st_node_depart_bind_address_def st_self_depart_bind_address_def
        st_replication_response_bind_address_def st_key_request_bind_address_def
        st_gossip_bind_address_def st_replication_change_bind_address_def
        st_cache_ip_response_bind_address_def)
qed

lemma port_arith:
  fixes a b m n :: nat
  assumes "a < 50" "b < 50" "a + 50 * m = b + 50 * n"
  shows "m = n \<and> a = b"
proof -
  have "(a + 50 * m) div 50 = m" "(b + 50 * n) div 50 = n" using assms by simp_all
  then have "m = n" using assms(3) by metis
  then show ?thesis using assms(3) by simp
qed

lemma unat_add_port: "unat (t :: u32) < 50 \<Longrightarrow> p < 10000 \<Longrightarrow> unat (t + of_nat p) = unat t + p"
  by (simp add: unat_word_ariths)

text \<open>
  The threads of a storage node do not fight over sockets: as long as a node runs at most
  fifty threads, no two of the eight sockets that its threads bind have the same address.
\<close>

lemma server_sockets_distinct:
  assumes "unat (st_tid s) < 50" "unat (st_tid t) < 50" "i < 8" "j < 8"
  shows "server_bind_addresses s ! i = server_bind_addresses t ! j \<longleftrightarrow> i = j \<and> st_tid s = st_tid t"
proof -
  let ?p = "\<lambda>i :: nat. if i = 7 then 7050 else 6000 + 50 * i"
  have "unat (st_tid s + of_nat (?p i)) = unat (st_tid s) + ?p i"
    "unat (st_tid t + of_nat (?p j)) = unat (st_tid t) + ?p j"
    using assms by (intro unat_add_port; auto)+
  then have "st_tid s + of_nat (?p i) = st_tid t + of_nat (?p j) \<longleftrightarrow>
      unat (st_tid s) + ?p i = unat (st_tid t) + ?p j"
    by (simp only: word_unat_eq_iff)
  also have "\<dots> \<longleftrightarrow> i = j \<and> unat (st_tid s) = unat (st_tid t)"
    using port_arith [of "unat (st_tid s)" "unat (st_tid t)" "if i = 7 then 21 else i"
        "if j = 7 then 21 else j"] assms by (auto split: if_splits)
  finally show ?thesis
    using assms by (simp add: server_bind_addresses_nth word_unat_eq_iff)
qed

end
