(* ===== verification/Metadata.thy ===== *)
theory Metadata
  imports Messages Message_Laws Threads
begin

text \<open>
  kvs/include/kvs_common.hpp, kvs_types.hpp and metadata.hpp: the constants of the key-value
  store, the per-key replication state, and the keys under which the store keeps its own
  metadata. The run-time constants are fields of the record \<open>env\<close>, which also carries the
  library functions the sources call and that are outside of them: the wire format,
  \<open>std::hash<string>\<close> and \<open>rand_r\<close> (which maps a seed to the next seed and the number drawn).
\<close>

section \<open>kvs\_common.hpp and kvs\_types.hpp\<close>

type_synonym TierId = u32
type_synonym ServerThreadList = "ServerThread list"

text \<open>
  \<open>ServerThreadSet\<close> is a hash set with \<open>operator==\<close> on threads, which compares ids: a map
  from the id to the one element with that id.
\<close>

type_synonym ServerThreadSet = "(string, ServerThread) fmap"

definition tset_insert :: "ServerThread \<Rightarrow> ServerThreadSet \<Rightarrow> ServerThreadSet" where
  "tset_insert t s = (if fm_contains s (st_id t) then s else fmupd (st_id t) t s)"

definition tset_mem :: "ServerThread \<Rightarrow> ServerThreadSet \<Rightarrow> bool" where
  "tset_mem t s \<longleftrightarrow> fm_contains s (st_id t)"

definition tset_elems :: "ServerThreadSet \<Rightarrow> ServerThread list" where
  "tset_elems s = map snd (fm_entries s)"

definition kMetadataReplicationFactor :: u32 where
  "kMetadataReplicationFactor = 1"

definition kMetadataLocalReplicationFactor :: u32 where
  "kMetadataLocalReplicationFactor = 1"

definition kVirtualThreadNum :: u32 where
  "kVirtualThreadNum = 3000"

definition kMemoryTierId :: TierId where
  "kMemoryTierId = 0"

definition kEbsTierId :: TierId where
  "kEbsTierId = 1"

definition kRoutingTierId :: TierId where
  "kRoutingTierId = 100"

definition kMaxTier :: u32 where
  "kMaxTier = 1"

definition kAllTierIds :: "TierId list" where
  "kAllTierIds = [0, 1]"

definition kSloWorst :: u32 where
  "kSloWorst = 3000"

section \<open>metadata.hpp\<close>

definition kMetadataTypeReplication :: string where
  "kMetadataTypeReplication = ''replication''"

record KeyReplication =
  global_replication :: "(TierId, u32) fmap"
  local_replication :: "(TierId, u32) fmap"

definition empty_KeyReplication :: KeyReplication where
  "empty_KeyReplication = \<lparr>global_replication = fmempty, local_replication = fmempty\<rparr>"

record KeyProperty =
  kp_size :: u32
  kp_type :: LatticeType

definition empty_KeyProperty :: KeyProperty where
  "empty_KeyProperty = \<lparr>kp_size = 0, kp_type = NO\<rparr>"

definition replication_sub :: "(TierId, u32) fmap \<Rightarrow> (TierId, u32) fmap \<Rightarrow> bool" where
  "replication_sub lhs rhs \<longleftrightarrow> list_all (\<lambda>(id, n). fmlookup rhs id = Some n) (fm_entries lhs)"

definition KeyReplication_eq :: "KeyReplication \<Rightarrow> KeyReplication \<Rightarrow> bool" where
  "KeyReplication_eq lhs rhs \<longleftrightarrow>
     replication_sub (global_replication lhs) (global_replication rhs) \<and>
     replication_sub (local_replication lhs) (local_replication rhs)"

record TierMetadata =
  tm_id :: TierId
  tm_thread_number :: u32
  tm_default_replication :: u32
  tm_node_capacity :: u64

definition default_TierMetadata :: TierMetadata where
  "default_TierMetadata = \<lparr>tm_id = kMemoryTierId, tm_thread_number = 1,
     tm_default_replication = 1, tm_node_capacity = 0\<rparr>"

record env = wire +
  std_hash :: "string \<Rightarrow> u64"
  rand_r :: "u32 \<Rightarrow> u32 \<times> u32"
  kSelfTierId :: TierId
  kThreadNum :: u32
  kRoutingThreadCount :: u32
  kDefaultLocalReplication :: u32
  kMinimumReplicaNumber :: u32
  kTierMetadata :: "(TierId, TierMetadata) fmap"

definition tier_metadata :: "env \<Rightarrow> TierId \<Rightarrow> TierMetadata" where
  "tier_metadata E tier_id = fm_at default_TierMetadata (kTierMetadata E) tier_id"

text \<open>\<open>v[0]\<close> of an empty vector is undefined: \<open>is_metadata\<close> of the empty key is a fault.\<close>

definition is_metadata :: "Key \<Rightarrow> fault + bool" where
  "is_metadata key = bindr (vec_at (split key CHR ''|'') 0) (\<lambda>v. Inr (v = kMetadataIdentifier))"

datatype MetadataType = replication | server_stats | key_access | key_size

definition get_server_metadata_key :: "ServerThread \<Rightarrow> u32 \<Rightarrow> u32 \<Rightarrow> MetadataType \<Rightarrow> Key" where
  "get_server_metadata_key st tier_id thread_num type =
     (let key = (\<lambda>metadata_type.
        kMetadataIdentifier @ kMetadataDelimiter @ metadata_type @
        kMetadataDelimiter @ st_public_ip st @ kMetadataDelimiter @
        st_private_ip st @ kMetadataDelimiter @ to_string thread_num @
        kMetadataDelimiter @ to_string tier_id)
      in case type of
           server_stats \<Rightarrow> key ''stats''
         | key_access \<Rightarrow> key ''access''
         | key_size \<Rightarrow> key ''size''
         | _ \<Rightarrow> [])"

definition get_metadata_key :: "string \<Rightarrow> MetadataType \<Rightarrow> Key" where
  "get_metadata_key data_key type =
     (if type = replication
      then kMetadataIdentifier @ kMetadataDelimiter @ kMetadataTypeReplication @
           kMetadataDelimiter @ data_key
      else [])"

definition get_key_from_metadata :: "Key \<Rightarrow> fault + Key" where
  "get_key_from_metadata metadata_key =
     (let n_id = str_find metadata_key kMetadataDelimiterChar 0;
          n_type = str_find metadata_key kMetadataDelimiterChar (n_id + 1)
      in bindr (substr metadata_key (n_id + 1) (n_type - (n_id + 1))) (\<lambda>metadata_type.
         if metadata_type = kMetadataTypeReplication
         then substr metadata_key (n_type + 1) npos
         else Inr []))"

definition split_metadata_key :: "Key \<Rightarrow> string list" where
  "split_metadata_key key = split key kMetadataDelimiterChar"

type_synonym KeyReplicationMap = "(Key, KeyReplication) fmap"

definition set_global_replication ::
  "Key \<Rightarrow> TierId \<Rightarrow> u32 \<Rightarrow> KeyReplicationMap \<Rightarrow> KeyReplicationMap" where
  "set_global_replication key tier n m =
     fm_modify empty_KeyReplication key
       (\<lambda>r. r\<lparr>global_replication := fmupd tier n (global_replication r)\<rparr>) m"

definition set_local_replication ::
  "Key \<Rightarrow> TierId \<Rightarrow> u32 \<Rightarrow> KeyReplicationMap \<Rightarrow> KeyReplicationMap" where
  "set_local_replication key tier n m =
     fm_modify empty_KeyReplication key
       (\<lambda>r. r\<lparr>local_replication := fmupd tier n (local_replication r)\<rparr>) m"

definition warmup_key :: "u32 \<Rightarrow> Key" where
  "warmup_key i = replicate (8 - length (to_string i)) CHR ''0'' @ to_string i"

definition warmup_key_replication_map_to_defaults ::
  "KeyReplicationMap \<Rightarrow> u32 \<Rightarrow> u32 \<Rightarrow> u32 \<Rightarrow> KeyReplicationMap" where
  "warmup_key_replication_map_to_defaults m globalMemory globalEbs dfltLocal =
     fold (\<lambda>i m.
        let key = warmup_key i;
            m = set_global_replication key kMemoryTierId globalMemory m;
            m = set_global_replication key kEbsTierId globalEbs m;
            m = set_local_replication key kMemoryTierId dfltLocal m
        in set_local_replication key kEbsTierId dfltLocal m)
       (map of_nat [1..<1000001]) m"

definition init_replication :: "env \<Rightarrow> KeyReplicationMap \<Rightarrow> Key \<Rightarrow> KeyReplicationMap" where
  "init_replication E m key =
     fold (\<lambda>tier_id m.
        set_local_replication key tier_id (kDefaultLocalReplication E)
          (set_global_replication key tier_id
             (tm_default_replication (tier_metadata E tier_id)) m))
       kAllTierIds m"

section \<open>Laws\<close>

lemma tset_mem_insert [simp]: "tset_mem t (tset_insert u s) \<longleftrightarrow> st_id t = st_id u \<or> tset_mem t s"
  by (auto simp: tset_mem_def tset_insert_def)

lemma is_metadata_prefix: "is_metadata (kMetadataIdentifier @ CHR ''|'' # rest) = Inr True"
  by (simp add: is_metadata_def split_cons)

lemma replication_key_parts:
  "get_metadata_key data_key replication =
     kMetadataIdentifier @ CHR ''|'' # kMetadataTypeReplication @ CHR ''|'' # data_key"
  by (simp add: get_metadata_key_def kMetadataDelimiter_def)

lemma is_metadata_replication: "is_metadata (get_metadata_key data_key replication) = Inr True"
  by (simp add: replication_key_parts is_metadata_prefix)

lemma key_from_replication_key:
  assumes "length data_key < 2 ^ 63"
  shows "get_key_from_metadata (get_metadata_key data_key replication) = Inr data_key"
proof -
  have len: "length (kMetadataIdentifier @ CHR ''|'' # kMetadataTypeReplication @ CHR ''|'' # data_key) < 2 ^ 64"
    using assms by (simp add: kMetadataIdentifier_def kMetadataTypeReplication_def)
  have "CHR ''|'' \<notin> set kMetadataTypeReplication" by (simp add: kMetadataTypeReplication_def)
  note parts = metadata_key_parts [OF kMetadataIdentifier_nodelim this len]
  show ?thesis
    unfolding get_key_from_metadata_def replication_key_parts kMetadataDelimiterChar_def Let_def parts by simp
qed

text \<open>
  C23. The replication key of any data key, also one that contains delimiters, is recognised as
  metadata and taken apart to that data key again.
\<close>

theorem metadata_key_roundtrip:
  assumes "length data_key < 2 ^ 63"
  shows "is_metadata (get_metadata_key data_key replication) = Inr True \<and>
    get_key_from_metadata (get_metadata_key data_key replication) = Inr data_key"
  by (simp add: is_metadata_replication key_from_replication_key [OF assms])

theorem metadata_key_roundtrip_witness:
  "is_metadata (get_metadata_key ''user|42'' replication) = Inr True \<and>
   get_key_from_metadata (get_metadata_key ''user|42'' replication) = Inr ''user|42''"
  by (rule metadata_key_roundtrip) simp

lemma server_metadata_key_parts:
  assumes "CHR ''|'' \<notin> set (st_public_ip st)" "CHR ''|'' \<notin> set (st_private_ip st)"
    and "type \<noteq> replication" "unat thread_num < 2 ^ 31" "unat tier_id < 2 ^ 31"
  shows "\<exists>name tid tier. split_metadata_key (get_server_metadata_key st tier_id thread_num type) =
      [kMetadataIdentifier, name, st_public_ip st, st_private_ip st, tid, tier] \<and>
    name = (case type of server_stats \<Rightarrow> ''stats'' | key_access \<Rightarrow> ''access'' | _ \<Rightarrow> ''size'') \<and>
    stoi tid = Inr (uint thread_num) \<and> stoi tier = Inr (uint tier_id)"
proof -
  have bar: "CHR ''|'' \<notin> set (to_string n)" for n
    using to_string_digits [of "CHR ''|''" n] by (auto simp: is_digit_def)
  let ?name = "case type of server_stats \<Rightarrow> ''stats'' | key_access \<Rightarrow> ''access'' | _ \<Rightarrow> ''size''"
  have key: "get_server_metadata_key st tier_id thread_num type =
      kMetadataIdentifier @ CHR ''|'' # ?name @ CHR ''|'' # st_public_ip st @ CHR ''|'' #
      st_private_ip st @ CHR ''|'' # to_string thread_num @ CHR ''|'' # to_string tier_id"
    using assms(3) by (cases type) (simp_all add: get_server_metadata_key_def kMetadataDelimiter_def)
  have "CHR ''|'' \<notin> set ?name" by (cases type) simp_all
  then have "split_metadata_key (get_server_metadata_key st tier_id thread_num type) =
      [kMetadataIdentifier, ?name, st_public_ip st, st_private_ip st, to_string thread_num,
       to_string tier_id]"
    using assms(1,2) bar
    by (simp add: split_metadata_key_def key kMetadataDelimiterChar_def split_cons split_one)
  then show ?thesis using assms(4,5) by (simp add: stoi_to_string)
qed

text \<open>
  Comparing replication states is one-sided: the left one may know fewer tiers. So the
  comparison is not symmetric.
\<close>

lemma KeyReplication_eq_one_sided:
  "(KeyReplication_eq l r \<longleftrightarrow>
      global_replication l \<subseteq>\<^sub>f global_replication r \<and> local_replication l \<subseteq>\<^sub>f local_replication r) \<and>
   (\<exists>a b. KeyReplication_eq a b \<and> \<not> KeyReplication_eq b a)"
proof
  have sub: "replication_sub a b \<longleftrightarrow> a \<subseteq>\<^sub>f b" for a b
    by (auto simp: replication_sub_def list_all_iff set_fm_entries fmsubset_alt_def fmpred_iff)
  show "KeyReplication_eq l r \<longleftrightarrow>
      global_replication l \<subseteq>\<^sub>f global_replication r \<and> local_replication l \<subseteq>\<^sub>f local_replication r"
    by (simp add: KeyReplication_eq_def sub)
  show "\<exists>a b. KeyReplication_eq a b \<and> \<not> KeyReplication_eq b a"
    by (rule exI [of _ empty_KeyReplication],
        rule exI [of _ "empty_KeyReplication\<lparr>global_replication := fmupd 0 1 fmempty\<rparr>"])
      code_simp
qed

text \<open>Setting the default replication gives every tier its default and touches no other key.\<close>

lemma init_replication_lookup:
  "fmlookup (init_replication E m key) k =
     (if k = key
      then Some \<lparr>global_replication = fmupd 1 (tm_default_replication (tier_metadata E 1))
               (fmupd 0 (tm_default_replication (tier_metadata E 0))
                  (global_replication (fm_at empty_KeyReplication m key))),
             local_replication = fmupd 1 (kDefaultLocalReplication E)
               (fmupd 0 (kDefaultLocalReplication E)
                  (local_replication (fm_at empty_KeyReplication m key)))\<rparr>
      else fmlookup m k)"
  by (auto simp: init_replication_def kAllTierIds_def set_local_replication_def
      set_global_replication_def fmlookup_modify fm_modify_def)

end
