(* ===== verification/Hash_Ring.thy ===== *)
theory Hash_Ring
  imports Metadata
begin

text \<open>
  kvs/include/hashers.hpp, consistent_hash_map.hpp, hash_ring.hpp and
  kvs/src/hash_ring/hash_ring.cpp: the consistent-hash rings and the lookup of the threads that
  are responsible for a key.

  A \<open>ConsistentHashMap\<close> is an ordered map from hashes to nodes; an iterator into it is the
  index of the entry in ascending order of hashes, and \<open>end()\<close> is the number of entries. The
  two instances differ in the hasher, so the operations take the hash functions as arguments.
  The process state that the lookups read and write is the record \<open>hctx\<close>, which the states of
  the storage server, the router and the monitor extend; \<open>out\<close> is the list of messages sent.
\<close>

section \<open>hashers.hpp\<close>

definition global_hash_thread :: "env \<Rightarrow> ServerThread \<Rightarrow> u32" where
  "global_hash_thread E th = ucast (std_hash E (''GLOBAL'' @ st_virtual_id th))"

definition global_hash_key :: "env \<Rightarrow> Key \<Rightarrow> u32" where
  "global_hash_key E key = ucast (std_hash E (''GLOBAL'' @ key))"

definition local_hash_thread :: "env \<Rightarrow> ServerThread \<Rightarrow> u64" where
  "local_hash_thread E th =
     std_hash E (to_string (st_tid th) @ ''_'' @
       to_string (case st_virtual_num th of Some n \<Rightarrow> n | None \<Rightarrow> 0))"

definition local_hash_key :: "env \<Rightarrow> Key \<Rightarrow> u64" where
  "local_hash_key E key = std_hash E key"

section \<open>consistent\_hash\_map.hpp\<close>

type_synonym 'h chm = "('h, ServerThread) fmap"

definition chm_size :: "'h chm \<Rightarrow> nat" where
  "chm_size nodes = fcard (fmdom nodes)"

definition chm_empty :: "'h chm \<Rightarrow> bool" where
  "chm_empty nodes \<longleftrightarrow> fmdom nodes = {||}"

definition chm_insert :: "(ServerThread \<Rightarrow> 'h) \<Rightarrow> ServerThread \<Rightarrow> 'h chm \<Rightarrow> 'h chm \<times> bool" where
  "chm_insert hasher node nodes =
     (let hash = hasher node
      in if fm_contains nodes hash then (nodes, False) else (fmupd hash node nodes, True))"

definition chm_erase :: "(ServerThread \<Rightarrow> 'h) \<Rightarrow> ServerThread \<Rightarrow> 'h chm \<Rightarrow> 'h chm" where
  "chm_erase hasher node nodes = fmdrop (hasher node) nodes"

definition chm_lower_bound :: "'h::linorder \<Rightarrow> 'h chm \<Rightarrow> nat" where
  "chm_lower_bound hash nodes = length (takeWhile (\<lambda>e. fst e < hash) (fm_entries nodes))"

definition chm_find :: "'h::linorder \<Rightarrow> 'h chm \<Rightarrow> nat" where
  "chm_find hash nodes =
     (if chm_empty nodes then length (fm_entries nodes)
      else let it = chm_lower_bound hash nodes
           in if it = length (fm_entries nodes) then 0 else it)"

section \<open>hash\_ring.hpp\<close>

record 'h HashRing =
  nodes :: "'h chm"
  unique_servers :: ServerThreadSet
  server_join_count :: "(string, int) fmap"

type_synonym GlobalHashRing = "u32 HashRing"
type_synonym LocalHashRing = "u64 HashRing"

definition empty_ring :: "'h HashRing" where
  "empty_ring = \<lparr>nodes = fmempty, unique_servers = fmempty, server_join_count = fmempty\<rparr>"

definition virtual_nums :: "u32 list" where
  "virtual_nums = map of_nat [0..<unat kVirtualThreadNum]"

definition ring_insert ::
  "(ServerThread \<Rightarrow> 'h) \<Rightarrow> Address \<Rightarrow> Address \<Rightarrow> int \<Rightarrow> u32 \<Rightarrow> 'h HashRing \<Rightarrow> 'h HashRing \<times> bool" where
  "ring_insert hasher public_ip private_ip join_count tid ring =
     (let new_thread = make_virtual_ServerThread public_ip private_ip tid 0
      in if tset_mem new_thread (unique_servers ring)
         then let ring1 = ring\<lparr>server_join_count := fm_touch 0 private_ip (server_join_count ring)\<rparr>
              in if fm_at 0 (server_join_count ring) private_ip < join_count
                 then (ring1\<lparr>server_join_count := fmupd private_ip join_count (server_join_count ring1)\<rparr>, True)
                 else (ring1, False)
         else (\<lparr>nodes = fold (\<lambda>virtual_num ns.
                  fst (chm_insert hasher
                    (make_virtual_ServerThread public_ip private_ip tid virtual_num) ns))
                  virtual_nums (nodes ring),
                unique_servers = tset_insert new_thread (unique_servers ring),
                server_join_count = fmupd private_ip join_count (server_join_count ring)\<rparr>, True))"

definition ring_remove ::
  "(ServerThread \<Rightarrow> 'h) \<Rightarrow> Address \<Rightarrow> Address \<Rightarrow> u32 \<Rightarrow> 'h HashRing \<Rightarrow> 'h HashRing" where
  "ring_remove hasher public_ip private_ip tid ring =
     \<lparr>nodes = fold (\<lambda>virtual_num.
        chm_erase hasher (make_virtual_ServerThread public_ip private_ip tid virtual_num))
        virtual_nums (nodes ring),
      unique_servers =
        fmdrop (st_id (make_virtual_ServerThread public_ip private_ip tid 0)) (unique_servers ring),
      server_join_count = fmdrop private_ip (server_join_count ring)\<rparr>"

record hctx =
  global_hash_rings :: "(TierId, GlobalHashRing) fmap"
  local_hash_rings :: "(TierId, LocalHashRing) fmap"
  key_replication_map :: KeyReplicationMap
  seed :: u32
  out :: "(Address \<times> message) list"

definition send :: "Address \<Rightarrow> message \<Rightarrow> 'a hctx_scheme \<Rightarrow> 'a hctx_scheme" where
  "send addr msg s = s\<lparr>out := out s @ [(addr, msg)]\<rparr>"

section \<open>hash\_ring.cpp\<close>

text \<open>
  The loop of \<open>responsible_global\<close> over the entries \<open>es\<close> of the ring. It goes round the ring
  until \<open>rep\<close> different servers are found, and forever when there are fewer: \<open>None\<close>.
\<close>

partial_function (option) global_walk ::
  "ServerThread list \<Rightarrow> u32 \<Rightarrow> nat \<Rightarrow> u32 \<Rightarrow> ServerThreadList \<Rightarrow> ServerThreadList option" where
  "global_walk es rep pos i threads =
     (if i < rep
      then let fresh = \<not> list_ex (\<lambda>t. st_eq t (es ! pos)) threads;
               threads' = (if fresh then threads @ [es ! pos] else threads);
               i' = (if fresh then i + 1 else i);
               pos' = (if Suc pos = length es then 0 else Suc pos)
           in global_walk es rep pos' i' threads'
      else Some threads)"

definition responsible_global :: "env \<Rightarrow> Key \<Rightarrow> u32 \<Rightarrow> GlobalHashRing \<Rightarrow> fault + ServerThreadList" where
  "responsible_global E key global_rep ring =
     (let es = fm_entries (nodes ring);
          pos = chm_find (global_hash_key E key) (nodes ring)
      in if pos \<noteq> length es
         then case global_walk (map snd es) global_rep pos 0 [] of
                None \<Rightarrow> Inl Diverges
              | Some threads \<Rightarrow> Inr threads
         else Inr [])"

partial_function (option) local_walk ::
  "ServerThread list \<Rightarrow> u32 \<Rightarrow> nat \<Rightarrow> u32 \<Rightarrow> u32 fset \<Rightarrow> u32 fset option" where
  "local_walk es rep pos i tids =
     (if i < rep
      then let succeed = st_tid (es ! pos) |\<notin>| tids;
               tids' = finsert (st_tid (es ! pos)) tids;
               pos' = (if Suc pos = length es then 0 else Suc pos);
               i' = (if succeed then i + 1 else i)
           in local_walk es rep pos' i' tids'
      else Some tids)"

definition responsible_local :: "env \<Rightarrow> Key \<Rightarrow> u32 \<Rightarrow> LocalHashRing \<Rightarrow> fault + u32 fset" where
  "responsible_local E key local_rep ring =
     (let es = fm_entries (nodes ring);
          pos = chm_find (local_hash_key E key) (nodes ring)
      in if pos \<noteq> length es
         then case local_walk (map snd es) local_rep pos 0 {||} of
                None \<Rightarrow> Inl Diverges
              | Some tids \<Rightarrow> Inr tids
         else Inr {||})"

definition add_threads :: "ServerThread \<Rightarrow> u32 fset \<Rightarrow> ServerThreadList \<Rightarrow> ServerThreadList" where
  "add_threads thread tids result =
     fold (\<lambda>tid result. result @ [make_ServerThread (st_public_ip thread) (st_private_ip thread) tid])
       (fs_elems tids) result"

definition get_responsible_threads_metadata ::
  "env \<Rightarrow> Key \<Rightarrow> GlobalHashRing \<Rightarrow> LocalHashRing \<Rightarrow> fault + ServerThreadList" where
  "get_responsible_threads_metadata E key global_memory_hash_ring local_memory_hash_ring =
     bindr (responsible_global E key kMetadataReplicationFactor global_memory_hash_ring) (\<lambda>threads.
       for_each (\<lambda>thread result.
           bindr (responsible_local E key (kDefaultLocalReplication E) local_memory_hash_ring)
             (\<lambda>tids. Inr (add_threads thread tids result)))
         threads [])"

definition issue_replication_factor_request ::
  "env \<Rightarrow> Address \<Rightarrow> Key \<Rightarrow> GlobalHashRing \<Rightarrow> LocalHashRing \<Rightarrow> 'a hctx_scheme \<Rightarrow>
   fault + 'a hctx_scheme" where
  "issue_replication_factor_request E response_address key gring lring s =
     (let replication_key = get_metadata_key key replication
      in bindr (get_responsible_threads_metadata E replication_key gring lring) (\<lambda>threads.
         if threads = [] then Inl Division_by_zero
         else let (seed', r) = rand_r E (seed s);
                  target_address = st_key_request_connect_address (threads ! (unat r mod length threads));
                  key_request = prepare_get_tuple
                    (empty_request\<lparr>q_type := GET, q_response_address := Some response_address\<rparr>)
                    replication_key LWW
              in Inr (send target_address (Msg_request key_request) (s\<lparr>seed := seed'\<rparr>))))"

text \<open>\<open>global_hash_rings[tier_id]\<close> and \<open>local_hash_rings[tier_id]\<close> insert an empty ring when missing.\<close>

definition global_ring :: "TierId \<Rightarrow> 'a hctx_scheme \<Rightarrow> GlobalHashRing" where
  "global_ring tier s = fm_at empty_ring (global_hash_rings s) tier"

definition local_ring :: "TierId \<Rightarrow> 'a hctx_scheme \<Rightarrow> LocalHashRing" where
  "local_ring tier s = fm_at empty_ring (local_hash_rings s) tier"

definition touch_global :: "TierId \<Rightarrow> 'a hctx_scheme \<Rightarrow> 'a hctx_scheme" where
  "touch_global tier s = s\<lparr>global_hash_rings := fm_touch empty_ring tier (global_hash_rings s)\<rparr>"

definition touch_local :: "TierId \<Rightarrow> 'a hctx_scheme \<Rightarrow> 'a hctx_scheme" where
  "touch_local tier s = s\<lparr>local_hash_rings := fm_touch empty_ring tier (local_hash_rings s)\<rparr>"

definition replication_of :: "Key \<Rightarrow> 'a hctx_scheme \<Rightarrow> KeyReplication" where
  "replication_of key s = fm_at empty_KeyReplication (key_replication_map s) key"

definition touch_global_rep :: "Key \<Rightarrow> TierId \<Rightarrow> 'a hctx_scheme \<Rightarrow> 'a hctx_scheme" where
  "touch_global_rep key tier s = s\<lparr>key_replication_map :=
     fm_modify empty_KeyReplication key
       (\<lambda>r. r\<lparr>global_replication := fm_touch 0 tier (global_replication r)\<rparr>) (key_replication_map s)\<rparr>"

definition touch_local_rep :: "Key \<Rightarrow> TierId \<Rightarrow> 'a hctx_scheme \<Rightarrow> 'a hctx_scheme" where
  "touch_local_rep key tier s = s\<lparr>key_replication_map :=
     fm_modify empty_KeyReplication key
       (\<lambda>r. r\<lparr>local_replication := fm_touch 0 tier (local_replication r)\<rparr>) (key_replication_map s)\<rparr>"

definition threads_of_tier ::
  "env \<Rightarrow> Key \<Rightarrow> TierId \<Rightarrow> ServerThreadList \<times> 'a hctx_scheme \<Rightarrow>
   fault + (ServerThreadList \<times> 'a hctx_scheme)" where
  "threads_of_tier E key tier_id = (\<lambda>(result, s).
     let s = touch_global tier_id (touch_global_rep key tier_id s)
     in bindr (responsible_global E key
          (fm_at 0 (global_replication (replication_of key s)) tier_id) (global_ring tier_id s)) (\<lambda>threads.
        for_each (\<lambda>thread (result, s).
            let s = touch_local tier_id (touch_local_rep key tier_id s)
            in bindr (responsible_local E key
                 (fm_at 0 (local_replication (replication_of key s)) tier_id) (local_ring tier_id s))
               (\<lambda>tids. Inr (add_threads thread tids result, s)))
          threads (result, s)))"

definition get_responsible_threads ::
  "env \<Rightarrow> Address \<Rightarrow> Key \<Rightarrow> bool \<Rightarrow> TierId list \<Rightarrow> 'a hctx_scheme \<Rightarrow>
   fault + (ServerThreadList \<times> bool \<times> 'a hctx_scheme)" where
  "get_responsible_threads E response_address key metadata tier_ids s =
     (if metadata
      then let s = touch_local kMemoryTierId (touch_global kMemoryTierId s)
           in bindr (get_responsible_threads_metadata E key
                (global_ring kMemoryTierId s) (local_ring kMemoryTierId s))
              (\<lambda>threads. Inr (threads, True, s))
      else if \<not> fm_contains (key_replication_map s) key
      then let s = touch_local kMemoryTierId (touch_global kMemoryTierId s)
           in bindr (issue_replication_factor_request E response_address key
                (global_ring kMemoryTierId s) (local_ring kMemoryTierId s) s)
              (\<lambda>s. Inr ([], False, s))
      else bindr (for_each (threads_of_tier E key) tier_ids ([], s))
             (\<lambda>(result, s). Inr (result, True, s)))"

text \<open>
  The metadata requests of the monitor. The number drawn by \<open>rand()\<close> is an argument, and so is
  the clock reading of \<open>generate_timestamp\<close>.
\<close>

definition prepare_metadata_request ::
  "env \<Rightarrow> u32 \<Rightarrow> Key \<Rightarrow> GlobalHashRing \<Rightarrow> LocalHashRing \<Rightarrow> (Address, KeyRequest) fmap \<Rightarrow>
   Address \<Rightarrow> u32 \<Rightarrow> RequestType \<Rightarrow> fault + (Address \<times> (Address, KeyRequest) fmap \<times> u32)" where
  "prepare_metadata_request E rnd key gring lring addr_request_map response_address rid type =
     bindr (get_responsible_threads_metadata E key gring lring) (\<lambda>threads.
       if threads \<noteq> []
       then let target_address = st_key_request_connect_address (threads ! (unat rnd mod length threads))
            in if \<not> fm_contains addr_request_map target_address
               then Inr (target_address,
                      fmupd target_address
                        (empty_request\<lparr>q_type := type, q_response_address := Some response_address,
                           q_request_id := Some (response_address @ '':'' @ to_string rid)\<rparr>)
                        addr_request_map, rid + 1)
               else Inr (target_address, addr_request_map, rid)
       else Inr ([], addr_request_map, rid))"

definition prepare_metadata_get_request ::
  "env \<Rightarrow> u32 \<Rightarrow> Key \<Rightarrow> GlobalHashRing \<Rightarrow> LocalHashRing \<Rightarrow> (Address, KeyRequest) fmap \<Rightarrow>
   Address \<Rightarrow> u32 \<Rightarrow> fault + ((Address, KeyRequest) fmap \<times> u32)" where
  "prepare_metadata_get_request E rnd key gring lring addr_request_map response_address rid =
     bindr (prepare_metadata_request E rnd key gring lring addr_request_map
         response_address rid GET) (\<lambda>(target_address, m, rid).
       Inr (if target_address \<noteq> []
            then fm_modify empty_request target_address (\<lambda>req. prepare_get_tuple req key LWW) m
            else m, rid))"

definition prepare_metadata_put_request ::
  "env \<Rightarrow> u32 \<Rightarrow> u64 \<Rightarrow> Key \<Rightarrow> string \<Rightarrow> GlobalHashRing \<Rightarrow> LocalHashRing \<Rightarrow>
   (Address, KeyRequest) fmap \<Rightarrow> Address \<Rightarrow> u32 \<Rightarrow> fault + ((Address, KeyRequest) fmap \<times> u32)" where
  "prepare_metadata_put_request E rnd now key v gring lring addr_request_map
       response_address rid =
     bindr (prepare_metadata_request E rnd key gring lring addr_request_map
         response_address rid PUT) (\<lambda>(target_address, m, rid).
       if target_address \<noteq> []
       then bindr (generate_timestamp now 0) (\<lambda>ts.
              Inr (fm_modify empty_request target_address
                (\<lambda>req. prepare_put_tuple req key LWW (serialize_ts E ts v)) m, rid))
       else Inr (m, rid))"

end
