(* ===== verification/Kv_Storage.thy ===== *)
theory Kv_Storage
  imports Metadata Message_Laws
begin

text \<open>
  kvs/include/kvs/base_kv_store.hpp and server_utils.hpp: the per-lattice stores and the
  serializers through which the server reads and writes them.

  A memory store is the map inside its \<open>KVStore\<close>. The disk (EBS) serializers keep one file per
  key, whatever the lattice type; the file system is a map from file names to contents, and
  creating or truncating a file is taken to succeed. \<open>err_number\<close> is passed in and out.
\<close>

section \<open>base\_kv\_store.hpp\<close>

text \<open>\<open>d\<close> is the default-constructed lattice, \<open>mv\<close> its merge, \<open>sz\<close> its size.\<close>

definition kvs_get :: "'v \<Rightarrow> Key \<Rightarrow> u32 \<Rightarrow> (Key, 'v) fmap \<Rightarrow> 'v \<times> u32 \<times> (Key, 'v) fmap" where
  "kvs_get d k err_number db =
     (let err_number = (if \<not> map_contains k db then 1 else err_number);
          (v, db) = map_at d k db
      in (v, err_number, db))"

definition kvs_put :: "('v \<Rightarrow> 'v \<Rightarrow> 'v) \<Rightarrow> 'v \<Rightarrow> Key \<Rightarrow> 'v \<Rightarrow> (Key, 'v) fmap \<Rightarrow> (Key, 'v) fmap" where
  "kvs_put mv d k v db = fm_modify d k (\<lambda>old. mv old v) db"

definition kvs_size :: "('v \<Rightarrow> u32) \<Rightarrow> 'v \<Rightarrow> Key \<Rightarrow> (Key, 'v) fmap \<Rightarrow> u32 \<times> (Key, 'v) fmap" where
  "kvs_size sz d k db = (let (v, db) = map_at d k db in (sz v, db))"

definition kvs_remove :: "Key \<Rightarrow> (Key, 'v) fmap \<Rightarrow> (Key, 'v) fmap" where
  "kvs_remove k db = map_remove k db"

section \<open>Memory serializers\<close>

type_synonym AddressKeysetMap = "(Address, Key fset) fmap"

type_synonym MemoryLWWKVS = "(Key, TimestampValuePair) fmap"
type_synonym MemorySetKVS = "(Key, string fset) fmap"
type_synonym MemoryCausalKVS = "(Key, VectorClockValuePair) fmap"
type_synonym MemoryCrossCausalKVS = "(Key, CrossCausalPayload) fmap"

definition mem_lww_get :: "'a wire_scheme \<Rightarrow> Key \<Rightarrow> u32 \<Rightarrow> MemoryLWWKVS \<Rightarrow> string \<times> u32 \<times> MemoryLWWKVS" where
  "mem_lww_get w key err_number kvs =
     (let (val, err_number, kvs) = kvs_get lww_default key err_number kvs;
          err_number = (if tvp_value val = [] then 1 else err_number)
      in (serialize_lww w val, err_number, kvs))"

definition mem_lww_put :: "'a wire_scheme \<Rightarrow> Key \<Rightarrow> string \<Rightarrow> MemoryLWWKVS \<Rightarrow> u32 \<times> MemoryLWWKVS" where
  "mem_lww_put w key serialized kvs =
     (let val = deserialize_lww w serialized
      in kvs_size lww_size lww_default key (kvs_put lww_do_merge lww_default key val kvs))"

definition mem_lww_remove :: "Key \<Rightarrow> MemoryLWWKVS \<Rightarrow> MemoryLWWKVS" where
  "mem_lww_remove key kvs = kvs_remove key kvs"

definition mem_set_get :: "'a wire_scheme \<Rightarrow> Key \<Rightarrow> u32 \<Rightarrow> MemorySetKVS \<Rightarrow> string \<times> u32 \<times> MemorySetKVS" where
  "mem_set_get w key err_number kvs =
     (let (val, err_number, kvs) = kvs_get {||} key err_number kvs;
          err_number = (if set_size val = 0 then 1 else err_number)
      in (serialize_set w val, err_number, kvs))"

definition mem_set_put :: "'a wire_scheme \<Rightarrow> Key \<Rightarrow> string \<Rightarrow> MemorySetKVS \<Rightarrow> u32 \<times> MemorySetKVS" where
  "mem_set_put w key serialized kvs =
     (let sl = deserialize_set w serialized
      in kvs_size set_size {||} key (kvs_put set_do_merge {||} key sl kvs))"

definition mem_set_remove :: "Key \<Rightarrow> MemorySetKVS \<Rightarrow> MemorySetKVS" where
  "mem_set_remove key kvs = kvs_remove key kvs"

definition mem_ordered_set_get ::
  "'a wire_scheme \<Rightarrow> Key \<Rightarrow> u32 \<Rightarrow> MemorySetKVS \<Rightarrow> string \<times> u32 \<times> MemorySetKVS" where
  "mem_ordered_set_get w key err_number kvs =
     (let (val, err_number, kvs) = kvs_get {||} key err_number kvs;
          err_number = (if oset_size val = 0 then 1 else err_number)
      in (serialize_ordered_set w val, err_number, kvs))"

definition mem_ordered_set_put ::
  "'a wire_scheme \<Rightarrow> Key \<Rightarrow> string \<Rightarrow> MemorySetKVS \<Rightarrow> u32 \<times> MemorySetKVS" where
  "mem_ordered_set_put w key serialized kvs =
     (let sl = deserialize_ordered_set w serialized
      in kvs_size oset_size {||} key (kvs_put oset_do_merge {||} key sl kvs))"

definition mem_ordered_set_remove :: "Key \<Rightarrow> MemorySetKVS \<Rightarrow> MemorySetKVS" where
  "mem_ordered_set_remove key kvs = kvs_remove key kvs"

definition mem_causal_get ::
  "'a wire_scheme \<Rightarrow> Key \<Rightarrow> u32 \<Rightarrow> MemoryCausalKVS \<Rightarrow> string \<times> u32 \<times> MemoryCausalKVS" where
  "mem_causal_get w key err_number kvs =
     (let (val, err_number, kvs) = kvs_get vcp_default key err_number kvs;
          err_number = (if set_size (vcp_value val) = 0 then 1 else err_number)
      in (serialize_causal w val, err_number, kvs))"

definition mem_causal_put ::
  "'a wire_scheme \<Rightarrow> Key \<Rightarrow> string \<Rightarrow> MemoryCausalKVS \<Rightarrow> u32 \<times> MemoryCausalKVS" where
  "mem_causal_put w key serialized kvs =
     (let causal_value = deserialize_causal w serialized;
          p = to_vector_clock_value_pair causal_value
      in kvs_size vcp_size vcp_default key (kvs_put causal_do_merge vcp_default key p kvs))"

definition mem_causal_remove :: "Key \<Rightarrow> MemoryCausalKVS \<Rightarrow> MemoryCausalKVS" where
  "mem_causal_remove key kvs = kvs_remove key kvs"

definition mem_cross_causal_get ::
  "'a wire_scheme \<Rightarrow> Key \<Rightarrow> u32 \<Rightarrow> MemoryCrossCausalKVS \<Rightarrow> string \<times> u32 \<times> MemoryCrossCausalKVS" where
  "mem_cross_causal_get w key err_number kvs =
     (let (val, err_number, kvs) = kvs_get cc_default key err_number kvs;
          err_number = (if set_size (cc_value val) = 0 then 1 else err_number)
      in (serialize_cross_causal w val, err_number, kvs))"

definition mem_cross_causal_put ::
  "'a wire_scheme \<Rightarrow> Key \<Rightarrow> string \<Rightarrow> MemoryCrossCausalKVS \<Rightarrow> u32 \<times> MemoryCrossCausalKVS" where
  "mem_cross_causal_put w key serialized kvs =
     (let cross_causal_value = deserialize_cross_causal w serialized;
          p = to_cross_causal_payload cross_causal_value
      in kvs_size cc_size cc_default key (kvs_put cross_causal_do_merge cc_default key p kvs))"

definition mem_cross_causal_remove :: "Key \<Rightarrow> MemoryCrossCausalKVS \<Rightarrow> MemoryCrossCausalKVS" where
  "mem_cross_causal_remove key kvs = kvs_remove key kvs"

section \<open>EBS serializers\<close>

type_synonym files = "(string, string) fmap"

record EBS =
  ebs_tid :: u32
  ebs_root :: string

text \<open>The constructors: the configured root, with a slash appended unless it ends in one.\<close>

definition make_EBS :: "u32 \<Rightarrow> string \<Rightarrow> EBS" where
  "make_EBS tid conf_ebs =
     \<lparr>ebs_tid = tid, ebs_root = (if last conf_ebs \<noteq> CHR ''/'' then conf_ebs @ ''/'' else conf_ebs)\<rparr>"

definition ebs_fname :: "EBS \<Rightarrow> Key \<Rightarrow> string" where
  "ebs_fname e key = ebs_root e @ ''ebs_'' @ to_string (ebs_tid e) @ ''/'' @ key"

text \<open>\<open>SerializeToOstream\<close> of a message that lacks a required field writes nothing.\<close>

definition lww_written :: "'a wire_scheme \<Rightarrow> LWWValue \<Rightarrow> string" where
  "lww_written w v = (if lww_initialized v then ser_lww w v else [])"

text \<open>Writing a truncated file: the new contents and \<open>tellp()\<close>.\<close>

definition ebs_write :: "EBS \<Rightarrow> Key \<Rightarrow> string \<Rightarrow> files \<Rightarrow> u32 \<times> files" where
  "ebs_write e key contents fs = (of_nat (length contents), fmupd (ebs_fname e key) contents fs)"

definition ebs_lww_get :: "'a wire_scheme \<Rightarrow> EBS \<Rightarrow> Key \<Rightarrow> u32 \<Rightarrow> files \<Rightarrow> string \<times> u32" where
  "ebs_lww_get w e key err_number fs =
     (case fmlookup fs (ebs_fname e key) of
        None \<Rightarrow> ([], 1)
      | Some contents \<Rightarrow>
          (let (v, ok) = parse_lww w contents
           in if \<not> ok then ([], 1)
              else if from_option [] (lv_value v) = [] then ([], 1)
              else (ser_lww w v, err_number)))"

definition ebs_lww_put :: "'a wire_scheme \<Rightarrow> EBS \<Rightarrow> Key \<Rightarrow> string \<Rightarrow> files \<Rightarrow> u32 \<times> files" where
  "ebs_lww_put w e key serialized fs =
     (let input_value = fst (parse_lww w serialized)
      in case fmlookup fs (ebs_fname e key) of
           None \<Rightarrow> ebs_write e key (lww_written w input_value) fs
         | Some contents \<Rightarrow>
             (let (original_value, ok) = parse_lww w contents
              in if \<not> ok then (0, fs)
                 else if from_option 0 (lv_timestamp original_value) \<le> from_option 0 (lv_timestamp input_value)
                 then ebs_write e key (lww_written w input_value) fs
                 else ebs_write e key [] fs))"

definition ebs_set_get :: "'a wire_scheme \<Rightarrow> EBS \<Rightarrow> Key \<Rightarrow> u32 \<Rightarrow> files \<Rightarrow> string \<times> u32" where
  "ebs_set_get w e key err_number fs =
     (case fmlookup fs (ebs_fname e key) of
        None \<Rightarrow> ([], 1)
      | Some contents \<Rightarrow>
          (let (v, ok) = parse_set w contents
           in if \<not> ok then ([], 1)
              else if v = [] then ([], 1)
              else (ser_set w v, err_number)))"

definition ebs_set_put :: "'a wire_scheme \<Rightarrow> EBS \<Rightarrow> Key \<Rightarrow> string \<Rightarrow> files \<Rightarrow> u32 \<times> files" where
  "ebs_set_put w e key serialized fs =
     (let input_value = fst (parse_set w serialized)
      in case fmlookup fs (ebs_fname e key) of
           None \<Rightarrow> ebs_write e key (ser_set w input_value) fs
         | Some contents \<Rightarrow>
             (let (original_value, ok) = parse_set w contents
              in if \<not> ok then (0, fs)
                 else let set_union = fold finsert input_value (fold finsert original_value {||});
                          new_value = fold (\<lambda>val vs. vs @ [val]) (fs_elems set_union) []
                      in ebs_write e key (ser_set w new_value) fs))"

definition ebs_ordered_set_get :: "'a wire_scheme \<Rightarrow> EBS \<Rightarrow> Key \<Rightarrow> u32 \<Rightarrow> files \<Rightarrow> string \<times> u32" where
  "ebs_ordered_set_get w e key err_number fs =
     (case fmlookup fs (ebs_fname e key) of
        None \<Rightarrow> ([], 1)
      | Some contents \<Rightarrow>
          (let (v, ok) = parse_set w contents
           in if \<not> ok then ([], 1)
              else if v = [] then ([], 1)
              else (ser_set w v, err_number)))"

definition ebs_ordered_set_put :: "'a wire_scheme \<Rightarrow> EBS \<Rightarrow> Key \<Rightarrow> string \<Rightarrow> files \<Rightarrow> u32 \<times> files" where
  "ebs_ordered_set_put w e key serialized fs =
     (let input_value = fst (parse_set w serialized)
      in case fmlookup fs (ebs_fname e key) of
           None \<Rightarrow> ebs_write e key (ser_set w input_value) fs
         | Some contents \<Rightarrow>
             (let (original_value, ok) = parse_set w contents
              in if \<not> ok then (0, fs)
                 else let set_union = fold finsert input_value (fold finsert original_value {||});
                          new_value = fold (\<lambda>val vs. vs @ [val]) (fs_elems set_union) []
                      in ebs_write e key (ser_set w new_value) fs))"

definition ebs_causal_get :: "'a wire_scheme \<Rightarrow> EBS \<Rightarrow> Key \<Rightarrow> u32 \<Rightarrow> files \<Rightarrow> string \<times> u32" where
  "ebs_causal_get w e key err_number fs =
     (case fmlookup fs (ebs_fname e key) of
        None \<Rightarrow> ([], 1)
      | Some contents \<Rightarrow>
          (let (v, ok) = parse_causal w contents
           in if \<not> ok then ([], 1)
              else if cv_values v = [] then ([], 1)
              else (ser_causal w v, err_number)))"

text \<open>
  The loops of \<open>put\<close> that build \<open>orig_pair\<close> and \<open>input_pair\<close> are those of
  \<open>to_vector_clock_value_pair\<close>, the ones that build \<open>new_value\<close> those of \<open>serialize\<close>.
\<close>

definition ebs_causal_put :: "'a wire_scheme \<Rightarrow> EBS \<Rightarrow> Key \<Rightarrow> string \<Rightarrow> files \<Rightarrow> u32 \<times> files" where
  "ebs_causal_put w e key serialized fs =
     (let input_value = fst (parse_causal w serialized)
      in case fmlookup fs (ebs_fname e key) of
           None \<Rightarrow> ebs_write e key (ser_causal w input_value) fs
         | Some contents \<Rightarrow>
             (let (original_value, ok) = parse_causal w contents
              in if \<not> ok then (0, fs)
                 else let orig = to_vector_clock_value_pair original_value;
                          input = to_vector_clock_value_pair input_value;
                          orig = causal_do_merge orig input
                      in ebs_write e key (serialize_causal w orig) fs))"

definition ebs_cross_causal_get :: "'a wire_scheme \<Rightarrow> EBS \<Rightarrow> Key \<Rightarrow> u32 \<Rightarrow> files \<Rightarrow> string \<times> u32" where
  "ebs_cross_causal_get w e key err_number fs =
     (case fmlookup fs (ebs_fname e key) of
        None \<Rightarrow> ([], 1)
      | Some contents \<Rightarrow>
          (let (v, ok) = parse_cross w contents
           in if \<not> ok then ([], 1)
              else if ccv_values v = [] then ([], 1)
              else (ser_cross w v, err_number)))"

definition ebs_cross_causal_put :: "'a wire_scheme \<Rightarrow> EBS \<Rightarrow> Key \<Rightarrow> string \<Rightarrow> files \<Rightarrow> u32 \<times> files" where
  "ebs_cross_causal_put w e key serialized fs =
     (let input_value = fst (parse_cross w serialized)
      in case fmlookup fs (ebs_fname e key) of
           None \<Rightarrow> ebs_write e key (ser_cross w input_value) fs
         | Some contents \<Rightarrow>
             (let (original_value, ok) = parse_cross w contents
              in if \<not> ok then (0, fs)
                 else let orig = to_cross_causal_payload original_value;
                          input = to_cross_causal_payload input_value;
                          orig = cross_causal_do_merge orig input
                      in ebs_write e key (serialize_cross_causal w orig) fs))"

text \<open>\<open>remove\<close> is the same in the five classes; a missing file is reported on stderr.\<close>

definition ebs_remove :: "EBS \<Rightarrow> Key \<Rightarrow> files \<Rightarrow> files" where
  "ebs_remove e key fs = fmdrop (ebs_fname e key) fs"

section \<open>The serializer map\<close>

text \<open>
  \<open>SerializerMap\<close>: the five serializers of the tier, by lattice type. There is none for \<open>NO\<close>,
  for which \<open>operator[]\<close> yields a null pointer.
\<close>

record MemoryStores =
  lww_kvs :: MemoryLWWKVS
  set_kvs :: MemorySetKVS
  ordered_set_kvs :: MemorySetKVS
  causal_kvs :: MemoryCausalKVS
  cross_causal_kvs :: MemoryCrossCausalKVS

datatype storage = Memory MemoryStores | Disk EBS files

definition empty_memory :: storage where
  "empty_memory = Memory \<lparr>lww_kvs = fmempty, set_kvs = fmempty, ordered_set_kvs = fmempty,
     causal_kvs = fmempty, cross_causal_kvs = fmempty\<rparr>"

fun serializer_get ::
  "'a wire_scheme \<Rightarrow> LatticeType \<Rightarrow> Key \<Rightarrow> u32 \<Rightarrow> storage \<Rightarrow> fault + (string \<times> u32 \<times> storage)" where
  "serializer_get w NO key err st = Inl Null_pointer"
| "serializer_get w LWW key err (Memory m) =
     (let (r, err, kvs) = mem_lww_get w key err (lww_kvs m) in Inr (r, err, Memory (m\<lparr>lww_kvs := kvs\<rparr>)))"
| "serializer_get w SET key err (Memory m) =
     (let (r, err, kvs) = mem_set_get w key err (set_kvs m) in Inr (r, err, Memory (m\<lparr>set_kvs := kvs\<rparr>)))"
| "serializer_get w ORDERED_SET key err (Memory m) =
     (let (r, err, kvs) = mem_ordered_set_get w key err (ordered_set_kvs m)
      in Inr (r, err, Memory (m\<lparr>ordered_set_kvs := kvs\<rparr>)))"
| "serializer_get w CAUSAL key err (Memory m) =
     (let (r, err, kvs) = mem_causal_get w key err (causal_kvs m)
      in Inr (r, err, Memory (m\<lparr>causal_kvs := kvs\<rparr>)))"
| "serializer_get w CROSSCAUSAL key err (Memory m) =
     (let (r, err, kvs) = mem_cross_causal_get w key err (cross_causal_kvs m)
      in Inr (r, err, Memory (m\<lparr>cross_causal_kvs := kvs\<rparr>)))"
| "serializer_get w LWW key err (Disk e fs) = (let (r, err) = ebs_lww_get w e key err fs in Inr (r, err, Disk e fs))"
| "serializer_get w SET key err (Disk e fs) = (let (r, err) = ebs_set_get w e key err fs in Inr (r, err, Disk e fs))"
| "serializer_get w ORDERED_SET key err (Disk e fs) =
     (let (r, err) = ebs_ordered_set_get w e key err fs in Inr (r, err, Disk e fs))"
| "serializer_get w CAUSAL key err (Disk e fs) =
     (let (r, err) = ebs_causal_get w e key err fs in Inr (r, err, Disk e fs))"
| "serializer_get w CROSSCAUSAL key err (Disk e fs) =
     (let (r, err) = ebs_cross_causal_get w e key err fs in Inr (r, err, Disk e fs))"

fun serializer_put ::
  "'a wire_scheme \<Rightarrow> LatticeType \<Rightarrow> Key \<Rightarrow> string \<Rightarrow> storage \<Rightarrow> fault + (u32 \<times> storage)" where
  "serializer_put w NO key p st = Inl Null_pointer"
| "serializer_put w LWW key p (Memory m) =
     (let (n, kvs) = mem_lww_put w key p (lww_kvs m) in Inr (n, Memory (m\<lparr>lww_kvs := kvs\<rparr>)))"
| "serializer_put w SET key p (Memory m) =
     (let (n, kvs) = mem_set_put w key p (set_kvs m) in Inr (n, Memory (m\<lparr>set_kvs := kvs\<rparr>)))"
| "serializer_put w ORDERED_SET key p (Memory m) =
     (let (n, kvs) = mem_ordered_set_put w key p (ordered_set_kvs m)
      in Inr (n, Memory (m\<lparr>ordered_set_kvs := kvs\<rparr>)))"
| "serializer_put w CAUSAL key p (Memory m) =
     (let (n, kvs) = mem_causal_put w key p (causal_kvs m) in Inr (n, Memory (m\<lparr>causal_kvs := kvs\<rparr>)))"
| "serializer_put w CROSSCAUSAL key p (Memory m) =
     (let (n, kvs) = mem_cross_causal_put w key p (cross_causal_kvs m)
      in Inr (n, Memory (m\<lparr>cross_causal_kvs := kvs\<rparr>)))"
| "serializer_put w LWW key p (Disk e fs) = (let (n, fs) = ebs_lww_put w e key p fs in Inr (n, Disk e fs))"
| "serializer_put w SET key p (Disk e fs) = (let (n, fs) = ebs_set_put w e key p fs in Inr (n, Disk e fs))"
| "serializer_put w ORDERED_SET key p (Disk e fs) =
     (let (n, fs) = ebs_ordered_set_put w e key p fs in Inr (n, Disk e fs))"
| "serializer_put w CAUSAL key p (Disk e fs) = (let (n, fs) = ebs_causal_put w e key p fs in Inr (n, Disk e fs))"
| "serializer_put w CROSSCAUSAL key p (Disk e fs) =
     (let (n, fs) = ebs_cross_causal_put w e key p fs in Inr (n, Disk e fs))"

fun serializer_remove :: "LatticeType \<Rightarrow> Key \<Rightarrow> storage \<Rightarrow> fault + storage" where
  "serializer_remove NO key st = Inl Null_pointer"
| "serializer_remove LWW key (Memory m) = Inr (Memory (m\<lparr>lww_kvs := mem_lww_remove key (lww_kvs m)\<rparr>))"
| "serializer_remove SET key (Memory m) = Inr (Memory (m\<lparr>set_kvs := mem_set_remove key (set_kvs m)\<rparr>))"
| "serializer_remove ORDERED_SET key (Memory m) =
     Inr (Memory (m\<lparr>ordered_set_kvs := mem_ordered_set_remove key (ordered_set_kvs m)\<rparr>))"
| "serializer_remove CAUSAL key (Memory m) =
     Inr (Memory (m\<lparr>causal_kvs := mem_causal_remove key (causal_kvs m)\<rparr>))"
| "serializer_remove CROSSCAUSAL key (Memory m) =
     Inr (Memory (m\<lparr>cross_causal_kvs := mem_cross_causal_remove key (cross_causal_kvs m)\<rparr>))"
| "serializer_remove _ key (Disk e fs) = Inr (Disk e (ebs_remove e key fs))"

record PendingRequest =
  pr_type :: RequestType
  pr_lattice_type :: LatticeType
  pr_payload :: string
  pr_addr :: Address
  pr_response_id :: string

record PendingGossip =
  pg_lattice_type :: LatticeType
  pg_payload :: string

end
