(* ===== verification/Kvs_Server.thy ===== *)
theory Kvs_Server
  imports Hash_Ring Kv_Storage
begin

text \<open>
  The storage server: kvs/src/kvs/utils.cpp and the handlers of kvs/src/kvs. A worker thread's
  state is the record \<open>server\<close>: its variables of \<open>run\<close> in server.cpp, on top of the rings and
  the sent messages of \<open>hctx\<close>. A handler takes the decoded message and returns the new state or a
  fault. \<open>now\<close> stands for the clock readings of one call, in nanoseconds. Log lines are not
  modelled.
\<close>

section \<open>State\<close>

type_synonym TimePoint = int

record server = hctx +
  wt :: ServerThread
  pending_requests :: "(Key, PendingRequest list) fmap"
  pending_gossip :: "(Key, PendingGossip list) fmap"
  key_access_tracker :: "(Key, TimePoint multiset) fmap"
  stored_key_map :: "(Key, KeyProperty) fmap"
  local_changeset :: "Key fset"
  serializers :: storage
  access_count :: u32
  join_gossip_map :: AddressKeysetMap
  join_remove_set :: "Key fset"
  cache_ip_to_keys :: "(Address, Key fset) fmap"
  key_to_cache_ips :: "(Key, Address fset) fmap"
  routing_ips :: "Address list"
  monitoring_ips :: "Address list"
  self_join_count :: int
  extant_caches :: "Address fset"
  rid :: u32
  epoch :: u32
  working_time :: u64

section \<open>utils.cpp\<close>

definition process_get :: "env \<Rightarrow> Key \<Rightarrow> LatticeType \<Rightarrow> server \<Rightarrow> fault + (string \<times> u32 \<times> server)" where
  "process_get E key type s =
     bindr (serializer_get E type key 0 (serializers s))
       (\<lambda>(res, err_number, st). Inr (res, err_number, s\<lparr>serializers := st\<rparr>))"

definition process_put :: "env \<Rightarrow> Key \<Rightarrow> LatticeType \<Rightarrow> string \<Rightarrow> server \<Rightarrow> fault + server" where
  "process_put E key lattice_type payload s =
     bindr (serializer_put E lattice_type key payload (serializers s)) (\<lambda>(n, st).
       Inr (s\<lparr>serializers := st,
              stored_key_map := fm_modify empty_KeyProperty key
                (\<lambda>p. p\<lparr>kp_size := n, kp_type := lattice_type\<rparr>) (stored_key_map s)\<rparr>))"

definition stored_type :: "Key \<Rightarrow> server \<Rightarrow> LatticeType" where
  "stored_type key s = kp_type (fm_at empty_KeyProperty (stored_key_map s) key)"

definition send_gossip :: "env \<Rightarrow> AddressKeysetMap \<Rightarrow> server \<Rightarrow> fault + server" where
  "send_gossip E addr_keyset_map s =
     bindr (for_each (\<lambda>(address, keys) (gossip_map, s).
         let gossip_map = fm_modify empty_request address (\<lambda>r. r\<lparr>q_type := PUT\<rparr>) gossip_map
         in for_each (\<lambda>key (gossip_map, s).
              if \<not> fm_contains (stored_key_map s) key then Inr (gossip_map, s)
              else let type = stored_type key s
                   in bindr (process_get E key type s) (\<lambda>(res, err, s).
                        Inr (if err = 0
                             then fm_modify empty_request address
                                    (\<lambda>r. prepare_put_tuple r key type res) gossip_map
                             else gossip_map, s)))
            (fs_elems keys) (gossip_map, s))
       (fm_entries addr_keyset_map) (fmempty, s)) (\<lambda>(gossip_map, s).
       Inr (fold (\<lambda>(address, req). send address (Msg_request req)) (fm_entries gossip_map) s))"

definition is_primary_replica :: "env \<Rightarrow> Key \<Rightarrow> server \<Rightarrow> bool \<times> server" where
  "is_primary_replica E key s =
     (let tier = kSelfTierId E;
          s = touch_global_rep key tier s
      in if fm_at 0 (global_replication (replication_of key s)) tier = 0 then (False, s)
         else let (upper, s) =
                (if 1 < tier
                 then fold (\<lambda>tier_id (upper, s).
                        if tier_id < tier
                        then let s = touch_global_rep key tier_id s
                             in (upper \<or> 0 < fm_at 0 (global_replication (replication_of key s)) tier_id, s)
                        else (upper, s)) kAllTierIds (False, s)
                 else (False, s))
              in if upper then (False, s)
                 else let s = touch_global tier s;
                          gnodes = nodes (global_ring tier s);
                          gpos = chm_find (global_hash_key E key) gnodes
                      in if gpos \<noteq> length (fm_entries gnodes) \<and>
                            st_private_ip (wt s) = st_private_ip (snd (fm_entries gnodes ! gpos))
                         then let s = touch_local tier s;
                                  lnodes = nodes (local_ring tier s);
                                  lpos = chm_find (local_hash_key E key) lnodes
                              in (lpos \<noteq> length (fm_entries lnodes) \<and>
                                  st_tid (wt s) = st_tid (snd (fm_entries lnodes ! lpos)), s)
                         else (False, s))"

section \<open>Shared by the handlers\<close>

definition threads_for :: "env \<Rightarrow> Key \<Rightarrow> TierId list \<Rightarrow> server \<Rightarrow> fault + (ServerThreadList \<times> bool \<times> server)" where
  "threads_for E key tier_ids s =
     bindr (is_metadata key) (\<lambda>m.
       get_responsible_threads E (st_replication_response_connect_address (wt s)) key m tier_ids s)"

definition request_replication :: "env \<Rightarrow> Key \<Rightarrow> server \<Rightarrow> fault + server" where
  "request_replication E key s =
     (let s = touch_local kMemoryTierId (touch_global kMemoryTierId s)
      in issue_replication_factor_request E (st_replication_response_connect_address (wt s)) key
           (global_ring kMemoryTierId s) (local_ring kMemoryTierId s) s)"

definition is_responsible :: "ServerThreadList \<Rightarrow> server \<Rightarrow> bool" where
  "is_responsible threads s \<longleftrightarrow> list_ex (\<lambda>t. st_eq t (wt s)) threads"

definition push_request :: "Key \<Rightarrow> PendingRequest \<Rightarrow> server \<Rightarrow> server" where
  "push_request key r s = s\<lparr>pending_requests := fm_modify [] key (\<lambda>rs. rs @ [r]) (pending_requests s)\<rparr>"

definition push_gossip :: "Key \<Rightarrow> PendingGossip \<Rightarrow> server \<Rightarrow> server" where
  "push_gossip key g s = s\<lparr>pending_gossip := fm_modify [] key (\<lambda>gs. gs @ [g]) (pending_gossip s)\<rparr>"

definition track_access :: "TimePoint \<Rightarrow> Key \<Rightarrow> server \<Rightarrow> server" where
  "track_access now key s =
     s\<lparr>key_access_tracker := fm_modify {#} key (add_mset now) (key_access_tracker s),
       access_count := access_count s + 1\<rparr>"

text \<open>The type check before a put: no type given, or another type than the one stored.\<close>

definition put_refused :: "Key \<Rightarrow> LatticeType \<Rightarrow> server \<Rightarrow> bool" where
  "put_refused key lattice_type s \<longleftrightarrow>
     lattice_type = NO \<or>
     (fm_contains (stored_key_map s) key \<and> stored_type key s \<noteq> NO \<and> stored_type key s \<noteq> lattice_type)"

definition serve_get :: "env \<Rightarrow> Key \<Rightarrow> server \<Rightarrow> fault + (KeyTuple \<times> server)" where
  "serve_get E key s =
     (let tp = empty_tuple\<lparr>t_key := key\<rparr>
      in if \<not> fm_contains (stored_key_map s) key \<or> stored_type key s = NO
         then Inr (tp\<lparr>t_error := Some 1\<rparr>, s)
         else let type = stored_type key s
              in bindr (process_get E key type s) (\<lambda>(res, err, s).
                   Inr (tp\<lparr>t_lattice_type := Some type, t_payload := Some res, t_error := Some err\<rparr>, s)))"

definition serve_put :: "env \<Rightarrow> Key \<Rightarrow> LatticeType \<Rightarrow> string \<Rightarrow> server \<Rightarrow> fault + (KeyTuple \<times> server)" where
  "serve_put E key lattice_type payload s =
     (let tp = empty_tuple\<lparr>t_key := key\<rparr>
      in if put_refused key lattice_type s then Inr (tp, s)
         else bindr (process_put E key lattice_type payload s) (\<lambda>s.
              Inr (tp\<lparr>t_error := Some 0, t_lattice_type := Some lattice_type\<rparr>,
                   s\<lparr>local_changeset := finsert key (local_changeset s)\<rparr>)))"

section \<open>user\_request\_handler.cpp\<close>

definition user_request_tuple ::
  "env \<Rightarrow> TimePoint \<Rightarrow> KeyRequest \<Rightarrow> KeyTuple \<Rightarrow> KeyTuple list \<times> server \<Rightarrow> fault + (KeyTuple list \<times> server)" where
  "user_request_tuple E now request tuple = (\<lambda>(tps, s).
     let key = t_key tuple;
         payload = from_option [] (t_payload tuple);
         pend = \<lparr>pr_type = q_type request, pr_lattice_type = t_lattice tuple, pr_payload = payload,
                 pr_addr = from_option [] (q_response_address request),
                 pr_response_id = from_option [] (q_request_id request)\<rparr>
     in bindr (threads_for E key [kSelfTierId E] s) (\<lambda>(threads, succeed, s).
        if succeed
        then if \<not> is_responsible threads s
             then bindr (is_metadata key) (\<lambda>m.
                  if m
                  then Inr (tps @ [empty_tuple\<lparr>t_key := key, t_lattice_type := Some (t_lattice tuple),
                                     t_error := Some 2\<rparr>], s)
                  else bindr (request_replication E key s) (\<lambda>s. Inr (tps, push_request key pend s)))
             else bindr (case q_type request of
                           GET \<Rightarrow> serve_get E key s
                         | PUT \<Rightarrow> serve_put E key (t_lattice tuple) payload s) (\<lambda>(tp, s).
                  let cache_size = from_option 0 (t_address_cache_size tuple);
                      tp = (if t_address_cache_size tuple \<noteq> None \<and> 0 < cache_size \<and>
                               unat cache_size \<noteq> length threads
                            then tp\<lparr>t_invalidate := Some True\<rparr> else tp)
                  in Inr (tps @ [tp], track_access now key s))
        else Inr (tps, push_request key pend s)))"

definition user_request_handler :: "env \<Rightarrow> TimePoint \<Rightarrow> KeyRequest \<Rightarrow> server \<Rightarrow> fault + server" where
  "user_request_handler E now request s =
     bindr (for_each (user_request_tuple E now request) (q_tuples request) ([], s)) (\<lambda>(tps, s).
       let response = empty_response\<lparr>r_type := q_type request, r_tuples := tps,
             r_response_id := q_request_id request\<rparr>
       in case q_response_address request of
            Some addr \<Rightarrow> if tps \<noteq> [] then Inr (send addr (Msg_response response) s) else Inr s
          | None \<Rightarrow> Inr s)"

section \<open>gossip\_handler.cpp\<close>

definition gossip_tuple ::
  "env \<Rightarrow> KeyTuple \<Rightarrow> (Address, KeyRequest) fmap \<times> server \<Rightarrow> fault + ((Address, KeyRequest) fmap \<times> server)" where
  "gossip_tuple E tuple = (\<lambda>(gossip_map, s).
     let key = t_key tuple;
         pend = \<lparr>pg_lattice_type = t_lattice tuple, pg_payload = t_value tuple\<rparr>
     in bindr (threads_for E key [kSelfTierId E] s) (\<lambda>(threads, succeed, s).
        if succeed
        then if is_responsible threads s
             then if fm_contains (stored_key_map s) key \<and> stored_type key s \<noteq> t_lattice tuple
                  then Inr (gossip_map, s)
                  else bindr (process_put E key (t_lattice tuple) (t_value tuple) s) (\<lambda>s. Inr (gossip_map, s))
             else bindr (is_metadata key) (\<lambda>m.
                  if m
                  then Inr (fold (\<lambda>thread gossip_map.
                         fm_modify empty_request (st_gossip_connect_address thread)
                           (\<lambda>r. prepare_put_tuple r key (t_lattice tuple) (t_value tuple))
                           (if \<not> fm_contains gossip_map (st_gossip_connect_address thread)
                            then fm_modify empty_request (st_gossip_connect_address thread)
                                   (\<lambda>r. r\<lparr>q_type := PUT\<rparr>) gossip_map
                            else gossip_map)) threads gossip_map, s)
                  else bindr (request_replication E key s) (\<lambda>s. Inr (gossip_map, push_gossip key pend s)))
        else Inr (gossip_map, push_gossip key pend s)))"

definition gossip_handler :: "env \<Rightarrow> KeyRequest \<Rightarrow> server \<Rightarrow> fault + server" where
  "gossip_handler E gossip s =
     bindr (for_each (gossip_tuple E) (q_tuples gossip) (fmempty, s)) (\<lambda>(gossip_map, s).
       Inr (fold (\<lambda>(address, req). send address (Msg_request req)) (fm_entries gossip_map) s))"

section \<open>replication\_response\_handler.cpp\<close>

text \<open>Storing the factors of a \<open>ReplicationFactor\<close> message for a key.\<close>

definition store_replication :: "Key \<Rightarrow> ReplicationFactor \<Rightarrow> 'a hctx_scheme \<Rightarrow> 'a hctx_scheme" where
  "store_replication key rf s =
     s\<lparr>key_replication_map :=
        fold (\<lambda>r. set_local_replication key (rep_tier_id r) (rep_factor r)) (rf_local rf)
          (fold (\<lambda>r. set_global_replication key (rep_tier_id r) (rep_factor r)) (rf_global rf)
             (key_replication_map s))\<rparr>"

definition answer_pending ::
  "env \<Rightarrow> TimePoint \<Rightarrow> Key \<Rightarrow> ServerThreadList \<Rightarrow> bool \<Rightarrow> PendingRequest \<Rightarrow> server \<Rightarrow> fault + server" where
  "answer_pending E now key threads responsible request s =
     (let response = empty_response\<lparr>r_type := pr_type request,
            r_response_id := (if pr_response_id request \<noteq> [] then Some (pr_response_id request) else None)\<rparr>
      in if \<not> responsible \<and> pr_addr request \<noteq> []
         then Inr (send (pr_addr request) (Msg_response (response\<lparr>r_tuples :=
                [empty_tuple\<lparr>t_key := key, t_error := Some 2,
                   t_addresses := map st_key_request_connect_address threads\<rparr>]\<rparr>)) s)
         else if responsible \<and> pr_addr request = []
         then if pr_type request = PUT
              then if put_refused key (pr_lattice_type request) s then Inr s
                   else bindr (process_put E key (pr_lattice_type request) (pr_payload request) s) (\<lambda>s.
                        let s = track_access now key s
                        in Inr (s\<lparr>local_changeset := finsert key (local_changeset s)\<rparr>))
              else Inr s
         else if responsible \<and> pr_addr request \<noteq> []
         then bindr (case pr_type request of
                       GET \<Rightarrow> serve_get E key s
                     | PUT \<Rightarrow> serve_put E key (pr_lattice_type request) (pr_payload request) s) (\<lambda>(tp, s).
              Inr (send (pr_addr request) (Msg_response (response\<lparr>r_tuples := [tp]\<rparr>)) (track_access now key s)))
         else Inr s)"

definition drain_requests :: "env \<Rightarrow> TimePoint \<Rightarrow> Key \<Rightarrow> server \<Rightarrow> fault + server" where
  "drain_requests E now key s =
     (if fm_contains (pending_requests s) key
      then bindr (threads_for E key [kSelfTierId E] s) (\<lambda>(threads, succeed, s).
           bindr (if succeed
                  then for_each (answer_pending E now key threads (is_responsible threads s))
                         (fm_at [] (pending_requests s) key) s
                  else Inr s) (\<lambda>s.
           Inr (s\<lparr>pending_requests := fmdrop key (pending_requests s)\<rparr>)))
      else Inr s)"

definition drain_gossip :: "env \<Rightarrow> Key \<Rightarrow> server \<Rightarrow> fault + server" where
  "drain_gossip E key s =
     (if fm_contains (pending_gossip s) key
      then bindr (threads_for E key [kSelfTierId E] s) (\<lambda>(threads, succeed, s).
           let gossips = fm_at [] (pending_gossip s) key
           in bindr (if succeed
                  then if is_responsible threads s
                       then for_each (\<lambda>g s.
                              if fm_contains (stored_key_map s) key \<and> stored_type key s \<noteq> NO \<and>
                                 stored_type key s \<noteq> pg_lattice_type g
                              then Inr s
                              else process_put E key (pg_lattice_type g) (pg_payload g) s) gossips s
                       else Inr (fold (\<lambda>(address, req). send address (Msg_request req))
                              (fm_entries (fold (\<lambda>thread gossip_map.
                                 fold (\<lambda>g. fm_modify empty_request (st_gossip_connect_address thread)
                                        (\<lambda>r. prepare_put_tuple r key (pg_lattice_type g) (pg_payload g))) gossips
                                   (fm_modify empty_request (st_gossip_connect_address thread)
                                      (\<lambda>r. r\<lparr>q_type := PUT\<rparr>) gossip_map)) threads fmempty)) s)
                  else Inr s) (\<lambda>s.
           Inr (s\<lparr>pending_gossip := fmdrop key (pending_gossip s)\<rparr>)))
      else Inr s)"

definition replication_response_handler :: "env \<Rightarrow> TimePoint \<Rightarrow> KeyResponse \<Rightarrow> server \<Rightarrow> fault + server" where
  "replication_response_handler E now response s =
     bindr (vec_at (r_tuples response) 0) (\<lambda>tuple.
     bindr (get_key_from_metadata (t_key tuple)) (\<lambda>key.
       let drain = (\<lambda>s. bindr (drain_requests E now key s) (drain_gossip E key))
       in if t_err tuple = 0
          then let lww_value = fst (parse_lww E (t_value tuple));
                   rep_data = fst (parse_rep E (from_option [] (lv_value lww_value)))
               in drain (store_replication key rep_data s)
          else if t_err tuple = 1
          then drain (s\<lparr>key_replication_map := init_replication E (key_replication_map s) key\<rparr>)
          else if t_err tuple = 2 then request_replication E key s
          else Inr s))"

end
