(* ===== verification/Kvs_Node.thy ===== *)
theory Kvs_Node
  imports Kvs_Server
begin

text \<open>
  The rest of the storage server: the handlers for changes of replication factors and of the
  cluster's membership, the tracking of caches, and the periodic work and the start-up of the
  event loop of kvs/src/kvs/server.cpp. The answers of the management node and of the seed node,
  and which timers are due, are arguments.
\<close>

definition add_key :: "Address \<Rightarrow> Key \<Rightarrow> AddressKeysetMap \<Rightarrow> AddressKeysetMap" where
  "add_key address key m = fm_modify {||} address (finsert key) m"

definition self_public_ip :: "server \<Rightarrow> Address" where
  "self_public_ip s = st_public_ip (wt s)"

definition self_private_ip :: "server \<Rightarrow> Address" where
  "self_private_ip s = st_private_ip (wt s)"

text \<open>Thread 0 passes a message on to the other worker threads of its node.\<close>

definition worker_tids :: "env \<Rightarrow> u32 list" where
  "worker_tids E = map of_nat [1..<unat (kThreadNum E)]"

definition tell_workers :: "env \<Rightarrow> (ServerThread \<Rightarrow> Address) \<Rightarrow> message \<Rightarrow> server \<Rightarrow> server" where
  "tell_workers E addr msg s =
     fold (\<lambda>tid s. send (addr (make_ServerThread (self_public_ip s) (self_private_ip s) tid)) msg s)
       (worker_tids E) s"

section \<open>replication\_change\_handler.cpp\<close>

text \<open>Updating the factors of one kind and noting whether one of them was reduced.\<close>

definition update_global :: "Key \<Rightarrow> Replication list \<Rightarrow> bool \<times> server \<Rightarrow> bool \<times> server" where
  "update_global key reps ds =
     fold (\<lambda>r (decrement, s).
        (decrement \<or> rep_factor r < fm_at 0 (global_replication (replication_of key s)) (rep_tier_id r),
         s\<lparr>key_replication_map :=
             set_global_replication key (rep_tier_id r) (rep_factor r) (key_replication_map s)\<rparr>)) reps ds"

definition update_local :: "Key \<Rightarrow> Replication list \<Rightarrow> bool \<times> server \<Rightarrow> bool \<times> server" where
  "update_local key reps ds =
     fold (\<lambda>r (decrement, s).
        (decrement \<or> rep_factor r < fm_at 0 (local_replication (replication_of key s)) (rep_tier_id r),
         s\<lparr>key_replication_map :=
             set_local_replication key (rep_tier_id r) (rep_factor r) (key_replication_map s)\<rparr>)) reps ds"

definition replication_change_key ::
  "env \<Rightarrow> ReplicationFactor \<Rightarrow> AddressKeysetMap \<times> Key fset \<times> server \<Rightarrow>
   fault + (AddressKeysetMap \<times> Key fset \<times> server)" where
  "replication_change_key E key_rep = (\<lambda>(addr_keyset_map, remove_set, s).
     let key = rf_key key_rep
     in if fm_contains (stored_key_map s) key
        then bindr (threads_for E key kAllTierIds s) (\<lambda>(orig_threads, succeed, s).
             if succeed
             then let (decrement, s) = update_local key (rf_local key_rep)
                        (update_global key (rf_global key_rep) (False, s))
                  in bindr (threads_for E key kAllTierIds s) (\<lambda>(threads, succeed, s).
                     if succeed
                     then let gone = \<not> is_responsible threads s;
                              remove_set = (if gone then finsert key remove_set else remove_set);
                              addr_keyset_map = (if gone
                                then fold (\<lambda>t. add_key (st_gossip_connect_address t) key) threads addr_keyset_map
                                else addr_keyset_map)
                          in if decrement then Inr (addr_keyset_map, remove_set, s)
                             else bindr (vec_at orig_threads 0) (\<lambda>first.
                                  if st_id first = st_id (wt s)
                                  then let new_threads = fold (\<lambda>t ts.
                                             if \<not> list_ex (\<lambda>u. st_eq u t) orig_threads
                                             then tset_insert t ts else ts) threads fmempty
                                       in Inr (fold (\<lambda>t. add_key (st_gossip_connect_address t) key)
                                                 (tset_elems new_threads) addr_keyset_map, remove_set, s)
                                  else Inr (addr_keyset_map, remove_set, s))
                     else Inr (addr_keyset_map, remove_set, s))
             else Inr (addr_keyset_map, remove_set, store_replication key key_rep s))
        else Inr (addr_keyset_map, remove_set, store_replication key key_rep s))"

definition remove_key :: "Key \<Rightarrow> server \<Rightarrow> fault + server" where
  "remove_key key s =
     bindr (serializer_remove (stored_type key s) key (serializers s)) (\<lambda>st.
       Inr (s\<lparr>serializers := st, stored_key_map := fmdrop key (stored_key_map s)\<rparr>))"

definition replication_change_handler :: "env \<Rightarrow> ReplicationFactorUpdate \<Rightarrow> server \<Rightarrow> fault + server" where
  "replication_change_handler E rep_change s =
     (let s = (if st_tid (wt s) = 0
               then tell_workers E st_replication_change_connect_address (Msg_replication rep_change) s else s)
      in bindr (for_each (replication_change_key E) rep_change (fmempty, {||}, s))
           (\<lambda>(addr_keyset_map, remove_set, s).
         bindr (send_gossip E addr_keyset_map s) (\<lambda>s.
         for_each (\<lambda>key s. bindr (remove_key key s) (\<lambda>s.
              Inr (s\<lparr>local_changeset := local_changeset s |-| {|key|}\<rparr>))) (fs_elems remove_set) s)))"

section \<open>node\_join\_handler.cpp\<close>

text \<open>The servers of all rings, tier by tier.\<close>

definition all_servers :: "'a hctx_scheme \<Rightarrow> ServerThread list" where
  "all_servers s = concat (map (\<lambda>(tier, ring). tset_elems (unique_servers ring)) (fm_entries (global_hash_rings s)))"

definition join_message :: "env \<Rightarrow> string \<Rightarrow> server \<Rightarrow> string" where
  "join_message E count_str s =
     to_string (kSelfTierId E) @ '':'' @ self_public_ip s @ '':'' @ self_private_ip s @ '':'' @ count_str"

text \<open>\<open>std::to_string\<close> of an \<open>int\<close>.\<close>

definition int_to_string :: "int \<Rightarrow> string" where
  "int_to_string i = (if i < 0 then ''-'' @ nat_to_string (nat (- i)) else nat_to_string (nat i))"

definition join_key :: "env \<Rightarrow> Address \<Rightarrow> int \<Rightarrow> Key \<Rightarrow> server \<Rightarrow> fault + server" where
  "join_key E new_server_private_ip join_count key s =
     bindr (threads_for E key [kSelfTierId E] s) (\<lambda>(threads, succeed, s).
       if succeed
       then if 0 < join_count
            then Inr (s\<lparr>join_gossip_map := fold (\<lambda>t m.
                   if st_private_ip t = new_server_private_ip
                   then add_key (st_gossip_connect_address t) key m else m) threads (join_gossip_map s)\<rparr>)
            else if join_count = 0 \<and> \<not> is_responsible threads s
            then Inr (s\<lparr>join_remove_set := finsert key (join_remove_set s),
                   join_gossip_map := fold (\<lambda>t. add_key (st_gossip_connect_address t) key) threads
                     (join_gossip_map s)\<rparr>)
            else Inr s
       else Inr s)"

definition node_join_handler :: "env \<Rightarrow> string \<Rightarrow> server \<Rightarrow> fault + server" where
  "node_join_handler E serialized s =
     (let v = split serialized CHR '':''
      in bindr (vec_at v 0) (\<lambda>v0. bindr (stoi v0) (\<lambda>tier_int.
         bindr (vec_at v 1) (\<lambda>new_server_public_ip. bindr (vec_at v 2) (\<lambda>new_server_private_ip.
         bindr (vec_at v 3) (\<lambda>v3. bindr (stoi v3) (\<lambda>join_count.
         let tier = word_of_int tier_int;
             (ring, inserted) = ring_insert (global_hash_thread E) new_server_public_ip
               new_server_private_ip join_count 0 (global_ring tier s);
             s = s\<lparr>global_hash_rings := fmupd tier ring (global_hash_rings s)\<rparr>
         in if inserted
            then let s = (if st_tid (wt s) = 0
                   then let s = send (st_node_join_connect_address
                              (make_ServerThread new_server_public_ip new_server_private_ip 0))
                              (Msg_string (join_message E (int_to_string (self_join_count s)) s)) s;
                            s = fold (\<lambda>st s.
                              if st_private_ip st \<noteq> self_private_ip s \<and> st_private_ip st \<noteq> new_server_private_ip
                              then send (st_node_join_connect_address st) (Msg_string serialized) s else s)
                              (all_servers s) s
                        in tell_workers E st_node_join_connect_address (Msg_string serialized) s
                   else s)
                 in if tier = kSelfTierId E
                    then for_each (\<lambda>(key, prop). join_key E new_server_private_ip join_count key)
                           (fm_entries (stored_key_map s)) s
                    else Inr s
            else Inr s)))))))"

section \<open>node\_depart\_handler.cpp\<close>

definition node_depart_handler :: "env \<Rightarrow> string \<Rightarrow> server \<Rightarrow> fault + server" where
  "node_depart_handler E serialized s =
     (let v = split serialized CHR '':''
      in bindr (vec_at v 0) (\<lambda>v0. bindr (stoi v0) (\<lambda>tier_int.
         bindr (vec_at v 1) (\<lambda>departing_public_ip. bindr (vec_at v 2) (\<lambda>departing_private_ip.
         let tier = word_of_int tier_int;
             s = s\<lparr>global_hash_rings := fmupd tier
               (ring_remove (global_hash_thread E) departing_public_ip departing_private_ip 0 (global_ring tier s))
               (global_hash_rings s)\<rparr>
         in Inr (if st_tid (wt s) = 0
                 then tell_workers E st_node_depart_connect_address (Msg_string serialized) s else s))))))"

section \<open>self\_depart\_handler.cpp\<close>

definition depart_key :: "env \<Rightarrow> Key \<Rightarrow> AddressKeysetMap \<times> server \<Rightarrow> fault + (AddressKeysetMap \<times> server)" where
  "depart_key E key = (\<lambda>(addr_keyset_map, s).
     bindr (threads_for E key kAllTierIds s) (\<lambda>(threads, succeed, s).
       Inr (if succeed
            then fold (\<lambda>t. add_key (st_gossip_connect_address t) key) threads addr_keyset_map
            else addr_keyset_map, s)))"

definition self_depart_handler :: "env \<Rightarrow> Address \<Rightarrow> server \<Rightarrow> fault + server" where
  "self_depart_handler E serialized s =
     (let tier = kSelfTierId E;
          s = s\<lparr>global_hash_rings := fmupd tier
            (ring_remove (global_hash_thread E) (self_public_ip s) (self_private_ip s) 0 (global_ring tier s))
            (global_hash_rings s)\<rparr>;
          s = (if st_tid (wt s) = 0
               then let msg = to_string tier @ '':'' @ self_public_ip s @ '':'' @ self_private_ip s;
                        s = fold (\<lambda>st. send (st_node_depart_connect_address st) (Msg_string msg)) (all_servers s) s;
                        msg = ''depart:'' @ msg;
                        s = fold (\<lambda>a. send (rt_notify_connect_address (make_RoutingThread a 0)) (Msg_string msg))
                              (routing_ips s) s;
                        s = fold (\<lambda>a. send (mt_notify_connect_address (make_MonitoringThread a)) (Msg_string msg))
                              (monitoring_ips s) s
                    in tell_workers E st_self_depart_connect_address (Msg_string serialized) s
               else s)
      in bindr (for_each (\<lambda>(key, prop). depart_key E key) (fm_entries (stored_key_map s)) (fmempty, s))
           (\<lambda>(addr_keyset_map, s).
         bindr (send_gossip E addr_keyset_map s) (\<lambda>s.
         Inr (send serialized (Msg_string (self_public_ip s @ ''_'' @ self_private_ip s @ ''_'' @
                to_string (kSelfTierId E))) s))))"

section \<open>cache\_ip\_response\_handler.cpp\<close>

definition cache_ip_tuple :: "env \<Rightarrow> KeyTuple \<Rightarrow> server \<Rightarrow> fault + server" where
  "cache_ip_tuple E tuple s =
     (if t_err tuple = 0
      then bindr (get_key_from_user_metadata (t_key tuple)) (\<lambda>cache_ip.
        let lww_value = fst (parse_lww E (t_value tuple));
            keys = fst (parse_keyset E (from_option [] (lv_value lww_value)));
            deleted_keys = fold (\<lambda>k old. old |-| {|k|}) keys (fm_at {||} (cache_ip_to_keys s) cache_ip);
            k2c = fold (\<lambda>k m. fm_modify {||} k (\<lambda>ips. ips |-| {|cache_ip|}) m) (fs_elems deleted_keys)
              (key_to_cache_ips s);
            c2k = fmupd cache_ip {||} (cache_ip_to_keys s);
            (c2k, k2c) = fold (\<lambda>k (c2k, k2c).
                (fm_modify {||} cache_ip (finsert k) c2k, fm_modify {||} k (finsert cache_ip) k2c))
              keys (c2k, k2c)
        in Inr (s\<lparr>cache_ip_to_keys := c2k, key_to_cache_ips := k2c\<rparr>))
      else Inr s)"

definition cache_ip_response_handler :: "env \<Rightarrow> KeyResponse \<Rightarrow> server \<Rightarrow> fault + server" where
  "cache_ip_response_handler E response s = for_each (cache_ip_tuple E) (r_tuples response) s"


section \<open>server.cpp: start-up\<close>

definition kServerReportThreshold :: nat where
  "kServerReportThreshold = 15"

definition kKeyMonitoringThreshold :: int where
  "kKeyMonitoringThreshold = 60"

definition data_redistribute_threshold :: nat where
  "data_redistribute_threshold = 50"

text \<open>
  \<open>access_count\<close> is declared without an initial value: what it holds is the argument
  \<open>garbage\<close>. \<open>time0\<close> is \<open>time(NULL)\<close>, \<open>count_str\<close> the management node's answer (or \<open>"0"\<close>),
  \<open>fs\<close> the contents of the disk. A tier that is neither memory nor EBS exits: \<open>None\<close>.
\<close>

definition initial_storage :: "env \<Rightarrow> u32 \<Rightarrow> string \<Rightarrow> files \<Rightarrow> storage option" where
  "initial_storage E thread_id conf_ebs fs =
     (if kSelfTierId E = kMemoryTierId then Some empty_memory
      else if kSelfTierId E = kEbsTierId then Some (Disk (make_EBS thread_id conf_ebs) fs)
      else None)"

definition populate_global :: "env \<Rightarrow> TierMembership \<Rightarrow> (TierId, GlobalHashRing) fmap \<Rightarrow> (TierId, GlobalHashRing) fmap" where
  "populate_global E membership rings =
     fold (\<lambda>(tier_id, servers) rings.
        fold (\<lambda>server rings. fm_modify empty_ring tier_id
            (\<lambda>ring. fst (ring_insert (global_hash_thread E) (ms_public_ip server) (ms_private_ip server) 0 0 ring))
            rings) servers rings) membership rings"

definition form_local_rings :: "env \<Rightarrow> Address \<Rightarrow> Address \<Rightarrow> (TierId, LocalHashRing) fmap" where
  "form_local_rings E public_ip private_ip =
     fold (\<lambda>(tier_id, tier) rings.
        fold (\<lambda>tid rings. fm_modify empty_ring (tm_id tier)
            (\<lambda>ring. fst (ring_insert (local_hash_thread E) public_ip private_ip 0 tid ring)) rings)
          (map of_nat [0..<unat (tm_thread_number tier)]) rings)
       (fm_entries (kTierMetadata E)) fmempty"

definition server_start ::
  "env \<Rightarrow> u32 \<Rightarrow> Address \<Rightarrow> Address \<Rightarrow> Address list \<Rightarrow> Address list \<Rightarrow> u32 \<Rightarrow> u32 \<Rightarrow> string \<Rightarrow>
   TierMembership \<Rightarrow> string \<Rightarrow> files \<Rightarrow> fault + server option" where
  "server_start E thread_id public_ip private_ip routing monitoring time0 garbage count_str
       membership conf_ebs fs =
     bindr (stoi count_str) (\<lambda>join_count.
       let rings = populate_global E membership fmempty;
           rings = fm_modify empty_ring (kSelfTierId E)
             (\<lambda>ring. fst (ring_insert (global_hash_thread E) public_ip private_ip join_count 0 ring)) rings
       in case initial_storage E thread_id conf_ebs fs of
            None \<Rightarrow> Inr None
          | Some st \<Rightarrow>
              let s = \<lparr>global_hash_rings = rings, local_hash_rings = form_local_rings E public_ip private_ip,
                    key_replication_map = fmempty, seed = time0 + thread_id, out = [],
                    wt = make_ServerThread public_ip private_ip thread_id, pending_requests = fmempty,
                    pending_gossip = fmempty, key_access_tracker = fmempty, stored_key_map = fmempty,
                    local_changeset = {||}, serializers = st, access_count = garbage,
                    join_gossip_map = fmempty, join_remove_set = {||}, cache_ip_to_keys = fmempty,
                    key_to_cache_ips = fmempty, routing_ips = routing, monitoring_ips = monitoring,
                    self_join_count = join_count, extant_caches = {||}, rid = 0, epoch = 0, working_time = 0\<rparr>
              in Inr (Some (if thread_id = 0
                   then let msg = join_message E count_str s;
                            s = fold (\<lambda>st s. if st_private_ip st \<noteq> private_ip
                                  then send (st_node_join_connect_address st) (Msg_string msg) s else s)
                                (all_servers s) s;
                            msg = ''join:'' @ msg;
                            s = fold (\<lambda>a. send (rt_notify_connect_address (make_RoutingThread a 0)) (Msg_string msg))
                                  routing s
                        in fold (\<lambda>a. send (mt_notify_connect_address (make_MonitoringThread a)) (Msg_string msg))
                             monitoring s
                   else s)))"

section \<open>server.cpp: periodic work\<close>

text \<open>Gossip of the local changes, due every \<open>PERIOD\<close>.\<close>

definition gossip_key :: "env \<Rightarrow> Key \<Rightarrow> AddressKeysetMap \<times> server \<Rightarrow> fault + (AddressKeysetMap \<times> server)" where
  "gossip_key E key = (\<lambda>(m, s).
     bindr (threads_for E key kAllTierIds s) (\<lambda>(threads, succeed, s).
       let m = (if succeed
                then fold (\<lambda>t m. if \<not> st_eq t (wt s) then add_key (st_gossip_connect_address t) key m else m) threads m
                else m);
           m = (if fm_contains (key_to_cache_ips s) key
                then fold (\<lambda>ip. add_key (ct_cache_update_connect_address (make_CacheThread ip 0)) key)
                       (fs_elems (fm_at {||} (key_to_cache_ips s) key)) m
                else m)
       in Inr (m, s)))"

definition gossip_epoch :: "env \<Rightarrow> server \<Rightarrow> fault + server" where
  "gossip_epoch E s =
     (if local_changeset s \<noteq> {||}
      then bindr (for_each (gossip_key E) (fs_elems (local_changeset s)) (fmempty, s)) (\<lambda>(addr_keyset_map, s).
           bindr (send_gossip E addr_keyset_map s) (\<lambda>s. Inr (s\<lparr>local_changeset := {||}\<rparr>)))
      else Inr s)"

text \<open>
  The statistics report, due every \<open>kServerReportThreshold\<close> seconds. \<open>report_put\<close> sends one
  of the three metadata records to a random responsible thread, if there is one.
\<close>

definition report_put :: "env \<Rightarrow> u64 \<Rightarrow> MetadataType \<Rightarrow> string \<Rightarrow> server \<Rightarrow> fault + server" where
  "report_put E ts type payload s =
     (let key = get_server_metadata_key (wt s) (kSelfTierId E) (st_tid (wt s)) type;
          req = prepare_put_tuple (empty_request\<lparr>q_type := PUT\<rparr>) key LWW (serialize_ts E ts payload);
          s = touch_local kMemoryTierId (touch_global kMemoryTierId s)
      in bindr (get_responsible_threads_metadata E key (global_ring kMemoryTierId s) (local_ring kMemoryTierId s))
           (\<lambda>threads.
         if threads \<noteq> []
         then let (seed', r) = rand_r E (seed s)
              in Inr (send (st_key_request_connect_address (threads ! (unat r mod length threads)))
                        (Msg_request req) (s\<lparr>seed := seed'\<rparr>))
         else Inr s))"

definition consumption :: "server \<Rightarrow> u64" where
  "consumption s = fold (\<lambda>(key, prop) n. n + ucast (kp_size prop)) (fm_entries (stored_key_map s)) 0"

text \<open>
  The access times that are counted: a copy of the tracked times from which the first one that is
  a minute old (and its equals) is dropped. The tracker itself keeps all of them.
\<close>

definition counted_accesses :: "TimePoint \<Rightarrow> TimePoint multiset \<Rightarrow> TimePoint multiset" where
  "counted_accesses now ts =
     (case List.find (\<lambda>t. kKeyMonitoringThreshold \<le> (now - t) div 1000000000)
             (sorted_list_of_multiset ts) of
        None \<Rightarrow> ts
      | Some t \<Rightarrow> filter_mset (\<lambda>u. u \<noteq> t) ts)"

definition access_data :: "TimePoint \<Rightarrow> server \<Rightarrow> KeyAccessData" where
  "access_data now s =
     map (\<lambda>(key, ts). (key, of_nat (size (counted_accesses now ts)))) (fm_entries (key_access_tracker s))"

definition primary_sizes :: "env \<Rightarrow> server \<Rightarrow> KeySizeData \<times> server" where
  "primary_sizes E s =
     fold (\<lambda>(key, prop) (sizes, s).
        let (primary, s) = is_primary_replica E key s
        in (if primary then sizes @ [(key, kp_size prop)] else sizes, s))
       (fm_entries (stored_key_map s)) ([], s)"

text \<open>Replacing the list of caches, and forgetting the ones that are gone.\<close>

definition update_caches :: "Address list \<Rightarrow> server \<Rightarrow> server" where
  "update_caches func_nodes s =
     (let (deleted_caches, extant) = fold (\<lambda>n (del, ext). (del |-| {|n|}, finsert n ext)) func_nodes
            (extant_caches s, {||})
      in fold (\<lambda>ip s. s\<lparr>cache_ip_to_keys := fmdrop ip (cache_ip_to_keys s),
                         key_to_cache_ips := fmmap (\<lambda>ips. ips |-| {|ip|}) (key_to_cache_ips s)\<rparr>)
           (fs_elems deleted_caches) (s\<lparr>extant_caches := extant\<rparr>))"

text \<open>The numbers drawn by \<open>rand()\<close> for the cache-IP requests are given by \<open>rnd\<close>.\<close>

definition request_cache_keys :: "env \<Rightarrow> (nat \<Rightarrow> u32) \<Rightarrow> server \<Rightarrow> fault + server" where
  "request_cache_keys E rnd s =
     bindr (for_each (\<lambda>(i, ip) (m, s).
         let s = touch_local kMemoryTierId (touch_global kMemoryTierId s)
         in bindr (prepare_metadata_get_request E (rnd i) (get_user_metadata_key ip cache_ip)
              (global_ring kMemoryTierId s) (local_ring kMemoryTierId s) m
              (st_cache_ip_response_connect_address (wt s)) (rid s)) (\<lambda>(m, r). Inr (m, s\<lparr>rid := r\<rparr>)))
       (enumerate 0 (fs_elems (extant_caches s))) (fmempty, s)) (\<lambda>(m, s).
       Inr (fold (\<lambda>(addr, req). send addr (Msg_request req)) (fm_entries m) s))"

definition report_epoch ::
  "env \<Rightarrow> TimePoint \<Rightarrow> u64 \<Rightarrow> nat \<Rightarrow> Address list \<Rightarrow> (nat \<Rightarrow> u32) \<Rightarrow> server \<Rightarrow> fault + server" where
  "report_epoch E now ms duration func_nodes rnd s =
     (let s = s\<lparr>epoch := epoch s + 1\<rparr>
      in bindr (generate_timestamp ms (st_tid (wt s))) (\<lambda>ts.
         let stat = \<lparr>sts_storage_consumption = consumption s div 1000,
               sts_occupancy = of_nat (unat (working_time s)) / (of_nat duration * 1000000),
               sts_epoch = epoch s, sts_access_count = access_count s\<rparr>
         in bindr (report_put E ts server_stats (ser_stats E stat) s) (\<lambda>s.
            bindr (report_put E ts key_access (ser_access E (access_data now s)) s) (\<lambda>s.
            let (sizes, s) = primary_sizes E s
            in bindr (report_put E ts key_size (ser_sizes E sizes) s) (\<lambda>s.
               bindr (request_cache_keys E rnd (update_caches func_nodes s)) (\<lambda>s.
               Inr (s\<lparr>working_time := 0, access_count := 0\<rparr>)))))))"

text \<open>
  Redistribution after joins: up to fifty keys per address are gossiped in one round. The set of
  keys that is reduced is a copy, so only addresses with at most fifty keys leave the map.
\<close>

definition redistribute_batch :: "Key fset \<Rightarrow> Key list" where
  "redistribute_batch key_set = take data_redistribute_threshold (fs_elems key_set)"

definition redistribute_address ::
  "Address \<times> Key fset \<Rightarrow> AddressKeysetMap \<times> Address list \<Rightarrow> AddressKeysetMap \<times> Address list" where
  "redistribute_address = (\<lambda>(address, key_set) (addr_keyset_map, remove_address_set).
     let sent = redistribute_batch key_set;
         key_set = fold (\<lambda>k ks. ks |-| {|k|}) sent key_set
     in (fold (add_key address) sent addr_keyset_map,
         if key_set = {||} then remove_address_set @ [address] else remove_address_set))"

definition redistribute :: "env \<Rightarrow> server \<Rightarrow> fault + server" where
  "redistribute E s =
     (if fm_entries (join_gossip_map s) \<noteq> []
      then let (addr_keyset_map, remove_address_set) =
                 fold redistribute_address (fm_entries (join_gossip_map s)) (fmempty, []);
               s = s\<lparr>join_gossip_map := fold fmdrop remove_address_set (join_gossip_map s)\<rparr>
           in bindr (send_gossip E addr_keyset_map s) (\<lambda>s.
                if fm_entries (join_gossip_map s) = []
                then for_each (\<lambda>key s.
                       remove_key key (s\<lparr>stored_key_map := fm_touch empty_KeyProperty key (stored_key_map s)\<rparr>))
                     (fs_elems (join_remove_set s)) s
                else Inr s)
      else Inr s)"

section \<open>server.cpp: the event loop\<close>

text \<open>
  One round of the loop: the messages the eight sockets deliver (at most one each), and the timers
  that are due. A self-departure ends the thread: the flag of the result.
\<close>

record round_input =
  in_join :: "string option"
  in_depart :: "string option"
  in_self_depart :: "Address option"
  in_request :: "KeyRequest option"
  in_gossip :: "KeyRequest option"
  in_replication_response :: "KeyResponse option"
  in_replication_change :: "ReplicationFactorUpdate option"
  in_cache_ip :: "KeyResponse option"
  in_gossip_due :: bool
  in_report :: "(u64 \<times> nat \<times> Address list \<times> (nat \<Rightarrow> u32)) option"
  in_now :: TimePoint
  in_elapsed :: u64

definition on_input :: "('m \<Rightarrow> server \<Rightarrow> fault + server) \<Rightarrow> 'm option \<Rightarrow> server \<Rightarrow> fault + server" where
  "on_input h i s = (case i of None \<Rightarrow> Inr s | Some m \<Rightarrow> h m s)"

definition server_round :: "env \<Rightarrow> round_input \<Rightarrow> server \<Rightarrow> fault + (bool \<times> server)" where
  "server_round E i s =
     bindr (on_input (node_join_handler E) (in_join i) s) (\<lambda>s.
     bindr (on_input (node_depart_handler E) (in_depart i) s) (\<lambda>s.
     case in_self_depart i of
       Some addr \<Rightarrow> bindr (self_depart_handler E addr s) (\<lambda>s. Inr (True, s))
     | None \<Rightarrow>
        bindr (on_input (user_request_handler E (in_now i)) (in_request i) s) (\<lambda>s.
        bindr (on_input (gossip_handler E) (in_gossip i) s) (\<lambda>s.
        bindr (on_input (replication_response_handler E (in_now i)) (in_replication_response i) s) (\<lambda>s.
        bindr (on_input (replication_change_handler E) (in_replication_change i) s) (\<lambda>s.
        bindr (on_input (cache_ip_response_handler E) (in_cache_ip i) s) (\<lambda>s.
        bindr (if in_gossip_due i then gossip_epoch E s else Inr s) (\<lambda>s.
        let s = s\<lparr>working_time := working_time s + in_elapsed i\<rparr>
        in bindr (case in_report i of
                    Some (ms, duration, func_nodes, rnd) \<Rightarrow>
                      if kServerReportThreshold \<le> duration
                      then report_epoch E (in_now i) ms duration func_nodes rnd s else Inr s
                  | None \<Rightarrow> Inr s) (\<lambda>s.
        bindr (redistribute E s) (\<lambda>s. Inr (False, s)))))))))))"

end
