(* ===== verification/Sample_Env.thy ===== *)
theory Sample_Env
  imports Metadata
begin

text \<open>
  A concrete environment: the wire format of the theory of sample wire formats, a polynomial
  string hash, a linear congruential generator, and the default configuration of one memory and
  one disk tier. It is used to apply theorems at concrete inputs.
\<close>

definition sample_hash :: "string \<Rightarrow> u64" where
  "sample_hash s = foldl (\<lambda>h c. h * 31 + of_nat (of_char c)) 7 s"

definition sample_env :: env where
  "sample_env = wire.extend sample_wire
     \<lparr>std_hash = sample_hash,
      rand_r = (\<lambda>s. let s' = s * 1103515245 + 12345 in (s', drop_bit 16 s')),
      kSelfTierId = 0, kThreadNum = 2, kRoutingThreadCount = 1, kDefaultLocalReplication = 1,
      kMinimumReplicaNumber = 1,
      kTierMetadata = fmap_of_list
        [(0, \<lparr>tm_id = 0, tm_thread_number = 2, tm_default_replication = 1, tm_node_capacity = 1000\<rparr>),
         (1, \<lparr>tm_id = 1, tm_thread_number = 2, tm_default_replication = 0, tm_node_capacity = 5000\<rparr>)]\<rparr>"

lemma sample_env_ok [simp]: "wire_ok sample_env"
  using sample_wire_ok by (simp add: sample_env_def wire_ok_def wire.defs)

lemma sample_env_required [simp]: "lww_required sample_env"
  using sample_wire_required by (simp add: sample_env_def lww_required_def wire.defs)

end
