(* ===== verification/Ring_Laws.thy ===== *)
theory Ring_Laws
  imports Hash_Ring Sample_Env
begin

text \<open>
  What the hash rings guarantee. \<open>responsible_global\<close> and \<open>responsible_local\<close> walk round the
  ring from the key's position; the walk is the same loop over two kinds of accumulator, so its
  outcome is proved once, in the locale \<open>cyclic_scan\<close>. Then: a lookup finds the clockwise
  successor of the key, joining and leaving move only the keys they must, and every thread that
  a lookup returns belongs to a server that joined and did not leave.
\<close>

section \<open>Walking round a ring\<close>

locale cyclic_scan =
  fixes L :: "'x list" and rep :: nat and size_acc :: "'acc \<Rightarrow> nat"
    and add :: "'x \<Rightarrow> 'acc \<Rightarrow> 'acc" and loop :: "nat \<Rightarrow> 'acc \<Rightarrow> 'acc option"
  assumes step: "pos < length L \<Longrightarrow> size_acc acc \<le> rep \<Longrightarrow>
      loop pos acc = (if size_acc acc < rep
        then loop (if Suc pos = length L then 0 else Suc pos) (add (L ! pos) acc) else Some acc)"
    and add_size: "size_acc (add x acc) \<le> Suc (size_acc acc)"
begin

lemma scan_prefix:
  assumes "pos < length L" "size_acc acc \<le> rep"
    and "\<And>i. i < length xs \<Longrightarrow> xs ! i = L ! ((pos + i) mod length L)"
    and "rep \<le> size_acc (fold add xs acc)"
  shows "\<exists>k \<le> length xs. loop pos acc = Some (fold add (take k xs) acc) \<and>
    size_acc (fold add (take k xs) acc) = rep"
  using assms
proof (induction xs arbitrary: pos acc)
  case Nil
  then have "loop pos acc = Some acc" using step [of pos acc] by simp
  then show ?case using Nil by simp
next
  case (Cons x xs)
  show ?case
  proof (cases "size_acc acc < rep")
    case False
    then have "loop pos acc = Some acc" using Cons.prems step [of pos acc] by simp
    then show ?thesis using False Cons.prems(2) by (intro exI [of _ 0]) simp
  next
    case True
    define pos' where "pos' = (if Suc pos = length L then 0 else Suc pos)"
    have x: "x = L ! pos" using Cons.prems(1) Cons.prems(3) [of 0] by simp
    have pos': "pos' < length L" "pos' = Suc pos mod length L"
      using Cons.prems(1) by (auto simp: pos'_def)
    have "size_acc (add x acc) \<le> rep" using True add_size [of x acc] by simp
    moreover have "xs ! i = L ! ((pos' + i) mod length L)" if "i < length xs" for i
      using Cons.prems(3) [of "Suc i"] that by (simp add: pos'(2) mod_add_left_eq)
    ultimately obtain k where "k \<le> length xs" "loop pos' (add x acc) = Some (fold add (take k xs) (add x acc))"
      "size_acc (fold add (take k xs) (add x acc)) = rep"
      using Cons.IH [OF pos'(1), of "add x acc"] Cons.prems(4) by auto
    then show ?thesis
      using step [OF Cons.prems(1,2)] True by (intro exI [of _ "Suc k"]) (simp add: x pos'_def)
  qed
qed

text \<open>One round suffices when the ring has enough to offer.\<close>

lemma scan_round:
  assumes "pos < length L" "size_acc acc \<le> rep" "rep \<le> size_acc (fold add (rotate pos L) acc)"
  shows "\<exists>k \<le> length L. loop pos acc = Some (fold add (take k (rotate pos L)) acc) \<and>
    size_acc (fold add (take k (rotate pos L)) acc) = rep"
  using scan_prefix [of pos acc "rotate pos L"] assms by (auto simp: nth_rotate)

end

subsection \<open>The walk of responsible\_global\<close>

definition add_server :: "ServerThread \<Rightarrow> ServerThreadList \<Rightarrow> ServerThreadList" where
  "add_server th ts = (if list_ex (\<lambda>t. st_eq t th) ts then ts else ts @ [th])"

text \<open>The different servers of a list, in order of their first occurrence.\<close>

definition first_servers :: "ServerThread list \<Rightarrow> ServerThreadList" where
  "first_servers xs = fold add_server xs []"

lemma u32_count:
  assumes "n \<le> unat (rep :: u32)"
  shows "(of_nat n :: u32) < rep \<longleftrightarrow> n < unat rep"
  using assms unat_u32_lt [of rep] by (simp add: word_less_nat_alt)

interpretation gscan: cyclic_scan es "unat rep" length add_server
  "\<lambda>pos acc. global_walk es rep pos (of_nat (length acc)) acc" for es rep
proof
  fix pos and acc :: ServerThreadList
  assume "length acc \<le> unat rep"
  then show "global_walk es rep pos (of_nat (length acc)) acc =
      (if length acc < unat rep
       then global_walk es rep (if Suc pos = length es then 0 else Suc pos)
         (of_nat (length (add_server (es ! pos) acc))) (add_server (es ! pos) acc)
       else Some acc)"
    by (subst global_walk.simps) (simp add: Let_def u32_count add_server_def add.commute)
next
  fix x and acc :: ServerThreadList
  show "length (add_server x acc) \<le> Suc (length acc)" by (simp add: add_server_def)
qed

lemma known_server: "list_ex (\<lambda>t. st_eq t x) ts \<longleftrightarrow> st_id x \<in> st_id ` set ts"
  by (simp add: list_ex_iff st_eq_def image_iff) metis

lemma add_server_ids: "st_id ` set (add_server x ts) = insert (st_id x) (st_id ` set ts)"
  by (simp add: add_server_def known_server insert_absorb)

lemma add_server_set: "set (add_server x ts) \<subseteq> insert x (set ts)"
  by (auto simp: add_server_def)

lemma add_server_distinct: "distinct (map st_id ts) \<Longrightarrow> distinct (map st_id (add_server x ts))"
  by (simp add: add_server_def known_server)

lemma add_server_prefix: "\<exists>ys. add_server x ts = ts @ ys"
  by (simp add: add_server_def)

lemma fold_add_server_ids:
  "distinct (map st_id ts) \<Longrightarrow> distinct (map st_id (fold add_server xs ts)) \<and>
   st_id ` set (fold add_server xs ts) = st_id ` set xs \<union> st_id ` set ts \<and>
   set (fold add_server xs ts) \<subseteq> set xs \<union> set ts"
proof (induction xs arbitrary: ts)
  case (Cons x xs)
  from Cons.IH [OF add_server_distinct [OF Cons.prems, of x]] show ?case
    using add_server_set [of x ts] by (auto simp: add_server_ids)
qed simp

lemma fold_add_server_prefix: "\<exists>ys. fold add_server xs ts = ts @ ys"
proof (induction xs arbitrary: ts)
  case (Cons x xs)
  obtain ys where "fold add_server xs (add_server x ts) = add_server x ts @ ys"
    using Cons.IH by blast
  then show ?case using add_server_prefix [of x ts] by auto
qed simp

lemma first_servers_distinct: "distinct (map st_id (first_servers xs))"
  using fold_add_server_ids [of "[]" xs] by (simp add: first_servers_def)

lemma first_servers_subset: "set (first_servers xs) \<subseteq> set xs"
  using fold_add_server_ids [of "[]" xs] by (simp add: first_servers_def)

lemma length_first_servers: "length (first_servers xs) = card (st_id ` set xs)"
  using fold_add_server_ids [of "[]" xs] distinct_card [of "map st_id (first_servers xs)"]
  by (simp add: first_servers_def)

lemma first_servers_take:
  assumes "length (first_servers (take k xs)) = n"
  shows "first_servers (take k xs) = take n (first_servers xs)"
proof -
  have "first_servers xs = fold add_server (drop k xs) (first_servers (take k xs))"
    by (metis append_take_drop_id first_servers_def fold_append o_apply)
  then show ?thesis using fold_add_server_prefix [of "drop k xs" "first_servers (take k xs)"] assms by auto
qed

lemma global_walk_enough:
  assumes "pos < length es" "unat rep \<le> card (st_id ` set es)"
  shows "global_walk es rep pos 0 [] = Some (take (unat rep) (first_servers (rotate pos es)))"
proof -
  have "unat rep \<le> length (fold add_server (rotate pos es) [])"
    using assms(2) length_first_servers [of "rotate pos es"] by (simp add: first_servers_def)
  from gscan.scan_round [OF assms(1) _ this]
  obtain k where "global_walk es rep pos 0 [] = Some (first_servers (take k (rotate pos es)))"
    "length (first_servers (take k (rotate pos es))) = unat rep"
    by (auto simp: first_servers_def)
  then show ?thesis using first_servers_take [of k "rotate pos es"] by simp
qed

text \<open>When the walk ends it has found the wanted number of different servers of the ring.\<close>

lemma global_walk_result:
  assumes "global_walk es rep pos i ts = Some r"
  shows "pos < length es \<Longrightarrow> i = of_nat (length ts) \<Longrightarrow> length ts \<le> unat rep \<Longrightarrow>
    distinct (map st_id ts) \<Longrightarrow> set ts \<subseteq> set es \<Longrightarrow>
    length r = unat rep \<and> distinct (map st_id r) \<and> set r \<subseteq> set es"
proof (induction rule: global_walk.raw_induct [OF _ assms])
  case (1 walk es rep pos i ts r)
  show ?case
  proof (cases "length ts < unat rep")
    case True
    let ?ts = "add_server (es ! pos) ts"
    have w: "walk es rep (if Suc pos = length es then 0 else Suc pos) (of_nat (length ?ts)) ?ts = Some r"
      using 1(2) 1(4,5) True
      by (cases "list_ex (\<lambda>t. st_eq t (es ! pos)) ts"; cases "Suc pos = length es")
        (simp_all add: Let_def u32_count add_server_def add.commute)
    have "length ?ts \<le> unat rep" using True gscan.add_size [of "es ! pos" ts] by simp
    moreover have "distinct (map st_id ?ts)" using 1(6) by (rule add_server_distinct)
    moreover have "set ?ts \<subseteq> set es" using add_server_set [of "es ! pos" ts] 1(3,7) nth_mem by blast
    ultimately show ?thesis using 1(3) by (intro 1(1) [OF w]) auto
  next
    case False
    then show ?thesis using 1(2-7) by (auto simp: u32_count)
  qed
qed


subsection \<open>The walk of responsible\_local\<close>

interpretation lscan: cyclic_scan es "unat rep" fcard "\<lambda>th. finsert (st_tid th)"
  "\<lambda>pos acc. local_walk es rep pos (of_nat (fcard acc)) acc" for es rep
proof
  fix pos and acc :: "u32 fset"
  assume "fcard acc \<le> unat rep"
  then show "local_walk es rep pos (of_nat (fcard acc)) acc =
      (if fcard acc < unat rep
       then local_walk es rep (if Suc pos = length es then 0 else Suc pos)
         (of_nat (fcard (finsert (st_tid (es ! pos)) acc))) (finsert (st_tid (es ! pos)) acc)
       else Some acc)"
    by (subst local_walk.simps) (simp add: Let_def u32_count add.commute fcard_finsert_if finsert_absorb)
next
  fix x and acc :: "u32 fset"
  show "fcard (finsert (st_tid x) acc) \<le> Suc (fcard acc)" by (simp add: fcard_finsert_if)
qed

lemma fold_finsert_tid:
  "fset (fold (\<lambda>th. finsert (st_tid th)) xs s) = st_tid ` set xs \<union> fset s"
  by (induction xs arbitrary: s) auto

lemma local_walk_enough:
  assumes "pos < length es" "unat rep \<le> card (st_tid ` set es)"
  shows "\<exists>tids k. local_walk es rep pos 0 {||} = Some tids \<and> fcard tids = unat rep \<and>
    fset tids = st_tid ` set (take k (rotate pos es))"
proof -
  have "unat rep \<le> fcard (fold (\<lambda>th. finsert (st_tid th)) (rotate pos es) {||})"
    using assms(2) by (simp add: fcard.rep_eq fold_finsert_tid)
  moreover have z: "fcard ({||} :: u32 fset) = 0" by (simp add: fcard.rep_eq)
  ultimately obtain k where "local_walk es rep pos 0 {||} =
      Some (fold (\<lambda>th. finsert (st_tid th)) (take k (rotate pos es)) {||})"
    "fcard (fold (\<lambda>th. finsert (st_tid th)) (take k (rotate pos es)) {||}) = unat rep"
    using lscan.scan_round [OF assms(1), of "{||}" rep] by (auto simp: z)
  then show ?thesis
    by (intro exI [of _ "fold (\<lambda>th. finsert (st_tid th)) (take k (rotate pos es)) {||}"] exI [of _ k])
      (simp add: fold_finsert_tid)
qed

lemma local_walk_result:
  assumes "local_walk es rep pos i ts = Some r"
  shows "pos < length es \<Longrightarrow> i = of_nat (fcard ts) \<Longrightarrow> fcard ts \<le> unat rep \<Longrightarrow>
    fset ts \<subseteq> st_tid ` set es \<Longrightarrow> fcard r = unat rep \<and> fset r \<subseteq> st_tid ` set es"
proof (induction rule: local_walk.raw_induct [OF _ assms])
  case (1 walk es rep pos i ts r)
  show ?case
  proof (cases "fcard ts < unat rep")
    case True
    let ?ts = "finsert (st_tid (es ! pos)) ts"
    have w: "walk es rep (if Suc pos = length es then 0 else Suc pos) (of_nat (fcard ?ts)) ?ts = Some r"
      using 1(2) 1(4,5) True
      by (cases "st_tid (es ! pos) |\<in>| ts"; cases "Suc pos = length es")
        (simp_all add: Let_def u32_count finsert_absorb add.commute fcard_finsert_disjoint)
    have "fcard ?ts \<le> unat rep" "fset ?ts \<subseteq> st_tid ` set es"
      using 1(3-6) True by (auto simp: fcard_finsert_if)
    then show ?thesis using 1(3) by (intro 1(1) [OF w]) auto
  next
    case False
    then show ?thesis using 1(2-6) by (auto simp: u32_count)
  qed
qed

section \<open>Positions on the ring\<close>

lemma chm_empty_iff: "chm_empty ns \<longleftrightarrow> fm_entries ns = []"
  by (simp add: chm_empty_def fm_entries_eq_Nil) (metis fmdom_empty fmrestrict_fset_dom fmrestrict_fset_null)

lemma chm_find_less:
  assumes "fm_entries ns \<noteq> []"
  shows "chm_find h ns < length (fm_entries ns)"
  using assms length_takeWhile_le [of "\<lambda>e. fst e < h" "fm_entries ns"]
  by (auto simp: chm_find_def chm_empty_iff chm_lower_bound_def Let_def)

lemma chm_find_fmempty [simp]: "chm_find h fmempty = 0"
  by (simp add: chm_find_def chm_empty_def)

lemma chm_find_end: "chm_find h ns = length (fm_entries ns) \<longleftrightarrow> fm_entries ns = []"
  using chm_find_less [of ns h] by (cases "fm_entries ns = []") (auto simp: chm_find_def chm_empty_iff)

lemma global_walk_few:
  assumes "pos < length es" "\<not> unat rep \<le> card (st_id ` set es)"
  shows "global_walk es rep pos 0 [] = None"
proof (rule ccontr)
  assume "global_walk es rep pos 0 [] \<noteq> None"
  then obtain ts where "global_walk es rep pos 0 [] = Some ts" by auto
  from global_walk_result [OF this assms(1)]
  have ts: "length ts = unat rep" "distinct (map st_id ts)" "set ts \<subseteq> set es" by simp_all
  then have "unat rep = card (st_id ` set ts)" using distinct_card [OF ts(2)] by simp
  also have "\<dots> \<le> card (st_id ` set es)" using ts(3) by (intro card_mono image_mono) simp_all
  finally show False using assms(2) by simp
qed

lemma responsible_global_nonempty:
  assumes "nodes ring \<noteq> fmempty"
    and "es = map snd (fm_entries (nodes ring))" "pos = chm_find (global_hash_key E key) (nodes ring)"
  shows "responsible_global E key rep ring =
     (if unat rep \<le> card (st_id ` set es) then Inr (take (unat rep) (first_servers (rotate pos es)))
      else Inl Diverges)"
proof -
  have pos: "pos < length es" using assms chm_find_less [of "nodes ring"] by simp
  have "responsible_global E key rep ring =
      (case global_walk es rep pos 0 [] of None \<Rightarrow> Inl Diverges | Some threads \<Rightarrow> Inr threads)"
    using assms by (simp add: responsible_global_def chm_find_end Let_def)
  then show ?thesis using global_walk_enough [OF pos] global_walk_few [OF pos] by simp
qed

text \<open>
  C10. The servers responsible for a key, for every ring, key and replication factor: going round
  the ring from the key's position, the first \<open>rep\<close> different servers in the order in which they
  occur. The loop ends exactly when the ring has that many different servers (or is empty).
\<close>

theorem responsible_global_servers:
  "responsible_global E key rep ring =
     (let es = map snd (fm_entries (nodes ring));
          pos = chm_find (global_hash_key E key) (nodes ring)
      in if es = [] then Inr []
         else if unat rep \<le> card (st_id ` set es)
              then Inr (take (unat rep) (first_servers (rotate pos es)))
         else Inl Diverges)"
  using responsible_global_nonempty [OF _ refl refl, of ring E key rep]
  by (cases "nodes ring = fmempty") (simp_all add: responsible_global_def chm_find_end Let_def)

text \<open>
  C11. The threads of a node that are responsible for a key: when the ring has at least \<open>rep\<close>
  different thread numbers, the call returns exactly \<open>rep\<close> of them, the ones found first when
  going round from the key's position; when it has fewer (and is not empty) the loop never ends.
\<close>

theorem responsible_local_tids:
  "let es = map snd (fm_entries (nodes ring));
       pos = chm_find (local_hash_key E key) (nodes ring)
   in if es = [] then responsible_local E key rep ring = Inr {||}
      else if unat rep \<le> card (st_tid ` set es)
      then \<exists>tids k. responsible_local E key rep ring = Inr tids \<and> fcard tids = unat rep \<and>
             fset tids = st_tid ` set (take k (rotate pos es))
      else responsible_local E key rep ring = Inl Diverges"
proof (cases "nodes ring = fmempty")
  case True
  then show ?thesis by (simp add: responsible_local_def)
next
  case ne: False
  define es pos where "es = map snd (fm_entries (nodes ring))"
    and "pos = chm_find (local_hash_key E key) (nodes ring)"
  note es_pos = this
  have pos: "pos < length es" using chm_find_less [of "nodes ring"] ne by (simp add: es_pos)
  have r: "responsible_local E key rep ring =
      (case local_walk es rep pos 0 {||} of None \<Rightarrow> Inl Diverges | Some tids \<Rightarrow> Inr tids)"
    using ne chm_find_end [of _ "nodes ring"]
    by (simp add: responsible_local_def Let_def es_pos)
  have "local_walk es rep pos 0 {||} = None" if few: "card (st_tid ` set es) < unat rep"
  proof (rule ccontr)
    assume "local_walk es rep pos 0 {||} \<noteq> None"
    then obtain ts where ts: "local_walk es rep pos 0 {||} = Some ts" by auto
    have "fcard ts = unat rep" "fset ts \<subseteq> st_tid ` set es"
      using local_walk_result [OF ts pos] by (simp_all add: fcard.rep_eq)
    then have "unat rep \<le> card (st_tid ` set es)"
      using card_mono [of "st_tid ` set es" "fset ts"] by (simp add: fcard.rep_eq)
    then show False using few by simp
  qed
  then have few: "responsible_local E key rep ring = Inl Diverges"
    if "\<not> unat rep \<le> card (st_tid ` set es)" using that by (simp add: r)
  have enough: "\<exists>tids k. responsible_local E key rep ring = Inr tids \<and> fcard tids = unat rep \<and>
      fset tids = st_tid ` set (take k (rotate pos es))" if "unat rep \<le> card (st_tid ` set es)"
    using local_walk_enough [OF pos that] by (metis r option.simps(5))
  have "es \<noteq> []" using pos by auto
  then show ?thesis
    unfolding es_pos [symmetric] Let_def using few enough by presburger
qed

section \<open>Clockwise successors\<close>

text \<open>\<open>k\<close> is the first point of \<open>S\<close> at or after \<open>h\<close>, going round.\<close>

definition is_successor :: "'h::linorder set \<Rightarrow> 'h \<Rightarrow> 'h \<Rightarrow> bool" where
  "is_successor S h k \<longleftrightarrow> k \<in> S \<and>
     (h \<le> k \<and> (\<forall>k' \<in> S. h \<le> k' \<longrightarrow> k \<le> k') \<or> (\<forall>k' \<in> S. k' < h \<and> k \<le> k'))"

lemma is_successor_unique: "is_successor S h k \<Longrightarrow> is_successor S h k' \<Longrightarrow> k = k'"
  unfolding is_successor_def by (meson leD order_antisym)

lemma is_successor_subset: "is_successor S h k \<Longrightarrow> k \<in> T \<Longrightarrow> T \<subseteq> S \<Longrightarrow> is_successor T h k"
  unfolding is_successor_def by blast

lemma nth_fm_entries:
  "i < length (fm_entries m) \<Longrightarrow>
   fmlookup m (fst (fm_entries m ! i)) = Some (snd (fm_entries m ! i))"
  using nth_mem [of i "fm_entries m"] by (metis prod.collapse set_fm_entries)

lemma sorted_lower_bound:
  fixes ks :: "'h::linorder list" and h :: 'h
  assumes "sorted ks" "ks \<noteq> []"
  defines "i \<equiv> length (takeWhile (\<lambda>k. k < h) ks)"
  shows "is_successor (set ks) h (ks ! (if i = length ks then 0 else i))"
proof (cases "i = length ks")
  case True
  then have "\<forall>k \<in> set ks. k < h"
    unfolding i_def by (metis order_refl takeWhile_eq_all_conv takeWhile_eq_take take_all)
  moreover have "\<forall>k \<in> set ks. ks ! 0 \<le> k"
    using assms(1,2) by (metis in_set_conv_nth le0 sorted_nth_mono)
  ultimately show ?thesis
    using True assms(2) by (simp add: is_successor_def)
next
  case False
  then have i: "i < length ks" unfolding i_def using length_takeWhile_le [of "\<lambda>k. k < h" ks] by simp
  have "h \<le> ks ! i" using nth_length_takeWhile [of "\<lambda>k. k < h" ks] i by (simp add: i_def)
  moreover have "ks ! i \<le> k" if kin: "k \<in> set ks" and hk: "h \<le> k" for k
  proof -
    obtain j where j: "j < length ks" "k = ks ! j" using kin by (auto simp: in_set_conv_nth)
    have "i \<le> j"
    proof (rule ccontr)
      assume "\<not> i \<le> j"
      then have "takeWhile (\<lambda>k. k < h) ks ! j < h"
        using set_takeWhileD [of "takeWhile (\<lambda>k. k < h) ks ! j" "\<lambda>k. k < h" ks] by (simp add: i_def)
      then show False using hk j \<open>\<not> i \<le> j\<close> by (simp add: i_def takeWhile_nth)
    qed
    then show ?thesis using assms(1) j by (simp add: sorted_nth_mono)
  qed
  ultimately show ?thesis using False i by (auto simp: is_successor_def)
qed

lemma chm_find_successor:
  assumes "ns \<noteq> fmempty"
  shows "is_successor (fset (fmdom ns)) h (fst (fm_entries ns ! chm_find h ns))"
proof -
  let ?ks = "map fst (fm_entries ns)"
  have ne: "fm_entries ns \<noteq> []" using assms by simp
  have "chm_find h ns = (let i = length (takeWhile (\<lambda>k. k < h) ?ks) in if i = length ?ks then 0 else i)"
    using ne by (simp add: chm_find_def chm_empty_iff chm_lower_bound_def takeWhile_map comp_def Let_def
        del: fm_entries_eq_Nil)
  moreover have "is_successor (set ?ks) h
      (?ks ! (let i = length (takeWhile (\<lambda>k. k < h) ?ks) in if i = length ?ks then 0 else i))"
    using sorted_lower_bound [of ?ks h] ne sorted_fm_entries [of ns] unfolding Let_def by blast
  moreover have "set ?ks = fset (fmdom ns)" by (simp add: map_fst_fm_entries del: set_map)
  ultimately show ?thesis using chm_find_less [OF ne, of h] by simp
qed


section \<open>Joining and leaving\<close>

text \<open>The server that owns the point \<open>h\<close> of the ring.\<close>

definition ring_owner :: "'h::linorder \<Rightarrow> 'h chm \<Rightarrow> ServerThread" where
  "ring_owner h ns = snd (fm_entries ns ! chm_find h ns)"

lemma ring_owner_lookup:
  assumes "ns \<noteq> fmempty"
  shows "\<exists>k. is_successor (fset (fmdom ns)) h k \<and> fmlookup ns k = Some (ring_owner h ns)"
  using chm_find_successor [OF assms, of h] nth_fm_entries [OF chm_find_less, of ns h] assms
  by (auto simp: ring_owner_def)

text \<open>Two rings that agree where both have entries agree on an owner they share.\<close>

lemma ring_owner_mono:
  assumes "ns \<noteq> fmempty" "ms \<noteq> fmempty" "fmdom ns |\<subseteq>| fmdom ms"
    and "\<And>k. k |\<in>| fmdom ns \<Longrightarrow> fmlookup ms k = fmlookup ns k"
  shows "ring_owner h ms = ring_owner h ns \<or>
    (\<exists>k. k |\<notin>| fmdom ns \<and> fmlookup ms k = Some (ring_owner h ms))"
proof -
  obtain k where k: "is_successor (fset (fmdom ns)) h k" "fmlookup ns k = Some (ring_owner h ns)"
    using ring_owner_lookup [OF assms(1)] by blast
  obtain k' where k': "is_successor (fset (fmdom ms)) h k'" "fmlookup ms k' = Some (ring_owner h ms)"
    using ring_owner_lookup [OF assms(2)] by blast
  show ?thesis
  proof (cases "k' |\<in>| fmdom ns")
    case True
    then have "is_successor (fset (fmdom ns)) h k'"
      using is_successor_subset [OF k'(1)] assms(3) by (simp add: less_eq_fset.rep_eq)
    then have "k' = k" using k(1) is_successor_unique by blast
    then show ?thesis using k k' assms(4) [OF True] by simp
  next
    case False
    then show ?thesis using k'(2) by blast
  qed
qed

lemma fmlookup_insert_nodes:
  "fmlookup (fold (\<lambda>v ns. fst (chm_insert hasher (mk v) ns)) vs ns) k =
     (case fmlookup ns k of
        Some st \<Rightarrow> Some st
      | None \<Rightarrow> map_option mk (find (\<lambda>v. hasher (mk v) = k) vs))"
proof (induction vs arbitrary: ns)
  case (Cons v vs)
  have "fmlookup (fst (chm_insert hasher (mk v) ns)) k =
      (case fmlookup ns k of Some st \<Rightarrow> Some st
       | None \<Rightarrow> if hasher (mk v) = k then Some (mk v) else None)"
    by (auto simp: chm_insert_def Let_def split: option.splits)
  then show ?case by (simp add: Cons.IH split: option.splits)
qed (simp split: option.splits)

lemma fmlookup_erase_nodes:
  "fmlookup (fold (\<lambda>v. chm_erase hasher (mk v)) vs ns) k =
     (if k \<in> hasher ` mk ` set vs then None else fmlookup ns k)"
  by (induction vs arbitrary: ns) (auto simp: chm_erase_def)

lemma fmempty_iff: "m = fmempty \<longleftrightarrow> (\<forall>k. fmlookup m k = None)"
  by (metis fmap_ext fmempty_lookup)





section \<open>Who is on the ring\<close>

text \<open>
  Every entry of a ring sits at the hash of its thread, is one of its server's virtual nodes, and
  belongs to a server that the ring counts as a member.
\<close>

definition ring_inv :: "(ServerThread \<Rightarrow> 'h) \<Rightarrow> 'h HashRing \<Rightarrow> bool" where
  "ring_inv hasher ring \<longleftrightarrow>
     (\<forall>h st. fmlookup (nodes ring) h = Some st \<longrightarrow>
        hasher st = h \<and> tset_mem st (unique_servers ring) \<and>
        (\<exists>v \<in> set virtual_nums. st_virtual_num st = Some v))"

text \<open>A hasher that reads only the identity of a virtual node.\<close>

locale ring_hasher =
  fixes hasher :: "ServerThread \<Rightarrow> 'h"
  assumes same_node: "st_id s = st_id t \<Longrightarrow> st_virtual_num s = st_virtual_num t \<Longrightarrow> hasher s = hasher t"
begin

lemma inv_empty: "ring_inv hasher empty_ring"
  by (simp add: ring_inv_def empty_ring_def)

lemma inv_insert:
  assumes "ring_inv hasher ring"
  shows "ring_inv hasher (fst (ring_insert hasher pub priv jc tid ring))"
proof -
  define mk where "mk = make_virtual_ServerThread pub priv tid"
  have vn: "st_virtual_num (mk v) = Some v" and id: "st_id (mk v) = st_id (mk 0)" for v
    by (simp_all add: mk_def make_virtual_ServerThread_def st_id_def)
  show ?thesis
  proof (cases "tset_mem (mk 0) (unique_servers ring)")
    case True
    then show ?thesis using assms by (simp add: ring_insert_def Let_def ring_inv_def flip: mk_def)
  next
    case False
    have "hasher st = h \<and> (tset_mem st (unique_servers ring) \<or> st_id st = st_id (mk 0)) \<and>
        (\<exists>v \<in> set virtual_nums. st_virtual_num st = Some v)"
      if "fmlookup (fold (\<lambda>v ns. fst (chm_insert hasher (mk v) ns)) virtual_nums (nodes ring)) h = Some st"
      for h st
      using that assms vn id
      by (auto simp: fmlookup_insert_nodes ring_inv_def find_Some_iff in_set_conv_nth split: option.splits)
    then show ?thesis using False
      by (simp add: ring_insert_def Let_def ring_inv_def flip: mk_def) blast
  qed
qed

lemma inv_remove:
  assumes "ring_inv hasher ring"
  shows "ring_inv hasher (ring_remove hasher pub priv tid ring)"
proof -
  define mk where "mk = make_virtual_ServerThread pub priv tid"
  have vn: "st_virtual_num (mk v) = Some v" and id: "st_id (mk v) = st_id (mk 0)" for v
    by (simp_all add: mk_def make_virtual_ServerThread_def st_id_def)
  have "st_id st \<noteq> st_id (mk 0)"
    if look: "fmlookup (nodes ring) h = Some st" and out: "h \<notin> hasher ` mk ` set virtual_nums" for h st
  proof
    assume same: "st_id st = st_id (mk 0)"
    obtain v where v: "v \<in> set virtual_nums" "st_virtual_num st = Some v" "hasher st = h"
      using look assms by (auto simp: ring_inv_def)
    then have "hasher (mk v) = h" using same_node [of "mk v" st] same id [of v] vn [of v] by simp
    then show False using v(1) out by blast
  qed
  then show ?thesis
    using assms by (auto simp: ring_remove_def ring_inv_def fmlookup_erase_nodes tset_mem_def
        simp flip: mk_def split: if_splits)
qed

end

interpretation global_hasher: ring_hasher "global_hash_thread E" for E
proof
  fix s t :: ServerThread
  assume "st_id s = st_id t" "st_virtual_num s = st_virtual_num t"
  then have "st_virtual_id s = st_virtual_id t" by (simp add: st_id_eq st_virtual_id_def)
  then show "global_hash_thread E s = global_hash_thread E t" by (simp add: global_hash_thread_def)
qed

interpretation local_hasher: ring_hasher "local_hash_thread E" for E
  by unfold_locales (simp add: st_id_eq local_hash_thread_def)

text \<open>A history of joins (with a join count) and departures, and the members it leaves.\<close>

type_synonym ring_history = "(Address \<times> Address \<times> u32 \<times> int option) list"

definition ring_event :: "env \<Rightarrow> Address \<times> Address \<times> u32 \<times> int option \<Rightarrow> GlobalHashRing \<Rightarrow> GlobalHashRing" where
  "ring_event E e ring = (case e of
     (pub, priv, tid, Some jc) \<Rightarrow> fst (ring_insert (global_hash_thread E) pub priv jc tid ring)
   | (pub, priv, tid, None) \<Rightarrow> ring_remove (global_hash_thread E) pub priv tid ring)"

fun ring_members :: "ring_history \<Rightarrow> string set \<Rightarrow> string set" where
  "ring_members [] S = S"
| "ring_members ((pub, priv, tid, join) # evs) S =
     ring_members evs (case join of
        Some jc \<Rightarrow> insert (st_id (make_ServerThread pub priv tid)) S
      | None \<Rightarrow> S - {st_id (make_ServerThread pub priv tid)})"

lemma unique_servers_event:
  "fset (fmdom (unique_servers (ring_event E (pub, priv, tid, join) ring))) =
     (case join of
        Some jc \<Rightarrow> insert (st_id (make_ServerThread pub priv tid)) (fset (fmdom (unique_servers ring)))
      | None \<Rightarrow> fset (fmdom (unique_servers ring)) - {st_id (make_ServerThread pub priv tid)})"
  by (auto simp: ring_event_def ring_insert_def ring_remove_def Let_def tset_mem_def tset_insert_def
      make_virtual_ServerThread_def st_id_def make_ServerThread_def fmlookup_dom_iff
      split: option.splits)

lemma ring_history_inv:
  assumes "ring_inv (global_hash_thread E) ring"
  shows "ring_inv (global_hash_thread E) (fold (ring_event E) evs ring) \<and>
    fset (fmdom (unique_servers (fold (ring_event E) evs ring))) =
      ring_members evs (fset (fmdom (unique_servers ring)))"
  using assms
proof (induction evs arbitrary: ring)
  case (Cons e evs)
  obtain pub priv tid join where e: "e = (pub, priv, tid, join)" by (cases e)
  have "ring_inv (global_hash_thread E) (ring_event E e ring)"
    using Cons.prems global_hasher.inv_insert global_hasher.inv_remove
    by (simp add: ring_event_def e split: option.splits)
  then show ?case using Cons.IH unique_servers_event [of E pub priv tid join ring] by (simp add: e)
qed simp

text \<open>
  Whatever sequence of servers joined and left a global ring, the servers that it makes
  responsible for a key have joined and not left since, no server is counted twice, and there are
  as many as the replication factor asks for (unless the ring is empty).
\<close>

lemma responsible_global_members:
  assumes "ring = fold (ring_event E) evs empty_ring"
    and "responsible_global E key rep ring = Inr ts"
  shows "st_id ` set ts \<subseteq> ring_members evs {} \<and> distinct (map st_id ts) \<and>
    (length ts = unat rep \<or> nodes ring = fmempty \<and> ts = [])"
proof (cases "nodes ring = fmempty")
  case True
  then show ?thesis using assms(2) by (simp add: responsible_global_def chm_find_end Let_def)
next
  case False
  define es pos where "es = map snd (fm_entries (nodes ring))"
    and "pos = chm_find (global_hash_key E key) (nodes ring)"
  have ts: "ts = take (unat rep) (first_servers (rotate pos es))" "unat rep \<le> card (st_id ` set es)"
    using assms(2) responsible_global_nonempty [OF False es_def pos_def, of rep] by (simp_all split: if_splits)
  have inv: "ring_inv (global_hash_thread E) ring"
    "fset (fmdom (unique_servers ring)) = ring_members evs {}"
    using ring_history_inv [OF global_hasher.inv_empty, of E evs] assms(1)
    by (simp_all add: empty_ring_def)
  have mem: "st_id t \<in> ring_members evs {}" if t: "t \<in> set es" for t
  proof -
    obtain k where "fmlookup (nodes ring) k = Some t" using t by (auto simp: es_def set_fm_entries)
    then have "tset_mem t (unique_servers ring)" using inv(1) by (simp add: ring_inv_def)
    then have "st_id t |\<in>| fmdom (unique_servers ring)" by (auto simp: tset_mem_def intro: fmdomI)
    then show ?thesis using inv(2) by blast
  qed
  have "set ts \<subseteq> set es"
    unfolding ts(1)
    using first_servers_subset [of "rotate pos es"]
      set_take_subset [of "unat rep" "first_servers (rotate pos es)"] by simp
  then have "st_id ` set ts \<subseteq> ring_members evs {}" using mem by blast
  moreover have "distinct (take (unat rep) (map st_id (first_servers (rotate pos es))))"
    using first_servers_distinct by (rule distinct_take)
  then have "distinct (map st_id ts)" by (simp only: ts(1) take_map)
  moreover have "length ts = unat rep" using ts(2) by (simp add: ts(1) length_first_servers)
  ultimately show ?thesis by simp
qed

lemma ring_insert_nonempty: "nodes (fst (ring_insert hasher pub priv jc tid empty_ring)) \<noteq> fmempty"
proof -
  let ?mk = "make_virtual_ServerThread pub priv tid"
  have "0 \<in> set virtual_nums"
    by (force simp: virtual_nums_def kVirtualThreadNum_def image_iff intro!: bexI [of _ 0])
  then have "find (\<lambda>v. hasher (?mk v) = hasher (?mk 0)) virtual_nums \<noteq> None" by (auto simp: find_None_iff)
  then have "fmlookup (fold (\<lambda>v ns. fst (chm_insert hasher (?mk v) ns)) virtual_nums fmempty) (hasher (?mk 0)) \<noteq> None"
    by (simp add: fmlookup_insert_nodes)
  then show ?thesis by (auto simp: ring_insert_def empty_ring_def tset_mem_def fmempty_iff)
qed

end
