(* ===== verification/Storage_Laws.thy ===== *)
theory Storage_Laws
  imports Kv_Storage Sample_Env
begin

text \<open>
  The contract of the abstract class \<open>Serializer\<close> (server_utils.hpp) and the classes that meet it.
  The abstract state of a store gives every key a lattice value, the lattice's bottom when it was
  never written; \<open>put\<close> merges the decoded payload into it, \<open>get\<close> encodes it, \<open>remove\<close> resets it.
  Nine of the ten serializers implement this; the disk one for last-writer-wins values does not.
\<close>

section \<open>The contract\<close>

text \<open>A sequence of puts through a serializer.\<close>

definition puts_with :: "(Key \<Rightarrow> string \<Rightarrow> 'st \<Rightarrow> u32 \<times> 'st) \<Rightarrow> (Key \<times> string) list \<Rightarrow> 'st \<Rightarrow> 'st" where
  "puts_with put ops s = fold (\<lambda>(k, p) s. snd (put k p s)) ops s"

locale serializer =
  fixes val :: "'st \<Rightarrow> Key \<Rightarrow> 'v" and good :: "'st \<Rightarrow> bool"
    and dec :: "string \<Rightarrow> 'v" and mrg :: "'v \<Rightarrow> 'v \<Rightarrow> 'v" and bot :: 'v and present :: "'v \<Rightarrow> bool"
    and get :: "Key \<Rightarrow> u32 \<Rightarrow> 'st \<Rightarrow> string \<times> u32 \<times> 'st"
    and put :: "Key \<Rightarrow> string \<Rightarrow> 'st \<Rightarrow> u32 \<times> 'st"
    and remove :: "Key \<Rightarrow> 'st \<Rightarrow> 'st"
  assumes put_val: "good s \<Longrightarrow> val (snd (put k p s)) = (val s)(k := mrg (val s k) (dec p))"
    and put_good: "good s \<Longrightarrow> good (snd (put k p s))"
    and get_val: "good s \<Longrightarrow> val (snd (snd (get k err s))) = val s"
    and get_good: "good s \<Longrightarrow> good (snd (snd (get k err s)))"
    and get_present: "good s \<Longrightarrow> present (val s k) \<Longrightarrow>
      dec (fst (get k err s)) = val s k \<and> fst (snd (get k err s)) = err"
    and get_absent: "good s \<Longrightarrow> \<not> present (val s k) \<Longrightarrow> fst (snd (get k err s)) = 1"
    and remove_val: "good s \<Longrightarrow> val (remove k s) = (val s)(k := bot)"
    and remove_good: "good s \<Longrightarrow> good (remove k s)"
    and bot_absent: "\<not> present bot"
begin

lemma puts_good: "good s \<Longrightarrow> good (puts_with put ops s)"
  unfolding puts_with_def by (induction ops arbitrary: s) (auto simp: put_good)

lemma puts_val:
  "good s \<Longrightarrow> val (puts_with put ops s) k = foldl mrg (val s k) (map (\<lambda>op. dec (snd op)) (filter (\<lambda>op. fst op = k) ops))"
proof (induction ops arbitrary: s)
  case Nil
  then show ?case by (simp add: puts_with_def)
next
  case (Cons op ops)
  obtain k' p where op: "op = (k', p)" by (cases op)
  have "val (puts_with put (op # ops) s) k = val (puts_with put ops (snd (put k' p s))) k" by (simp add: puts_with_def op)
  also have "\<dots> = foldl mrg (val (snd (put k' p s)) k) (map (\<lambda>op. dec (snd op)) (filter (\<lambda>op. fst op = k) ops))"
    using Cons.prems by (intro Cons.IH put_good)
  finally show ?case using Cons.prems by (simp add: op put_val)
qed

text \<open>What was written is read back.\<close>

lemma get_after_put:
  assumes "good s" "present (mrg (val s k) (dec p))"
  shows "dec (fst (get k err (snd (put k p s)))) = mrg (val s k) (dec p) \<and>
    fst (snd (get k err (snd (put k p s)))) = err"
  using get_present [OF put_good [OF assms(1)], of k p k err] assms by (simp add: put_val)

lemma get_after_remove:
  assumes "good s"
  shows "fst (snd (get k err (remove k s))) = 1"
  using assms by (simp add: get_absent remove_good remove_val bot_absent)

end

text \<open>Stores over a lattice converge: only the set of payloads per key matters.\<close>

locale convergent_serializer = serializer + merge_on UNIV mrg
begin

lemma puts_converge:
  assumes "good s" "good t" "val s = val t" "set xs = set ys"
  shows "val (puts_with put xs s) = val (puts_with put ys t)"
proof
  fix k :: Key
  let ?f = "\<lambda>ops. map (\<lambda>op. dec (snd op)) (filter (\<lambda>op. fst op = k) ops)"
  have "set (?f xs) = set (?f ys)" using assms(4) by auto
  then have "foldl mrg (val s k) (?f xs) = foldl mrg (val s k) (?f ys)"
    by (intro replicas_converge) auto
  then show "val (puts_with put xs s) k = val (puts_with put ys t) k"
    using assms by (simp add: puts_val)
qed

end

section \<open>Memory serializers\<close>

lemma fm_at_modify_fun [simp]: "fm_at d (fm_modify d k f m) = (fm_at d m)(k := f (fm_at d m k))"
  by (auto simp: fm_at_def fmlookup_modify split: option.splits)

lemma fm_at_map_remove: "fm_at d (map_remove k m) = (fm_at d m)(k := d)"
  by (auto simp: fm_at_def map_remove_def fun_eq_iff)

lemmas mem_defs = kvs_get_def kvs_put_def kvs_size_def kvs_remove_def map_at_def map_contains_def
  Let_def fm_at_map_remove

lemma set_size_fempty [simp]: "set_size {||} = 0" "oset_size {||} = 0"
  by (simp_all add: set_size_def oset_size_def fcard.rep_eq)

lemma fm_at_missing: "fmlookup m k = None \<Longrightarrow> fm_at d m k = d"
  by (simp add: fm_at_def)

text \<open>The encoders and decoders are inverse for a well-behaved wire format.\<close>

lemma codec_lww: "wire_ok w \<Longrightarrow> deserialize_lww w (serialize_lww w l) = l"
  by (simp add: deserialize_lww_def serialize_lww_def wire_okD lww_initialized_def Let_def)

lemma codec_set: "wire_ok w \<Longrightarrow> deserialize_set w (serialize_set w s) = s"
  by (simp add: deserialize_set_def serialize_set_def wire_okD fold_snoc_id fold_finsert)

lemma codec_ordered_set: "wire_ok w \<Longrightarrow> deserialize_ordered_set w (serialize_ordered_set w s) = s"
  by (simp add: deserialize_ordered_set_def serialize_ordered_set_def wire_okD fold_snoc_id fold_finsert)

definition decode_causal :: "'a wire_scheme \<Rightarrow> string \<Rightarrow> VectorClockValuePair" where
  "decode_causal w p = to_vector_clock_value_pair (deserialize_causal w p)"

definition decode_cross_causal :: "'a wire_scheme \<Rightarrow> string \<Rightarrow> CrossCausalPayload" where
  "decode_cross_causal w p = to_cross_causal_payload (deserialize_cross_causal w p)"

lemma codec_causal: "wire_ok w \<Longrightarrow> decode_causal w (serialize_causal w c) = c"
  by (simp add: decode_causal_def deserialize_causal_def serialize_causal_def wire_okD fold_snoc_id
      to_vector_clock_value_pair_eq)

lemma codec_cross_causal: "wire_ok w \<Longrightarrow> decode_cross_causal w (serialize_cross_causal w c) = c"
  by (simp add: decode_cross_causal_def deserialize_cross_causal_def serialize_cross_causal_def wire_okD
      fold_snoc_id to_cross_causal_payload_eq serialize_cross_deps fold_dep_records)

text \<open>
  The laws hold for every wire format on which protobuf round trips; the state predicate of the
  memory stores carries that condition.
\<close>

interpretation mem_lww: serializer "fm_at lww_default" "\<lambda>_. wire_ok w" "deserialize_lww w" lww_do_merge
  lww_default "\<lambda>v. tvp_value v \<noteq> []" "mem_lww_get w" "mem_lww_put w" mem_lww_remove for w
  by unfold_locales
    (auto simp: mem_lww_get_def mem_lww_put_def mem_lww_remove_def mem_defs codec_lww fm_at_missing
      lww_default_def)

interpretation mem_set: convergent_serializer "fm_at {||}" "\<lambda>_. wire_ok w" "deserialize_set w" set_do_merge
  "{||}" "\<lambda>v. set_size v \<noteq> 0" "mem_set_get w" "mem_set_put w" mem_set_remove for w
  by unfold_locales
    (auto simp: mem_set_get_def mem_set_put_def mem_set_remove_def mem_defs codec_set fm_at_missing)

interpretation mem_ordered_set: convergent_serializer "fm_at {||}" "\<lambda>_. wire_ok w"
  "deserialize_ordered_set w" oset_do_merge "{||}" "\<lambda>v. oset_size v \<noteq> 0" "mem_ordered_set_get w"
  "mem_ordered_set_put w" mem_ordered_set_remove for w
  by unfold_locales
    (auto simp: mem_ordered_set_get_def mem_ordered_set_put_def mem_ordered_set_remove_def mem_defs
      codec_ordered_set fm_at_missing)

interpretation mem_causal: serializer "fm_at vcp_default" "\<lambda>_. wire_ok w" "decode_causal w"
  causal_do_merge vcp_default "\<lambda>v. set_size (vcp_value v) \<noteq> 0" "mem_causal_get w" "mem_causal_put w"
  mem_causal_remove for w
  by unfold_locales
    (auto simp: mem_causal_get_def mem_causal_put_def mem_causal_remove_def mem_defs codec_causal
      fm_at_missing decode_causal_def [symmetric] vcp_default_def)

interpretation mem_cross_causal: serializer "fm_at cc_default" "\<lambda>_. wire_ok w" "decode_cross_causal w"
  cross_causal_do_merge cc_default "\<lambda>v. set_size (cc_value v) \<noteq> 0" "mem_cross_causal_get w"
  "mem_cross_causal_put w" mem_cross_causal_remove for w
  by unfold_locales
    (auto simp: mem_cross_causal_get_def mem_cross_causal_put_def mem_cross_causal_remove_def mem_defs
      codec_cross_causal fm_at_missing decode_cross_causal_def [symmetric] cc_default_def)


section \<open>Disk serializers\<close>

lemma ebs_fname_inject [simp]: "ebs_fname e k = ebs_fname e k' \<longleftrightarrow> k = k'"
  by (simp add: ebs_fname_def)

definition ebs_val :: "(string \<Rightarrow> 'v) \<Rightarrow> 'v \<Rightarrow> EBS \<Rightarrow> files \<Rightarrow> Key \<Rightarrow> 'v" where
  "ebs_val dec b0 e fs k = (case fmlookup fs (ebs_fname e k) of None \<Rightarrow> b0 | Some c \<Rightarrow> dec c)"

text \<open>Every file of the store holds a message of the lattice's type.\<close>

definition ebs_good :: "'a wire_scheme \<Rightarrow> (string \<Rightarrow> 'm \<times> bool) \<Rightarrow> EBS \<Rightarrow> files \<Rightarrow> bool" where
  "ebs_good w parse e fs \<longleftrightarrow> wire_ok w \<and> (\<forall>k c. fmlookup fs (ebs_fname e k) = Some c \<longrightarrow> snd (parse c))"

definition stateless_get ::
  "(Key \<Rightarrow> u32 \<Rightarrow> files \<Rightarrow> string \<times> u32) \<Rightarrow> Key \<Rightarrow> u32 \<Rightarrow> files \<Rightarrow> string \<times> u32 \<times> files" where
  "stateless_get g k err fs = (let (r, err) = g k err fs in (r, err, fs))"

text \<open>
  What the disk serializers share: \<open>get\<close> re-encodes the stored message when it has a value, \<open>put\<close>
  stores the input message in a new file and the encoded merge over an existing one.
\<close>

lemma ebs_serializer:
  fixes parse :: "string \<Rightarrow> 'm \<times> bool" and conv :: "'m \<Rightarrow> 'v"
  assumes rt: "\<And>m. wire_ok w \<Longrightarrow> parse (ser m) = (m, True)"
    and enc: "\<And>v. wire_ok w \<Longrightarrow> conv (fst (parse (enc v))) = v \<and> snd (parse (enc v))"
    and b0m: "\<And>v. mrg b0 v = v" and absent: "\<not> present b0"
    and get: "\<And>k err fs. g k err fs = (case fmlookup fs (ebs_fname e k) of None \<Rightarrow> ([], 1)
        | Some c \<Rightarrow> (let (m, ok) = parse c in if \<not> ok then ([], 1)
             else if \<not> present (conv m) then ([], 1) else (ser m, err)))"
    and put: "\<And>k pl fs. p k pl fs = (case fmlookup fs (ebs_fname e k) of
          None \<Rightarrow> ebs_write e k (ser (fst (parse pl))) fs
        | Some c \<Rightarrow> (let (m, ok) = parse c in if \<not> ok then (0, fs)
             else ebs_write e k (enc (mrg (conv m) (conv (fst (parse pl))))) fs))"
  shows "serializer (ebs_val (\<lambda>s. conv (fst (parse s))) b0 e) (ebs_good w parse e)
    (\<lambda>s. conv (fst (parse s))) mrg b0 present (stateless_get g) p (ebs_remove e)"
proof
  fix fs k err
  assume good: "ebs_good w parse e fs"
  then have w: "wire_ok w" and ok: "fmlookup fs (ebs_fname e k) = Some c \<Longrightarrow> snd (parse c)" for c
    by (auto simp: ebs_good_def)
  let ?val = "ebs_val (\<lambda>s. conv (fst (parse s))) b0 e"
  show "ebs_good w parse e (snd (snd (stateless_get g k err fs)))"
    "?val (snd (snd (stateless_get g k err fs))) = ?val fs"
    using good by (simp_all add: stateless_get_def split: prod.splits)
  show "ebs_good w parse e (ebs_remove e k fs)" using good by (auto simp: ebs_good_def ebs_remove_def)
  show "?val (ebs_remove e k fs) = (?val fs)(k := b0)"
    by (auto simp: ebs_val_def ebs_remove_def fun_eq_iff)
  show "fst (snd (stateless_get g k err fs)) = 1" if "\<not> present (?val fs k)"
    using that by (auto simp: stateless_get_def get ebs_val_def split: option.splits prod.splits)
  show "conv (fst (parse (fst (stateless_get g k err fs)))) = ?val fs k \<and>
      fst (snd (stateless_get g k err fs)) = err" if "present (?val fs k)"
    using that absent ok rt [OF w]
    by (auto simp: stateless_get_def get ebs_val_def split: option.splits prod.splits)
  fix pl
  show "ebs_good w parse e (snd (p k pl fs))"
    using good rt [OF w] enc [OF w]
    by (auto simp: put ebs_write_def ebs_good_def split: option.splits prod.splits)
  show "?val (snd (p k pl fs)) = (?val fs)(k := mrg (?val fs k) (conv (fst (parse pl))))"
    using rt [OF w] enc [OF w] ok b0m
    by (auto simp: put ebs_write_def ebs_val_def fun_eq_iff split: option.splits prod.splits)
qed (rule absent)


lemma fold_finsert_empty: "fold finsert vs {||} = fset_of_list vs"
  by (simp add: fold_finsert)

lemma deserialize_set_eq: "deserialize_set w = (\<lambda>s. fset_of_list (fst (parse_set w s)))"
  "deserialize_ordered_set w = (\<lambda>s. fset_of_list (fst (parse_set w s)))"
  by (simp_all add: fun_eq_iff deserialize_set_def deserialize_ordered_set_def fold_finsert_empty)

lemma decode_causal_eq: "decode_causal w = (\<lambda>s. to_vector_clock_value_pair (fst (parse_causal w s)))"
  by (simp add: fun_eq_iff decode_causal_def deserialize_causal_def)

lemma decode_cross_causal_eq:
  "decode_cross_causal w = (\<lambda>s. to_cross_causal_payload (fst (parse_cross w s)))"
  by (simp add: fun_eq_iff decode_cross_causal_def deserialize_cross_causal_def)

lemma fset_of_list_eq_empty [simp]: "fset_of_list xs = {||} \<longleftrightarrow> xs = []"
  by (cases xs) auto

lemma default_values [simp]: "vcp_value vcp_default = {||}" "cc_value cc_default = {||}"
  by (simp_all add: vcp_default_def cc_default_def)

lemma causal_merge_default [simp]: "causal_do_merge vcp_default v = v"
  by (cases v) (simp add: causal_do_merge_cases vcp_default_def vc_le_iff)

lemma cross_causal_merge_default [simp]: "cross_causal_do_merge cc_default v = v"
  by (cases v) (simp add: cross_causal_do_merge_cases cc_default_def vc_le_iff)

lemma ebs_set_serializer:
  "serializer (ebs_val (deserialize_set w) {||} e) (ebs_good w (parse_set w) e)
     (deserialize_set w) set_do_merge {||} (\<lambda>v. v \<noteq> {||}) (stateless_get (ebs_set_get w e))
     (ebs_set_put w e) (ebs_remove e)"
  unfolding deserialize_set_eq
  by (rule ebs_serializer [where ser = "ser_set w" and enc = "serialize_set w"])
    (auto simp: wire_okD serialize_set_def fold_snoc_id set_do_merge_union ebs_set_get_def ebs_set_put_def
      fold_finsert funion_commute Let_def intro!: option.case_cong split: prod.splits)

lemma ebs_ordered_set_serializer:
  "serializer (ebs_val (deserialize_ordered_set w) {||} e) (ebs_good w (parse_set w) e)
     (deserialize_ordered_set w) oset_do_merge {||} (\<lambda>v. v \<noteq> {||}) (stateless_get (ebs_ordered_set_get w e))
     (ebs_ordered_set_put w e) (ebs_remove e)"
  unfolding deserialize_set_eq
  by (rule ebs_serializer [where ser = "ser_set w" and enc = "serialize_ordered_set w"])
    (auto simp: wire_okD serialize_ordered_set_def fold_snoc_id oset_do_merge_union ebs_ordered_set_get_def
      ebs_ordered_set_put_def fold_finsert funion_commute Let_def intro!: option.case_cong split: prod.splits)

interpretation ebs_set: convergent_serializer "ebs_val (deserialize_set w) {||} e"
  "ebs_good w (parse_set w) e" "deserialize_set w" set_do_merge "{||}" "\<lambda>v. v \<noteq> {||}"
  "stateless_get (ebs_set_get w e)" "ebs_set_put w e" "ebs_remove e" for w e
  by (intro convergent_serializer.intro ebs_set_serializer) unfold_locales

interpretation ebs_ordered_set: convergent_serializer "ebs_val (deserialize_ordered_set w) {||} e"
  "ebs_good w (parse_set w) e" "deserialize_ordered_set w" oset_do_merge "{||}" "\<lambda>v. v \<noteq> {||}"
  "stateless_get (ebs_ordered_set_get w e)" "ebs_ordered_set_put w e" "ebs_remove e" for w e
  by (intro convergent_serializer.intro ebs_ordered_set_serializer) unfold_locales

interpretation ebs_causal: serializer "ebs_val (decode_causal w) vcp_default e"
  "ebs_good w (parse_causal w) e" "decode_causal w" causal_do_merge vcp_default
  "\<lambda>v. vcp_value v \<noteq> {||}" "stateless_get (ebs_causal_get w e)" "ebs_causal_put w e" "ebs_remove e" for w e
  unfolding decode_causal_eq
  by (rule ebs_serializer [where ser = "ser_causal w" and enc = "serialize_causal w"])
    (auto simp: wire_okD serialize_causal_def fold_snoc_id ebs_causal_get_def ebs_causal_put_def
      to_vector_clock_value_pair_eq Let_def intro!: option.case_cong split: prod.splits)

interpretation ebs_cross_causal: serializer "ebs_val (decode_cross_causal w) cc_default e"
  "ebs_good w (parse_cross w) e" "decode_cross_causal w" cross_causal_do_merge cc_default
  "\<lambda>v. cc_value v \<noteq> {||}" "stateless_get (ebs_cross_causal_get w e)" "ebs_cross_causal_put w e"
  "ebs_remove e" for w e
  unfolding decode_cross_causal_eq
  by (rule ebs_serializer [where ser = "ser_cross w" and enc = "serialize_cross_causal w"])
    (auto simp: wire_okD serialize_cross_causal_def fold_snoc_id ebs_cross_causal_get_def
      ebs_cross_causal_put_def to_cross_causal_payload_eq serialize_cross_deps fold_dep_records Let_def
      intro!: option.case_cong split: prod.splits)


section \<open>Properties\<close>

text \<open>
  C19. A read of a last-writer-wins key in memory, after any sequence of writes to a fresh store,
  returns the value of the last of the writes to this key with the largest timestamp, and reports an
  error exactly when that value is empty.
\<close>

theorem mem_lww_read_your_writes:
  assumes "wire_ok w"
  shows "case mem_lww_get w key 0 (fold (\<lambda>(k, v) kvs. snd (mem_lww_put w k (serialize_lww w v) kvs)) ops fmempty)
    of (res, err, _) \<Rightarrow>
      (let latest = foldl lww_do_merge lww_default (map snd (filter (\<lambda>op. fst op = key) ops))
       in (tvp_value latest \<noteq> [] \<longrightarrow> err = 0 \<and> deserialize_lww w res = latest) \<and>
          (tvp_value latest = [] \<longrightarrow> err = 1))"
proof -
  let ?ops = "map (\<lambda>(k, v). (k, serialize_lww w v)) ops"
  let ?st = "fold (\<lambda>(k, v) kvs. snd (mem_lww_put w k (serialize_lww w v) kvs)) ops fmempty"
  have st: "?st = puts_with (mem_lww_put w) ?ops fmempty"
    by (simp add: puts_with_def fold_map comp_def case_prod_unfold)
  have "fm_at lww_default ?st key = foldl lww_do_merge lww_default
      (map (\<lambda>op. deserialize_lww w (snd op)) (filter (\<lambda>op. fst op = key) ?ops))"
    unfolding st by (simp add: mem_lww.puts_val [OF assms])
  also have "map (\<lambda>op. deserialize_lww w (snd op)) (filter (\<lambda>op. fst op = key) ?ops) =
      map snd (filter (\<lambda>op. fst op = key) ops)"
    using assms by (induction ops) (auto simp: codec_lww)
  finally have v: "fm_at lww_default ?st key =
      foldl lww_do_merge lww_default (map snd (filter (\<lambda>op. fst op = key) ops))" .
  show ?thesis
    using mem_lww.get_present [OF assms, of ?st key 0] mem_lww.get_absent [OF assms, of ?st key 0]
    by (auto simp: v Let_def split: prod.splits)
qed

theorem mem_lww_read_your_writes_witness:
  "case mem_lww_get sample_wire ''k'' 0 (fold (\<lambda>(k, v) kvs. snd (mem_lww_put sample_wire k (serialize_lww sample_wire v) kvs))
      [(''k'', \<lparr>timestamp = 2, tvp_value = ''new''\<rparr>), (''k'', \<lparr>timestamp = 1, tvp_value = ''old''\<rparr>)] fmempty)
   of (res, err, _) \<Rightarrow>
      (let latest = foldl lww_do_merge lww_default (map snd (filter (\<lambda>op. fst op = ''k'')
            [(''k'', \<lparr>timestamp = 2, tvp_value = ''new''\<rparr>), (''k'', \<lparr>timestamp = 1, tvp_value = ''old''\<rparr>)]))
       in (tvp_value latest \<noteq> [] \<longrightarrow> err = 0 \<and> deserialize_lww sample_wire res = latest) \<and>
          (tvp_value latest = [] \<longrightarrow> err = 1))"
  by (rule mem_lww_read_your_writes [OF sample_wire_ok])

text \<open>
  C20. Disk replicas of set-valued keys converge: two stores that hold the same values and receive
  the same puts, in different orders and with repetitions, hold the same value for every key.
\<close>

theorem ebs_set_stores_converge:
  assumes "ebs_good w (parse_set w) e fs" "ebs_good w (parse_set w) e' fs'"
    and "\<And>k. ebs_val (deserialize_set w) {||} e fs k = ebs_val (deserialize_set w) {||} e' fs' k"
    and "set xs = set ys"
  shows "ebs_val (deserialize_set w) {||} e (fold (\<lambda>(k, p) fs. snd (ebs_set_put w e k p fs)) xs fs) k =
    ebs_val (deserialize_set w) {||} e' (fold (\<lambda>(k, p) fs. snd (ebs_set_put w e' k p fs)) ys fs') k"
proof -
  let ?f = "\<lambda>ops. map (\<lambda>op. deserialize_set w (snd op)) (filter (\<lambda>op. fst op = k) ops)"
  have "set (?f xs) = set (?f ys)" using assms(4) by auto
  then have "foldl set_do_merge v (?f xs) = foldl set_do_merge v (?f ys)" for v
    by (intro set_lat.replicas_converge) auto
  then show ?thesis
    using ebs_set.puts_val [OF assms(1), of xs k] ebs_set.puts_val [OF assms(2), of ys k] assms(3)
    by (simp add: puts_with_def)
qed

theorem ebs_set_stores_converge_witness:
  "ebs_val (deserialize_set sample_wire) {||} (make_EBS 0 ''/ebs'')
     (fold (\<lambda>(k, p) fs. snd (ebs_set_put sample_wire (make_EBS 0 ''/ebs'') k p fs))
       [(''k'', serialize_set sample_wire {|''a''|}), (''k'', serialize_set sample_wire {|''b''|})] fmempty) ''k'' =
   ebs_val (deserialize_set sample_wire) {||} (make_EBS 1 ''/disk'')
     (fold (\<lambda>(k, p) fs. snd (ebs_set_put sample_wire (make_EBS 1 ''/disk'') k p fs))
       [(''k'', serialize_set sample_wire {|''b''|}), (''k'', serialize_set sample_wire {|''a''|})] fmempty) ''k''"
  by (rule ebs_set_stores_converge) (auto simp: ebs_good_def ebs_val_def)

text \<open>
  C21. The disk serializer for last-writer-wins values loses data: a put with an older timestamp
  truncates the file without writing anything. From then on every read of the key fails and no put
  stores a value again.
\<close>

theorem ebs_lww_stale_put_loses_key:
  assumes "lww_required w" "fmlookup fs (ebs_fname e key) = Some stored" "snd (parse_lww w stored)"
    and "from_option 0 (lv_timestamp (fst (parse_lww w payload))) <
         from_option 0 (lv_timestamp (fst (parse_lww w stored)))"
    and "fs' = snd (ebs_lww_put w e key payload fs)"
  shows "fmlookup fs' (ebs_fname e key) = Some [] \<and> ebs_lww_get w e key err fs' = ([], 1) \<and>
    ebs_lww_put w e key p fs' = (0, fs')"
proof -
  have "fs' = fmupd (ebs_fname e key) [] fs"
    using assms by (auto simp: ebs_lww_put_def ebs_write_def Let_def split: prod.splits)
  moreover obtain m where "parse_lww w [] = (m, False)"
    using assms(1) by (cases "parse_lww w []") (simp add: lww_required_def)
  ultimately show ?thesis by (simp add: ebs_lww_get_def ebs_lww_put_def Let_def)
qed

theorem ebs_lww_stale_put_loses_key_witness:
  "let e = make_EBS 0 ''/ebs'';
       fs = fmupd (ebs_fname e ''k'') (serialize_ts sample_wire 9 ''v'') fmempty;
       fs' = snd (ebs_lww_put sample_wire e ''k'' (serialize_ts sample_wire 8 ''u'') fs)
   in ebs_lww_get sample_wire e ''k'' 0 fs' = ([], 1)"
proof -
  have p: "parse_lww sample_wire (serialize_ts sample_wire t v) =
      (\<lparr>lv_timestamp = Some t, lv_value = Some v\<rparr>, True)" for t v
    by (simp add: serialize_ts_def wire_okD [OF sample_wire_ok] lww_initialized_def)
  show ?thesis
    unfolding Let_def
    using ebs_lww_stale_put_loses_key [OF sample_wire_required, of
        "fmupd (ebs_fname (make_EBS 0 ''/ebs'') ''k'') (serialize_ts sample_wire 9 ''v'') fmempty"
        "make_EBS 0 ''/ebs''" "''k''" _ "serialize_ts sample_wire 8 ''u''"]
    by (simp add: p)
qed

end
