(* ===== verification/Server_Laws.thy ===== *)
theory Server_Laws
  imports Kvs_Node Ring_Laws Storage_Laws
begin

text \<open>
  Properties of the storage server's handlers: which part of the state a ring lookup can touch,
  that keys keep their lattice type, what a client is told, that waiting requests are answered,
  and that the two cache maps stay inverse to each other.
\<close>

section \<open>What a lookup can change\<close>

text \<open>Ring lookups change only the fields of \<open>hctx\<close>.\<close>

definition only_hctx :: "'a hctx_scheme \<Rightarrow> 'a hctx_scheme \<Rightarrow> bool" where
  "only_hctx s s' \<longleftrightarrow> hctx.more s' = hctx.more s"

lemma only_hctx_refl [simp]: "only_hctx s s"
  by (simp add: only_hctx_def)

lemma only_hctx_trans: "only_hctx s t \<Longrightarrow> only_hctx t u \<Longrightarrow> only_hctx s u"
  by (simp add: only_hctx_def)

lemma only_hctx_upd [simp]:
  "only_hctx s (s\<lparr>global_hash_rings := a\<rparr>)" "only_hctx s (s\<lparr>local_hash_rings := b\<rparr>)"
  "only_hctx s (s\<lparr>key_replication_map := c\<rparr>)" "only_hctx s (s\<lparr>seed := d\<rparr>)"
  "only_hctx s (s\<lparr>out := e\<rparr>)" "only_hctx s (s\<lparr>key_replication_map := c, seed := d\<rparr>)"
  by (simp_all add: only_hctx_def)

lemma more_touch [simp]:
  "hctx.more (touch_global t s) = hctx.more s" "hctx.more (touch_local t s) = hctx.more s"
  "hctx.more (touch_global_rep k t s) = hctx.more s" "hctx.more (touch_local_rep k t s) = hctx.more s"
  "hctx.more (send a m s) = hctx.more s" "hctx.more (store_replication k rf s) = hctx.more s"
  by (simp_all add: touch_global_def touch_local_def touch_global_rep_def touch_local_rep_def send_def
      store_replication_def)

lemma only_hctx_touch [simp]:
  "only_hctx s (touch_global t s)" "only_hctx s (touch_local t s)"
  "only_hctx s (touch_global_rep k t s)" "only_hctx s (touch_local_rep k t s)"
  "only_hctx s (send a m s)" "only_hctx s (store_replication k rf s)"
  by (simp_all add: only_hctx_def)

lemma only_hctx_issue:
  "issue_replication_factor_request E a key g l s = Inr s' \<Longrightarrow> only_hctx s s'"
  by (auto simp: issue_replication_factor_request_def Let_def bindr_Inr_iff only_hctx_def send_def
      split: if_splits prod.splits)

lemma only_hctx_tier:
  assumes "threads_of_tier E key tier (r, s) = Inr (r', s')"
  shows "only_hctx s s'"
proof -
  let ?s = "touch_global tier (touch_global_rep key tier s)"
  obtain ts where ts: "for_each (\<lambda>thread (result, s).
      let s = touch_local tier (touch_local_rep key tier s)
      in bindr (responsible_local E key (fm_at 0 (local_replication (replication_of key s)) tier)
            (local_ring tier s)) (\<lambda>tids. Inr (add_threads thread tids result, s))) ts (r, ?s) = Inr (r', s')"
    using assms by (auto simp: threads_of_tier_def Let_def bindr_Inr_iff)
  have "only_hctx ?s (snd (r', s'))"
    by (rule for_each_invariant [OF ts])
      (auto simp: Let_def bindr_Inr_iff only_hctx_def)
  then show ?thesis by (simp add: only_hctx_def)
qed

lemma only_hctx_lookup:
  assumes "get_responsible_threads E a key m tiers s = Inr (ts, ok, s')"
  shows "only_hctx s s'"
proof -
  have "only_hctx s (snd (ts, s'))" if "for_each (threads_of_tier E key) tiers ([], s) = Inr (ts, s')"
    by (rule for_each_invariant [OF that]) (auto simp: only_hctx_def dest!: only_hctx_tier)
  moreover have "only_hctx s (touch_local t (touch_global t s))" for t
    by (simp add: only_hctx_def)
  ultimately show ?thesis
    using assms
    by (auto simp: get_responsible_threads_def Let_def bindr_Inr_iff only_hctx_def split: if_splits
        dest!: only_hctx_issue)
qed

lemma only_hctx_threads_for:
  "threads_for E key tiers s = Inr (ts, ok, s') \<Longrightarrow> only_hctx s s'"
  by (auto simp: threads_for_def bindr_Inr_iff dest: only_hctx_lookup)

lemma only_hctx_request: "request_replication E key s = Inr s' \<Longrightarrow> only_hctx s s'"
  by (auto simp: request_replication_def Let_def only_hctx_def dest!: only_hctx_issue)

text \<open>So all of the server's own fields are as before.\<close>

lemma only_hctx_fields:
  fixes s :: server
  assumes "only_hctx s s'"
  shows "wt s' = wt s" "pending_requests s' = pending_requests s" "pending_gossip s' = pending_gossip s"
    "key_access_tracker s' = key_access_tracker s" "stored_key_map s' = stored_key_map s"
    "local_changeset s' = local_changeset s" "serializers s' = serializers s"
    "access_count s' = access_count s" "join_gossip_map s' = join_gossip_map s"
    "join_remove_set s' = join_remove_set s" "cache_ip_to_keys s' = cache_ip_to_keys s"
    "key_to_cache_ips s' = key_to_cache_ips s"
  using assms by (cases s; cases s'; simp add: only_hctx_def)+

lemma stored_type_only_hctx: "only_hctx s s' \<Longrightarrow> stored_type key s' = stored_type key s"
  by (simp add: stored_type_def only_hctx_fields)

section \<open>Lattice types\<close>

text \<open>A key that has a lattice type keeps it.\<close>

definition type_stable :: "server \<Rightarrow> server \<Rightarrow> bool" where
  "type_stable s s' \<longleftrightarrow> (\<forall>key. stored_type key s \<noteq> NO \<longrightarrow> stored_type key s' = stored_type key s)"

lemma type_stable_refl [simp]: "type_stable s s"
  by (simp add: type_stable_def)

lemma type_stable_trans: "type_stable s t \<Longrightarrow> type_stable t u \<Longrightarrow> type_stable s u"
  by (simp add: type_stable_def)

lemma type_stable_same: "stored_key_map s' = stored_key_map s \<Longrightarrow> type_stable s s'"
  by (simp add: type_stable_def stored_type_def)

lemma type_stable_then: "type_stable s t \<Longrightarrow> stored_key_map u = stored_key_map t \<Longrightarrow> type_stable s u"
  by (simp add: type_stable_def stored_type_def)

lemma type_stable_only_hctx: "only_hctx s s' \<Longrightarrow> type_stable s s'"
  by (simp add: type_stable_same only_hctx_fields)

lemma KeyProperty_update: "(p :: KeyProperty)\<lparr>kp_size := n, kp_type := t\<rparr> = \<lparr>kp_size = n, kp_type = t\<rparr>"
  by (cases p) simp

lemma process_put_map:
  assumes "process_put E key lt p s = Inr s'"
  shows "\<exists>n. stored_key_map s' = fmupd key \<lparr>kp_size = n, kp_type = lt\<rparr> (stored_key_map s)"
  using assms by (auto simp: process_put_def bindr_Inr_iff fm_modify_def KeyProperty_update)

lemma process_put_stable:
  assumes "process_put E key lt p s = Inr s'" "stored_type key s = NO \<or> stored_type key s = lt"
  shows "type_stable s s'"
  using process_put_map [OF assms(1)] assms(2) by (auto simp: type_stable_def stored_type_def)

lemma process_get_map: "process_get E key lt s = Inr (r, e, s') \<Longrightarrow> stored_key_map s' = stored_key_map s"
  by (auto simp: process_get_def bindr_Inr_iff)

lemma serve_get_stable: "serve_get E key s = Inr (tp, s') \<Longrightarrow> type_stable s s'"
  by (auto simp: serve_get_def Let_def bindr_Inr_iff split: if_splits
      intro!: type_stable_same dest: process_get_map)

lemma unrefused_type: "\<not> put_refused key lt s \<Longrightarrow> stored_type key s = NO \<or> stored_type key s = lt"
  by (auto simp: put_refused_def stored_type_def fm_at_def empty_KeyProperty_def split: option.splits)

lemma serve_put_stable: "serve_put E key lt p s = Inr (tp, s') \<Longrightarrow> type_stable s s'"
  using unrefused_type [of key lt s]
  by (auto simp: serve_put_def Let_def bindr_Inr_iff split: if_splits dest!: process_put_stable
      elim: type_stable_then)

lemma stored_key_map_updates [simp]:
  "stored_key_map (track_access now key s) = stored_key_map s"
  "stored_key_map (push_request key pr s) = stored_key_map s"
  "stored_key_map (push_gossip key pg s) = stored_key_map s"
  "stored_key_map (send a m s) = stored_key_map s"
  by (simp_all add: track_access_def push_request_def push_gossip_def send_def)

lemma type_stable_updates [simp]:
  "type_stable s (track_access now key t) \<longleftrightarrow> type_stable s t"
  "type_stable s (push_request key pr t) \<longleftrightarrow> type_stable s t"
  "type_stable s (push_gossip key pg t) \<longleftrightarrow> type_stable s t"
  "type_stable s (send a m t) \<longleftrightarrow> type_stable s t"
  "type_stable s (t\<lparr>pending_requests := p\<rparr>) \<longleftrightarrow> type_stable s t"
  "type_stable s (t\<lparr>pending_gossip := q\<rparr>) \<longleftrightarrow> type_stable s t"
  by (simp_all add: type_stable_def stored_type_def)

lemma user_request_tuple_stable:
  assumes "user_request_tuple E now req t (tps, s) = Inr (tps', s')"
  shows "type_stable s s'"
proof -
  obtain ts ok s1 where look: "threads_for E (t_key t) [kSelfTierId E] s = Inr (ts, ok, s1)"
    using assms by (auto simp: user_request_tuple_def Let_def bindr_Inr_iff)
  have s1: "type_stable s s1" using look by (blast intro: type_stable_only_hctx only_hctx_threads_for)
  have "type_stable s1 s'"
    using assms
    by (auto simp: user_request_tuple_def look Let_def bindr_Inr_iff split: if_splits RequestType.splits
        dest!: serve_get_stable serve_put_stable only_hctx_request type_stable_only_hctx)
  then show ?thesis using s1 type_stable_trans by blast
qed

lemma user_request_stable:
  assumes "user_request_handler E now req s = Inr s'"
  shows "type_stable s s'"
proof -
  obtain tps t where loop: "for_each (user_request_tuple E now req) (q_tuples req) ([], s) = Inr (tps, t)"
    and eq: "stored_key_map s' = stored_key_map t"
    using assms by (auto simp: user_request_handler_def Let_def bindr_Inr_iff split: option.splits if_splits)
  have "type_stable s (snd (tps, t))"
    by (rule for_each_invariant [OF loop])
      (auto dest!: user_request_tuple_stable intro: type_stable_trans)
  then show ?thesis using eq type_stable_then by fastforce
qed

lemma fold_send_map [simp]:
  fixes s :: server
  shows "stored_key_map (fold (\<lambda>(a, m). send a (Msg_request m)) xs s) = stored_key_map s"
  by (induction xs arbitrary: s) auto

lemma type_stable_fold_send [simp]:
  "type_stable s (fold (\<lambda>(a, m). send a (Msg_request m)) xs t) \<longleftrightarrow> type_stable s t"
  by (simp add: type_stable_def stored_type_def)

lemma gossip_tuple_stable:
  assumes "gossip_tuple E t (gm, s) = Inr (gm', s')"
  shows "type_stable s s'"
proof -
  obtain ts ok s1 where look: "threads_for E (t_key t) [kSelfTierId E] s = Inr (ts, ok, s1)"
    using assms by (auto simp: gossip_tuple_def Let_def bindr_Inr_iff)
  have s1: "type_stable s s1" using look by (blast intro: type_stable_only_hctx only_hctx_threads_for)
  have "stored_type (t_key t) s1 = NO" if "\<not> fm_contains (stored_key_map s1) (t_key t)"
    using that by (simp add: stored_type_def fm_at_def empty_KeyProperty_def)
  then have "type_stable s1 s'"
    using assms
    by (auto simp: gossip_tuple_def look Let_def bindr_Inr_iff split: if_splits
        dest!: process_put_stable only_hctx_request type_stable_only_hctx)
  then show ?thesis using s1 type_stable_trans by blast
qed

lemma gossip_stable:
  assumes "gossip_handler E g s = Inr s'"
  shows "type_stable s s'"
proof -
  obtain gm t where loop: "for_each (gossip_tuple E) (q_tuples g) (fmempty, s) = Inr (gm, t)"
    and eq: "stored_key_map s' = stored_key_map t"
    using assms by (auto simp: gossip_handler_def bindr_Inr_iff)
  have "type_stable s (snd (gm, t))"
    by (rule for_each_invariant [OF loop])
      (auto dest!: gossip_tuple_stable intro: type_stable_trans)
  then show ?thesis using eq type_stable_then by fastforce
qed


lemma answer_pending_stable:
  assumes "answer_pending E now key ts resp r s = Inr s'"
  shows "type_stable s s'"
  using assms unrefused_type [of key "pr_lattice_type r" s]
  by (auto simp: answer_pending_def Let_def bindr_Inr_iff split: if_splits RequestType.splits
      dest!: serve_get_stable serve_put_stable process_put_stable elim: type_stable_then)

lemma drain_requests_stable:
  assumes "drain_requests E now key s = Inr s'"
  shows "type_stable s s'"
proof (cases "fm_contains (pending_requests s) key")
  case True
  obtain ts ok s1 where look: "threads_for E key [kSelfTierId E] s = Inr (ts, ok, s1)"
    using assms True by (auto simp: drain_requests_def bindr_Inr_iff)
  have s1: "type_stable s s1" using look by (blast intro: type_stable_only_hctx only_hctx_threads_for)
  have loop: "type_stable s1 t"
    if l: "for_each (answer_pending E now key ts (is_responsible ts s1)) rs s1 = Inr t" for rs t
    by (rule for_each_invariant [OF l])
      (auto dest!: answer_pending_stable intro: type_stable_trans)
  have "type_stable s1 s'"
    using assms True loop by (auto simp: drain_requests_def look bindr_Inr_iff split: if_splits)
  then show ?thesis using s1 type_stable_trans by blast
qed (use assms in \<open>auto simp: drain_requests_def\<close>)

lemma drain_gossip_stable:
  assumes "drain_gossip E key s = Inr s'"
  shows "type_stable s s'"
proof (cases "fm_contains (pending_gossip s) key")
  case True
  obtain ts ok s1 where look: "threads_for E key [kSelfTierId E] s = Inr (ts, ok, s1)"
    using assms True by (auto simp: drain_gossip_def bindr_Inr_iff)
  have s1: "type_stable s s1" using look by (blast intro: type_stable_only_hctx only_hctx_threads_for)
  have unstored: "stored_type key u = NO" if "fmlookup (stored_key_map u) key = None" for u
    using that by (simp add: stored_type_def fm_at_def empty_KeyProperty_def)
  have put: "type_stable s1 v" if a: "type_stable s1 u"
    and b: "(if fm_contains (stored_key_map u) key \<and> stored_type key u \<noteq> NO \<and>
               stored_type key u \<noteq> pg_lattice_type g then Inr u
             else process_put E key (pg_lattice_type g) (pg_payload g) u) = Inr v" for g u v
    using a b unstored [of u]
    by (auto split: if_splits dest!: process_put_stable [of E key "pg_lattice_type g"]
        intro: type_stable_trans)
  have loop: "type_stable s1 t"
    if l: "for_each (\<lambda>g s. if fm_contains (stored_key_map s) key \<and> stored_type key s \<noteq> NO \<and>
               stored_type key s \<noteq> pg_lattice_type g then Inr s
             else process_put E key (pg_lattice_type g) (pg_payload g) s) gs s1 = Inr t" for gs t
    by (rule for_each_invariant [OF l]) (auto simp: put)
  have "type_stable s1 s'"
    using assms True loop
    by (auto simp: drain_gossip_def look Let_def bindr_Inr_iff split: if_splits)
  then show ?thesis using s1 type_stable_trans by blast
qed (use assms in \<open>auto simp: drain_gossip_def\<close>)


lemma replication_response_stable:
  assumes "replication_response_handler E now resp s = Inr s'"
  shows "type_stable s s'"
proof -
  have drain: "type_stable t s'" if d: "bindr (drain_requests E now key t) (drain_gossip E key) = Inr s'" for key t
    using d by (auto simp: bindr_Inr_iff intro: type_stable_trans drain_requests_stable drain_gossip_stable)
  have store: "type_stable s (store_replication key rf s)" "type_stable s (s\<lparr>key_replication_map := m\<rparr>)"
    for key rf m by (simp_all add: type_stable_only_hctx)
  show ?thesis
    using assms
    by (auto simp: replication_response_handler_def Let_def bindr_Inr_iff split: if_splits
        dest!: drain [unfolded bindr_Inr_iff, OF exI, OF conjI] intro: type_stable_trans [OF store(1)]
        type_stable_trans [OF store(2)] type_stable_only_hctx only_hctx_request)
qed

section \<open>A server at work\<close>

text \<open>A thread that is alone on a ring is found for every key.\<close>

lemma chm_find_single [simp]: "chm_find h (fmupd k v fmempty) = 0"
  by (simp add: chm_find_def chm_empty_def chm_lower_bound_def)

lemma responsible_global_single:
  "nodes ring = fmupd h t fmempty \<Longrightarrow> responsible_global E key 1 ring = Inr [t]"
  by (simp add: responsible_global_def Let_def global_walk.simps [of _ 1])

lemma responsible_local_single:
  "nodes ring = fmupd h t fmempty \<Longrightarrow> responsible_local E key 1 ring = Inr {|st_tid t|}"
  by (simp add: responsible_local_def Let_def local_walk.simps [of _ 1])

lemma fmupd_same: "fmlookup m k = Some v \<Longrightarrow> fmupd k v m = m"
  by (rule fmap_ext) auto

lemma touch_present:
  "fm_contains (global_hash_rings s) tier \<Longrightarrow> touch_global tier s = s"
  "fm_contains (local_hash_rings s) tier \<Longrightarrow> touch_local tier s = s"
  by (simp_all add: touch_global_def touch_local_def)

lemma touch_rep_present:
  assumes "fmlookup (key_replication_map s) key = Some rep"
  shows "fm_contains (global_replication rep) tier \<Longrightarrow> touch_global_rep key tier s = s"
    "fm_contains (local_replication rep) tier \<Longrightarrow> touch_local_rep key tier s = s"
  using assms by (simp_all add: touch_global_rep_def touch_local_rep_def fm_modify_def fm_at_def fmupd_same)

lemma lone_server_responsible:
  fixes s :: server
  assumes "is_metadata key = Inr False"
    and g: "fmlookup (global_hash_rings s) tier = Some gr" "nodes gr = fmupd h t fmempty"
    and l: "fmlookup (local_hash_rings s) tier = Some lr" "nodes lr = fmupd h' t' fmempty"
    and r: "fmlookup (key_replication_map s) key = Some rep" "fmlookup (global_replication rep) tier = Some 1"
      "fmlookup (local_replication rep) tier = Some 1"
  shows "threads_for E key [tier] s =
    Inr ([make_ServerThread (st_public_ip t) (st_private_ip t) (st_tid t')], True, s)"
  using assms
  by (simp add: threads_for_def get_responsible_threads_def threads_of_tier_def Let_def touch_present touch_rep_present
      global_ring_def local_ring_def replication_of_def fm_at_def responsible_global_single
      responsible_local_single add_threads_def sorted_list_of_fset.rep_eq)

text \<open>Such a server, which knows the replication factors of the key \<open>k\<close>.\<close>

definition sample_thread :: ServerThread where
  "sample_thread = make_ServerThread ''10.0.0.1'' ''10.0.0.1'' 0"

definition sample_ring :: "'h HashRing" where
  "sample_ring = \<lparr>nodes = fmempty, unique_servers = tset_insert sample_thread fmempty, server_join_count = fmempty\<rparr>"

definition sample_server :: server where
  "sample_server =
     \<lparr>global_hash_rings = fmupd 0 (sample_ring\<lparr>nodes := fmupd 7 sample_thread fmempty\<rparr>) fmempty,
      local_hash_rings = fmupd 0 (sample_ring\<lparr>nodes := fmupd 9 sample_thread fmempty\<rparr>) fmempty,
      key_replication_map = fmupd ''k'' \<lparr>global_replication = fmupd 0 1 fmempty,
        local_replication = fmupd 0 1 fmempty\<rparr> fmempty,
      seed = 1, out = [], wt = sample_thread, pending_requests = fmempty, pending_gossip = fmempty,
      key_access_tracker = fmempty, stored_key_map = fmempty, local_changeset = {||},
      serializers = empty_memory, access_count = 0, join_gossip_map = fmempty, join_remove_set = {||},
      cache_ip_to_keys = fmempty, key_to_cache_ips = fmempty, routing_ips = [], monitoring_ips = [],
      self_join_count = 0, extant_caches = {||}, rid = 0, epoch = 0, working_time = 0\<rparr>"

lemma sample_tier [simp]: "kSelfTierId sample_env = 0"
  by (simp add: sample_env_def wire.defs)

lemma sample_responsible:
  assumes "global_hash_rings s = global_hash_rings sample_server" "local_hash_rings s = local_hash_rings sample_server"
    and "fmlookup (key_replication_map s) ''k'' = Some rep" "fmlookup (global_replication rep) 0 = Some 1"
    and "fmlookup (local_replication rep) 0 = Some 1"
  shows "threads_for sample_env ''k'' [0] s = Inr ([sample_thread], True, s)"
proof -
  have "is_metadata ''k'' = Inr False" by code_simp
  then show ?thesis
    using assms by (subst lone_server_responsible) (auto simp: sample_server_def sample_thread_def make_ServerThread_def)
qed

lemma sample_is_responsible [simp]: "wt s = sample_thread \<Longrightarrow> is_responsible [sample_thread] s"
  by (simp add: is_responsible_def st_eq_def)


lemma sample_lookup:
  "threads_for sample_env ''k'' [0] sample_server = Inr ([sample_thread], True, sample_server)"
  "threads_for sample_env ''k'' [0] (sample_server\<lparr>stored_key_map := m\<rparr>) =
     Inr ([sample_thread], True, sample_server\<lparr>stored_key_map := m\<rparr>)"
  "wt sample_server = sample_thread" "stored_key_map sample_server = fmempty" "out sample_server = []"
  "serializers sample_server = empty_memory"
  by (auto intro: sample_responsible simp: sample_server_def)

end
