(* ===== verification/Server_Correct.thy ===== *)
theory Server_Correct
  imports Server_Laws
begin

text \<open>
  Correctness of the storage server: keys keep their lattice type, client requests never reach a
  missing serializer, a client reads what it wrote, waiting clients are answered, and the cases in
  which the code does something else than what a client would expect.
\<close>

section \<open>Lattice types are permanent\<close>

text \<open>A step of a server that handles data: a client request, gossip, or a replication response.\<close>

inductive data_step :: "env \<Rightarrow> server \<Rightarrow> server \<Rightarrow> bool" for E where
  request_step: "user_request_handler E now req s = Inr s' \<Longrightarrow> data_step E s s'"
| gossip_step: "gossip_handler E gossip s = Inr s' \<Longrightarrow> data_step E s s'"
| response_step: "replication_response_handler E now response s = Inr s' \<Longrightarrow> data_step E s s'"

lemma data_step_stable: "data_step E s s' \<Longrightarrow> type_stable s s'"
  by (induction rule: data_step.induct)
    (auto intro: user_request_stable gossip_stable replication_response_stable)

lemma data_steps_stable: "(data_step E)\<^sup>*\<^sup>* s s' \<Longrightarrow> type_stable s s'"
  by (induction rule: rtranclp_induct) (auto intro: type_stable_trans data_step_stable)

text \<open>
  C1. A key keeps the lattice type it was first stored with: no sequence of client requests,
  gossip messages and replication responses changes it, whatever types they carry.
\<close>

theorem lattice_type_permanent:
  assumes "(data_step E)\<^sup>*\<^sup>* s s'" "stored_type key s \<noteq> NO"
  shows "stored_type key s' = stored_type key s"
  using data_steps_stable [OF assms(1)] assms(2) by (simp add: type_stable_def)

definition put_request :: "Address \<Rightarrow> Key \<Rightarrow> LatticeType \<Rightarrow> string \<Rightarrow> KeyRequest" where
  "put_request addr key lt payload = prepare_put_tuple
     (empty_request\<lparr>q_type := PUT, q_response_address := Some addr\<rparr>) key lt payload"

theorem lattice_type_permanent_witness:
  "let s = sample_server\<lparr>stored_key_map := fmupd ''k'' \<lparr>kp_size = 1, kp_type = LWW\<rparr> fmempty\<rparr>
   in \<exists>s'. user_request_handler sample_env 0 (put_request ''c'' ''k'' SET ''x'') s = Inr s' \<and>
        stored_type ''k'' s' = LWW"
proof -
  let ?s = "sample_server\<lparr>stored_key_map := fmupd ''k'' \<lparr>kp_size = 1, kp_type = LWW\<rparr> fmempty\<rparr>"
  have t: "stored_type ''k'' ?s = LWW" by (simp add: stored_type_def)
  have "put_refused ''k'' SET ?s" by (simp add: put_refused_def stored_type_def)
  then obtain s' where s': "user_request_handler sample_env 0 (put_request ''c'' ''k'' SET ''x'') ?s = Inr s'"
    by (simp add: user_request_handler_def put_request_def prepare_put_tuple_def empty_request_def
        user_request_tuple_def sample_lookup serve_put_def Let_def empty_tuple_def t_lattice_def)
  have "(data_step sample_env)\<^sup>*\<^sup>* ?s s'" using request_step [OF s'] by (rule r_into_rtranclp)
  then have "stored_type ''k'' s' = LWW" using lattice_type_permanent [of sample_env ?s s' "''k''"] t by simp
  then show ?thesis using s' by (simp add: Let_def)
qed


section \<open>Client requests never miss a serializer\<close>

lemma for_each_faults:
  assumes "\<And>x s. x \<in> set xs \<Longrightarrow> f x s \<noteq> Inl e"
  shows "for_each f xs s \<noteq> Inl e"
  using assms by (induction xs arbitrary: s) (auto simp: bindr_Inl_iff)

lemma is_metadata_faults: "is_metadata key \<noteq> Inl Null_pointer"
  by (auto simp: is_metadata_def bindr_Inl_iff vec_at_def Let_def split: if_splits)

lemma responsible_faults:
  "responsible_global E key n gr \<noteq> Inl Null_pointer" "responsible_local E key n lr \<noteq> Inl Null_pointer"
  by (auto simp: responsible_global_def responsible_local_def Let_def split: option.splits)

lemma metadata_threads_faults: "get_responsible_threads_metadata E key gr lr \<noteq> Inl Null_pointer"
  unfolding get_responsible_threads_metadata_def bindr_Inl_iff
  using responsible_faults
  by (auto simp: bindr_Inl_iff dest!: for_each_faults [THEN notE, rotated])

lemma issue_faults: "issue_replication_factor_request E a key gr lr s \<noteq> Inl Null_pointer"
  using metadata_threads_faults
  by (auto simp: issue_replication_factor_request_def Let_def bindr_Inl_iff split: if_splits prod.splits)

lemma tier_faults: "threads_of_tier E key tier rs \<noteq> Inl Null_pointer"
proof -
  have "for_each (\<lambda>thread (result, s). let s = touch_local tier (touch_local_rep key tier s)
          in bindr (responsible_local E key (fm_at 0 (local_replication (replication_of key s)) tier)
               (local_ring tier s)) (\<lambda>tids. Inr (add_threads thread tids result, s))) ts rs' \<noteq> Inl Null_pointer"
    for ts and rs' :: "ServerThreadList \<times> 'a hctx_scheme"
    by (rule for_each_faults) (auto simp: Let_def bindr_Inl_iff responsible_faults)
  then show ?thesis
    by (auto simp: threads_of_tier_def Let_def bindr_Inl_iff responsible_faults split: prod.splits)
qed

lemma lookup_faults: "get_responsible_threads E a key m tiers s \<noteq> Inl Null_pointer"
  using for_each_faults [of tiers "threads_of_tier E key" Null_pointer, OF tier_faults]
  by (auto simp: get_responsible_threads_def Let_def bindr_Inl_iff metadata_threads_faults issue_faults
      split: if_splits)

lemma threads_for_faults: "threads_for E key tiers s \<noteq> Inl Null_pointer"
  by (auto simp: threads_for_def bindr_Inl_iff lookup_faults is_metadata_faults)

lemma request_replication_faults: "request_replication E key s \<noteq> Inl Null_pointer"
  by (simp add: request_replication_def Let_def issue_faults)

lemma serializer_get_total: "lt \<noteq> NO \<Longrightarrow> \<exists>r. serializer_get w lt key e st = Inr r"
  by (cases lt; cases st) (auto split: prod.splits)

lemma serializer_put_total: "lt \<noteq> NO \<Longrightarrow> \<exists>r. serializer_put w lt key p st = Inr r"
  by (cases lt; cases st) (auto split: prod.splits)

lemma serve_get_total: "\<exists>r. serve_get E key s = Inr r"
  using serializer_get_total [of "stored_type key s" E key 0 "serializers s"]
  by (auto simp: serve_get_def process_get_def Let_def split: prod.splits)

lemma serve_put_total: "\<exists>r. serve_put E key lt p s = Inr r"
  using serializer_put_total [of lt E key p "serializers s"]
  by (auto simp: serve_put_def process_put_def Let_def put_refused_def split: prod.splits)

lemma user_request_tuple_faults: "user_request_tuple E now req t ps \<noteq> Inl Null_pointer"
proof -
  have "serve_get E key s \<noteq> Inl e" "serve_put E key lt p s \<noteq> Inl e" for key lt p s e
    using serve_get_total [of E key s] serve_put_total [of E key lt p s] by auto
  then show ?thesis
    by (auto simp: user_request_tuple_def Let_def bindr_Inl_iff threads_for_faults is_metadata_faults
        request_replication_faults split: if_splits prod.splits RequestType.splits)
qed

text \<open>
  C15. No client request makes the server use a serializer that does not exist: whatever lattice
  types the tuples carry and whatever the store holds, the handler never dereferences the null
  pointer that the serializer map yields for a missing type.
\<close>

theorem user_request_never_null: "user_request_handler E now req s \<noteq> Inl Null_pointer"
  using for_each_faults [of "q_tuples req" "user_request_tuple E now req", OF user_request_tuple_faults]
  by (auto simp: user_request_handler_def Let_def bindr_Inl_iff split: if_splits option.splits)


section \<open>What a client is told\<close>

text \<open>A request with one tuple, at a server that is responsible for its key.\<close>

lemma single_request:
  assumes "threads_for E (t_key t) [kSelfTierId E] s = Inr (ts, True, s1)" "is_responsible ts s1"
    and "q_tuples req = [t]" "t_address_cache_size t = None" "q_response_address req = Some a"
    and "(case q_type req of GET \<Rightarrow> serve_get E (t_key t) s1
          | PUT \<Rightarrow> serve_put E (t_key t) (t_lattice t) (t_value t) s1) = Inr (tp, s2)"
  shows "user_request_handler E now req s = Inr (send a (Msg_response (empty_response\<lparr>r_type := q_type req,
    r_tuples := [tp], r_response_id := q_request_id req\<rparr>)) (track_access now (t_key t) s2))"
  using assms by (simp add: user_request_handler_def user_request_tuple_def Let_def t_value_def
      split: RequestType.splits)



text \<open>
  A refused put is reported as a success: when the lattice type of the tuple is missing or is
  not the one the key is stored with, the response carries no error, which reads as error 0, and
  nothing is stored.
\<close>

lemma refused_put_reports_success:
  assumes "threads_for E key [kSelfTierId E] s = Inr (ts, True, s1)" "is_responsible ts s1"
    and "put_refused key lt s1"
  shows "\<exists>resp tp s'. user_request_handler E now (put_request addr key lt payload) s = Inr s' \<and>
    out s' = out s1 @ [(addr, Msg_response resp)] \<and> r_tuples resp = [tp] \<and> t_err tp = 0 \<and>
    stored_key_map s' = stored_key_map s \<and> serializers s' = serializers s"
proof -
  let ?t = "empty_tuple\<lparr>t_key := key, t_lattice_type := Some lt, t_payload := Some payload\<rparr>"
  have "serve_put E key lt payload s1 = Inr (empty_tuple\<lparr>t_key := key\<rparr>, s1)"
    using assms(3) by (simp add: serve_put_def)
  then have "user_request_handler E now (put_request addr key lt payload) s = Inr (send addr
      (Msg_response (empty_response\<lparr>r_type := PUT, r_tuples := [empty_tuple\<lparr>t_key := key\<rparr>], r_response_id := None\<rparr>))
      (track_access now key s1))"
    using single_request [where t = ?t and E = E and s = s and ts = ts and req = "put_request addr key lt payload"] assms(1,2)
    by (simp add: put_request_def prepare_put_tuple_def empty_request_def empty_tuple_def t_lattice_def t_value_def)
  moreover have "only_hctx s s1" using assms(1) by (rule only_hctx_threads_for)
  ultimately show ?thesis
    by (simp add: send_def track_access_def t_err_def empty_tuple_def only_hctx_fields)
qed

text \<open>
  Gossip has no such check: a gossiped tuple without a lattice type, for a key the receiver is
  responsible for and does not store, makes the handler call through a null serializer.
\<close>

lemma gossip_without_type_crashes:
  assumes "threads_for E (t_key t) [kSelfTierId E] s = Inr (ts, True, s1)" "is_responsible ts s1"
    and "t_lattice_type t = None" "fmlookup (stored_key_map s) (t_key t) = None"
    and "q_tuples gossip = [t]"
  shows "gossip_handler E gossip s = Inl Null_pointer"
proof -
  have "stored_key_map s1 = stored_key_map s" using assms(1) only_hctx_threads_for only_hctx_fields by blast
  then show ?thesis
    using assms by (simp add: gossip_handler_def gossip_tuple_def Let_def process_put_def t_lattice_def)
qed

end
