(* ===== verification/Frame_Laws.thy ===== *)
theory Frame_Laws
  imports Server_Laws
begin

text \<open>
  What no handler touches. A view of the server's state that ignores the rings, the sent messages
  and the serializers is the same after sending gossip (\<open>store_frame\<close>). One that also ignores the
  store, the waiting messages and the statistics is the same after every handler and after the
  periodic work, the tracking of caches excepted (\<open>server_frame\<close>). The locales state which fields
  the view ignores and prove this once; they are interpreted for the pending redistribution, for
  the cache maps and for the identity of the thread.
\<close>

locale store_frame =
  fixes view :: "server \<Rightarrow> 'v"
  assumes view_hctx: "only_hctx s s' \<Longrightarrow> view s' = view s"
    and view_serializers [simp]: "view (s\<lparr>serializers := st\<rparr>) = view s"
begin

lemma view_hctx_fields [simp]:
  "view (s\<lparr>global_hash_rings := a\<rparr>) = view s" "view (s\<lparr>local_hash_rings := b\<rparr>) = view s"
  "view (s\<lparr>key_replication_map := d\<rparr>) = view s" "view (s\<lparr>seed := y\<rparr>) = view s" "view (s\<lparr>out := z\<rparr>) = view s"
  "view (send addr msg s) = view s" "view (store_replication key rf s) = view s"
  "view (touch_global t s) = view s" "view (touch_local t s) = view s"
  "view (touch_global_rep key t s) = view s"
  by (rule view_hctx, simp)+

lemma view_lookup: "threads_for E key tiers s = Inr (ts, ok, s') \<Longrightarrow> view s' = view s"
  by (intro view_hctx only_hctx_threads_for)

lemma view_request: "request_replication E key s = Inr s' \<Longrightarrow> view s' = view s"
  by (intro view_hctx only_hctx_request)

lemma view_for_each:
  assumes "for_each f xs s = Inr t" "\<And>x s t. f x s = Inr t \<Longrightarrow> view t = view s"
  shows "view t = view s"
  by (rule for_each_invariant [OF assms(1), where P = "\<lambda>t. view t = view s"]) (auto dest: assms(2))

lemma view_for_each_snd:
  assumes "for_each f xs (a, s) = Inr (b, t)" "\<And>x a s b t. f x (a, s) = Inr (b, t) \<Longrightarrow> view t = view s"
  shows "view t = view s"
  using for_each_invariant [OF assms(1), where P = "\<lambda>bt. view (snd bt) = view s"] assms(2) by fastforce

lemma view_fold: "(\<And>x s. view (f x s) = view s) \<Longrightarrow> view (fold f xs s) = view s"
  by (induction xs arbitrary: s) auto

lemma view_fold_send [simp]: "view (fold (\<lambda>(a, m). send a (Msg_request m)) xs s) = view s"
  by (rule view_fold) auto

lemma view_fold_snd: "(\<And>x u. view (snd (f x u)) = view (snd u)) \<Longrightarrow> view (snd (fold f xs u)) = view (snd u)"
  by (induction xs arbitrary: u) auto

lemma view_process_get: "process_get E key lt s = Inr (r, e, s') \<Longrightarrow> view s' = view s"
  by (auto simp: process_get_def bindr_Inr_iff)

lemma view_send_gossip:
  assumes "send_gossip E m s = Inr s'"
  shows "view s' = view s"
proof -
  have key: "view t = view s"
    if "(if \<not> fm_contains (stored_key_map s) key then Inr (gm, s)
         else let type = stored_type key s
              in bindr (process_get E key type s) (\<lambda>(res, err, s).
                   Inr (if err = 0 then fm_modify empty_request addr (\<lambda>r. prepare_put_tuple r key type res) gm
                        else gm, s))) = Inr (gm', t)" for key gm s gm' t addr
    using that by (auto simp: Let_def bindr_Inr_iff split: if_splits dest!: view_process_get)
  have "view t = view s"
    if "for_each (\<lambda>(address, keys) (gossip_map, s).
         let gossip_map = fm_modify empty_request address (\<lambda>r. r\<lparr>q_type := PUT\<rparr>) gossip_map
         in for_each (\<lambda>key (gossip_map, s).
              if \<not> fm_contains (stored_key_map s) key then Inr (gossip_map, s)
              else let type = stored_type key s
                   in bindr (process_get E key type s) (\<lambda>(res, err, s).
                        Inr (if err = 0 then fm_modify empty_request address
                                    (\<lambda>r. prepare_put_tuple r key type res) gossip_map
                             else gossip_map, s)))
            (fs_elems keys) (gossip_map, s)) xs (gm, s) = Inr (gm', t)" for xs gm gm' t
    by (rule view_for_each_snd [OF that]) (auto simp: Let_def dest!: view_for_each_snd [OF _ key, simplified])
  then show ?thesis using assms by (auto simp: send_gossip_def bindr_Inr_iff)
qed

end

text \<open>A view that ignores the whole store, the waiting messages and the statistics.\<close>

locale server_frame = store_frame view for view :: "server \<Rightarrow> 'v" +
  assumes view_store: "view (s\<lparr>stored_key_map := m\<rparr>) = view s" "view (s\<lparr>local_changeset := c\<rparr>) = view s"
    and view_pending: "view (s\<lparr>pending_requests := p\<rparr>) = view s" "view (s\<lparr>pending_gossip := q\<rparr>) = view s"
    and view_stats: "view (s\<lparr>key_access_tracker := k\<rparr>) = view s" "view (s\<lparr>access_count := n\<rparr>) = view s"
      "view (s\<lparr>working_time := w\<rparr>) = view s" "view (s\<lparr>epoch := e\<rparr>) = view s" "view (s\<lparr>rid := r\<rparr>) = view s"
    and view_join: "view (s\<lparr>join_gossip_map := g\<rparr>) = view s" "view (s\<lparr>join_remove_set := x\<rparr>) = view s"
begin

lemmas view_simps [simp] = view_store view_pending view_stats view_join

lemma view_push [simp]:
  "view (push_request key pr s) = view s" "view (push_gossip key pg s) = view s"
  "view (track_access now key s) = view s"
  by (simp_all add: push_request_def push_gossip_def track_access_def)

lemma view_process:
  "process_get E key lt s = Inr (r, e, s') \<Longrightarrow> view s' = view s"
  "process_put E key lt p s = Inr s' \<Longrightarrow> view s' = view s"
  by (auto simp: process_get_def process_put_def bindr_Inr_iff)

lemma view_serve:
  "serve_get E key s = Inr (tp, s') \<Longrightarrow> view s' = view s"
  "serve_put E key lt p s = Inr (tp, s') \<Longrightarrow> view s' = view s"
  by (auto simp: serve_get_def serve_put_def Let_def bindr_Inr_iff dest: view_process split: if_splits)

lemma view_user_request:
  assumes "user_request_handler E now req s = Inr s'"
  shows "view s' = view s"
proof -
  have tuple: "view t = view s" if "user_request_tuple E now req x (a, s) = Inr (b, t)" for x a s b t
    using that
    by (auto simp: user_request_tuple_def Let_def bindr_Inr_iff split: if_splits RequestType.splits
        dest!: view_lookup view_serve view_request)
  then show ?thesis
    using assms
    by (auto simp: user_request_handler_def Let_def bindr_Inr_iff split: option.splits if_splits
        dest!: view_for_each_snd [OF _ tuple])
qed

lemma view_gossip:
  assumes "gossip_handler E g s = Inr s'"
  shows "view s' = view s"
proof -
  have tuple: "view t = view s" if "gossip_tuple E x (a, s) = Inr (b, t)" for x a s b t
    using that
    by (auto simp: gossip_tuple_def Let_def bindr_Inr_iff split: if_splits
        dest!: view_lookup view_process view_request)
  then show ?thesis
    using assms by (auto simp: gossip_handler_def bindr_Inr_iff dest!: view_for_each_snd [OF _ tuple])
qed

lemma view_drain_requests:
  assumes "drain_requests E now key s = Inr s'"
  shows "view s' = view s"
proof -
  have ans: "view t = view s" if "answer_pending E now key ts resp r s = Inr t" for ts resp r s t
    using that
    by (auto simp: answer_pending_def Let_def bindr_Inr_iff split: if_splits RequestType.splits
        dest!: view_serve view_process)
  then show ?thesis
    using assms
    by (auto simp: drain_requests_def bindr_Inr_iff split: if_splits dest!: view_lookup view_for_each [OF _ ans])
qed

lemma view_drain_gossip:
  assumes "drain_gossip E key s = Inr s'"
  shows "view s' = view s"
proof -
  have put: "view t = view s"
    if "(if fm_contains (stored_key_map s) key \<and> stored_type key s \<noteq> NO \<and> stored_type key s \<noteq> pg_lattice_type g
         then Inr s else process_put E key (pg_lattice_type g) (pg_payload g) s) = Inr t" for g s t
    using that by (auto split: if_splits dest: view_process)
  show ?thesis
    using assms
    by (auto simp: drain_gossip_def Let_def bindr_Inr_iff split: if_splits
        dest!: view_lookup view_for_each [OF _ put, simplified])
qed

lemma view_replication_response:
  assumes "replication_response_handler E now resp s = Inr s'"
  shows "view s' = view s"
  using assms
  by (auto simp: replication_response_handler_def Let_def bindr_Inr_iff split: if_splits
      dest!: view_drain_requests view_drain_gossip view_request)

lemma view_tell_workers [simp]: "view (tell_workers E addr msg s) = view s"
  by (simp add: tell_workers_def view_fold)

lemma view_update_factors [simp]:
  "view (snd (update_global key reps ds)) = view (snd ds)" "view (snd (update_local key reps ds)) = view (snd ds)"
  by (induction reps arbitrary: ds) (auto simp: update_global_def update_local_def split: prod.splits)

lemma view_change_key:
  assumes "replication_change_key E rf (m, r, s) = Inr (m', r', s')"
  shows "view s' = view s"
proof (cases "fm_contains (stored_key_map s) (rf_key rf)")
  case True
  let ?key = "rf_key rf"
  obtain ts ok s1 where look: "threads_for E ?key kAllTierIds s = Inr (ts, ok, s1)"
    using assms True by (cases "threads_for E ?key kAllTierIds s") (fastforce simp: replication_change_key_def)+
  have s1: "view s1 = view s" using view_lookup [OF look] .
  show ?thesis
  proof (cases ok)
    case ok: True
    obtain d s2 where upd: "update_local ?key (rf_local rf) (update_global ?key (rf_global rf) (False, s1)) = (d, s2)"
      by fastforce
    have s2: "view s2 = view s" using view_update_factors by (metis upd snd_conv s1)
    obtain ts2 ok2 s3 where look2: "threads_for E ?key kAllTierIds s2 = Inr (ts2, ok2, s3)"
      using assms True ok
      by (cases "threads_for E ?key kAllTierIds s2") (fastforce simp: replication_change_key_def look upd)+
    have "s' = s3"
      using assms True ok
      by (auto simp: replication_change_key_def Let_def look upd look2 bindr_Inr_iff split: if_splits)
    then show ?thesis using view_lookup [OF look2] s2 by simp
  qed (use assms True s1 in \<open>auto simp: replication_change_key_def Let_def look\<close>)
qed (use assms in \<open>auto simp: replication_change_key_def Let_def\<close>)

lemma view_remove_key: "remove_key key s = Inr s' \<Longrightarrow> view s' = view s"
  by (auto simp: remove_key_def bindr_Inr_iff)

lemma view_replication_change:
  assumes "replication_change_handler E update s = Inr s'"
  shows "view s' = view s"
proof -
  have change: "view (snd bt) = view (snd as)" if "replication_change_key E rf (a, as) = Inr (b, bt)" for rf a as b bt
    using that by (cases as; cases bt) (auto dest: view_change_key)
  have loop: "view t = view s" if l: "for_each (replication_change_key E) xs (a, r, s) = Inr (b, r', t)" for xs a r s b r' t
    using for_each_invariant [OF l, where P = "\<lambda>x. view (snd (snd x)) = view s"] change by fastforce
  have rem: "view t = view s"
    if "bindr (remove_key key s) (\<lambda>s. Inr (s\<lparr>local_changeset := local_changeset s |-| {|key|}\<rparr>)) = Inr t" for key s t
    using that by (auto simp: bindr_Inr_iff dest: view_remove_key)
  show ?thesis
    using assms
    by (auto simp: replication_change_handler_def Let_def bindr_Inr_iff split: if_splits
        dest!: loop view_send_gossip view_for_each [OF _ rem])
qed

lemma view_node_join:
  assumes "node_join_handler E serialized s = Inr s'"
  shows "view s' = view s"
proof -
  have key: "view t = view s" if "join_key E ip n k s = Inr t" for ip n k s t
    using that by (auto simp: join_key_def bindr_Inr_iff split: if_splits dest!: view_lookup)
  have loop: "view t = view s" if "for_each (\<lambda>e. join_key E ip n (fst e)) xs s = Inr t" for ip n xs s t
    by (rule view_for_each [OF that]) (auto dest: key)
  have sends: "view (fold (\<lambda>st s. if P st s then send (a st) m s else s) xs s) = view s" for P a m xs s
    by (rule view_fold) simp
  show ?thesis
    using assms
    by (auto simp: node_join_handler_def Let_def bindr_Inr_iff case_prod_unfold sends split: if_splits dest!: loop)
qed

lemma view_node_depart:
  assumes "node_depart_handler E serialized s = Inr s'"
  shows "view s' = view s"
  using assms by (auto simp: node_depart_handler_def Let_def bindr_Inr_iff split: if_splits)

lemma view_self_depart:
  assumes "self_depart_handler E addr s = Inr s'"
  shows "view s' = view s"
proof -
  have key: "view t = view s" if "depart_key E k (m, s) = Inr (m', t)" for k m s m' t
    using that by (auto simp: depart_key_def bindr_Inr_iff split: if_splits dest!: view_lookup)
  have loop: "view t = view s" if "for_each (\<lambda>(k, p). depart_key E k) xs (m, s) = Inr (m', t)" for xs m s m' t
    by (rule view_for_each_snd [OF that]) (auto dest: key)
  have sends: "view (fold (\<lambda>x. send (a x) m) xs s) = view s" for a :: "'x \<Rightarrow> Address" and m xs s
    by (rule view_fold) simp
  show ?thesis
    using assms
    by (auto simp: self_depart_handler_def Let_def bindr_Inr_iff sends split: if_splits
        dest!: loop view_send_gossip)
qed

lemma view_gossip_epoch:
  assumes "gossip_epoch E s = Inr s'"
  shows "view s' = view s"
proof -
  have key: "view t = view s" if "gossip_key E k (m, s) = Inr (m', t)" for k m s m' t
    using that by (auto simp: gossip_key_def bindr_Inr_iff Let_def split: if_splits dest!: view_lookup)
  then show ?thesis
    using assms
    by (auto simp: gossip_epoch_def bindr_Inr_iff split: if_splits dest!: view_send_gossip view_for_each_snd [OF _ key])
qed

lemma view_redistribute:
  assumes "redistribute E s = Inr s'"
  shows "view s' = view s"
proof -
  have rem: "view t = view s"
    if "remove_key key (s\<lparr>stored_key_map := fm_touch empty_KeyProperty key (stored_key_map s)\<rparr>) = Inr t" for key s t
    using that by (auto dest: view_remove_key)
  show ?thesis
    using assms
    by (auto simp: redistribute_def Let_def bindr_Inr_iff case_prod_unfold split: if_splits
        dest!: view_send_gossip view_for_each [OF _ rem])
qed

lemma view_report_put: "report_put E ts type payload s = Inr s' \<Longrightarrow> view s' = view s"
  by (auto simp: report_put_def Let_def bindr_Inr_iff split: if_splits prod.splits)

lemma view_is_primary: "view (snd (is_primary_replica E key s)) = view s"
  by (simp add: is_primary_replica_def Let_def case_prod_unfold view_fold_snd)

lemma view_primary_sizes: "view (snd (primary_sizes E s)) = view s"
  by (simp add: primary_sizes_def Let_def case_prod_unfold view_fold_snd view_is_primary)

lemma view_request_cache_keys:
  assumes "request_cache_keys E rnd s = Inr s'"
  shows "view s' = view s"
proof -
  have "view t = view s" if "for_each (\<lambda>(i, ip) (m, s).
         let s = touch_local kMemoryTierId (touch_global kMemoryTierId s)
         in bindr (prepare_metadata_get_request E (rnd i) (get_user_metadata_key ip cache_ip)
              (global_ring kMemoryTierId s) (local_ring kMemoryTierId s) m
              (st_cache_ip_response_connect_address (wt s)) (rid s)) (\<lambda>(m, r). Inr (m, s\<lparr>rid := r\<rparr>)))
       xs (m, s) = Inr (m', t)" for xs m s m' t
    by (rule view_for_each_snd [OF that]) (auto simp: Let_def bindr_Inr_iff)
  then show ?thesis using assms by (auto simp: request_cache_keys_def bindr_Inr_iff)
qed

text \<open>The report changes the view only as far as the tracking of caches does.\<close>

lemma view_report_epoch:
  assumes "report_epoch E now ms d func_nodes rnd s = Inr s'"
  shows "\<exists>u. view u = view s \<and> view s' = view (update_caches func_nodes u)"
  using assms view_primary_sizes
  by (fastforce simp: report_epoch_def Let_def bindr_Inr_iff case_prod_unfold
      dest!: view_report_put view_request_cache_keys)

end

interpretation join_view: store_frame "\<lambda>s. (join_gossip_map s, join_remove_set s, stored_key_map s)"
  by unfold_locales (simp_all add: only_hctx_fields)

interpretation cache_view: server_frame "\<lambda>s. (cache_ip_to_keys s, key_to_cache_ips s)"
  by unfold_locales (simp_all add: only_hctx_fields)

interpretation identity_view: server_frame "\<lambda>s. (wt s, routing_ips s, monitoring_ips s, self_join_count s)"
proof unfold_locales
  fix s s' :: server
  assume "only_hctx s s'"
  then show "(wt s', routing_ips s', monitoring_ips s', self_join_count s') =
      (wt s, routing_ips s, monitoring_ips s, self_join_count s)"
    by (cases s; cases s') (simp add: only_hctx_def)
qed simp_all

end
