(* ===== verification/Node_Laws.thy ===== *)
theory Node_Laws
  imports Frame_Laws
begin

text \<open>
  Properties of the rest of the storage server: waiting clients are answered when the replication
  factors arrive, the two cache maps stay inverse to each other, and three places where the
  periodic work does not do what it means to.
\<close>

section \<open>Waiting clients are answered\<close>

text \<open>Messages that were sent stay sent.\<close>

definition sent_more :: "'a hctx_scheme \<Rightarrow> 'a hctx_scheme \<Rightarrow> bool" where
  "sent_more s s' \<longleftrightarrow> set (out s) \<subseteq> set (out s')"

lemma sent_more_refl [simp]: "sent_more s s"
  by (simp add: sent_more_def)

lemma sent_more_trans: "sent_more s t \<Longrightarrow> sent_more t u \<Longrightarrow> sent_more s u"
  by (auto simp: sent_more_def)

lemma out_send [simp]: "out (send a m s) = out s @ [(a, m)]"
  by (simp add: send_def)

lemma out_process:
  "process_get E key lt s = Inr (r, e, s') \<Longrightarrow> out s' = out s"
  "process_put E key lt p s = Inr s' \<Longrightarrow> out s' = out s"
  by (auto simp: process_get_def process_put_def bindr_Inr_iff)

lemma out_serve:
  "serve_get E key s = Inr (tp, s') \<Longrightarrow> out s' = out s"
  "serve_put E key lt p s = Inr (tp, s') \<Longrightarrow> out s' = out s"
  by (auto simp: serve_get_def serve_put_def Let_def bindr_Inr_iff dest: out_process split: if_splits)

lemma out_track [simp]: "out (track_access now key s) = out s"
  by (simp add: track_access_def)

lemma out_touch [simp]:
  "out (touch_global t s) = out s" "out (touch_local t s) = out s"
  "out (touch_global_rep k t s) = out s" "out (touch_local_rep k t s) = out s"
  by (simp_all add: touch_global_def touch_local_def touch_global_rep_def touch_local_rep_def)

lemma sent_more_issue: "issue_replication_factor_request E a key g l s = Inr s' \<Longrightarrow> sent_more s s'"
  by (auto simp: issue_replication_factor_request_def Let_def bindr_Inr_iff sent_more_def
      split: if_splits prod.splits)

lemma out_tier:
  assumes "threads_of_tier E key tier (r, s) = Inr (r', s')"
  shows "out s' = out s"
proof -
  let ?s = "touch_global tier (touch_global_rep key tier s)"
  obtain ts where ts: "for_each (\<lambda>thread (result, s).
      let s = touch_local tier (touch_local_rep key tier s)
      in bindr (responsible_local E key (fm_at 0 (local_replication (replication_of key s)) tier)
            (local_ring tier s)) (\<lambda>tids. Inr (add_threads thread tids result, s))) ts (r, ?s) = Inr (r', s')"
    using assms by (auto simp: threads_of_tier_def Let_def bindr_Inr_iff)
  have "out (snd (r', s')) = out ?s"
    by (rule for_each_invariant [OF ts]) (auto simp: Let_def bindr_Inr_iff)
  then show ?thesis by simp
qed

lemma sent_more_lookup:
  assumes "get_responsible_threads E a key m tiers s = Inr (ts, ok, s')"
  shows "sent_more s s'"
proof -
  have "out (snd (ts, s')) = out s" if "for_each (threads_of_tier E key) tiers ([], s) = Inr (ts, s')"
    by (rule for_each_invariant [OF that]) (auto dest!: out_tier)
  then show ?thesis
    using assms
    by (auto simp: get_responsible_threads_def Let_def bindr_Inr_iff sent_more_def split: if_splits
        dest!: sent_more_issue [unfolded sent_more_def])
qed

lemma sent_more_threads_for: "threads_for E key tiers s = Inr (ts, ok, s') \<Longrightarrow> sent_more s s'"
  by (auto simp: threads_for_def bindr_Inr_iff dest: sent_more_lookup)

lemma answer_pending_sends:
  assumes "answer_pending E now key ts responsible r s = Inr s'"
  shows "sent_more s s'"
    and "pr_addr r \<noteq> [] \<Longrightarrow> \<exists>resp tp. (pr_addr r, Msg_response resp) \<in> set (out s') \<and> r_tuples resp = [tp] \<and>
      r_type resp = pr_type r \<and> r_response_id resp = (if pr_response_id r \<noteq> [] then Some (pr_response_id r) else None) \<and>
      (\<not> responsible \<longrightarrow> t_err tp = 2 \<and> t_addresses tp = map st_key_request_connect_address ts)"
  using assms
  by (auto simp: answer_pending_def Let_def sent_more_def bindr_Inr_iff empty_response_def t_err_def
      split: if_splits RequestType.splits dest!: out_serve out_process)

lemma answer_pending_keeps:
  "answer_pending E now key ts responsible r s = Inr s' \<Longrightarrow> pending_gossip s' = pending_gossip s"
  by (auto simp: answer_pending_def Let_def bindr_Inr_iff send_def track_access_def serve_get_def serve_put_def
      process_get_def process_put_def split: if_splits RequestType.splits)


text \<open>What each round of a loop achieves and no later round undoes holds at the end.\<close>

lemma for_each_collect:
  assumes "for_each f xs s = Inr t"
    and "\<And>x u v. x \<in> set xs \<Longrightarrow> f x u = Inr v \<Longrightarrow> Q x v"
    and "\<And>x y u v. f x u = Inr v \<Longrightarrow> Q y u \<Longrightarrow> Q y v"
  shows "\<forall>x\<in>set xs. Q x t"
  using assms(1,2)
proof (induction xs arbitrary: s)
  case (Cons x xs)
  from Cons.prems(1) obtain u where u: "f x s = Inr u" and rest: "for_each f xs u = Inr t"
    by (auto simp: bindr_Inr_iff)
  have "Q x u" using Cons.prems(2) u by simp
  then have "Q x t" by (rule for_each_invariant [OF rest]) (rule assms(3))
  moreover have "\<forall>y\<in>set xs. Q y t" using Cons.IH [OF rest] Cons.prems(2) by simp
  ultimately show ?case by simp
qed simp

definition answered :: "server \<Rightarrow> PendingRequest \<Rightarrow> bool" where
  "answered s r \<longleftrightarrow> pr_addr r \<noteq> [] \<longrightarrow>
     list_ex (\<lambda>(a, m). a = pr_addr r \<and> (case m of Msg_response resp \<Rightarrow>
        r_type resp = pr_type r \<and> from_option [] (r_response_id resp) = pr_response_id r \<and>
        length (r_tuples resp) = 1 | _ \<Rightarrow> False)) (out s)"

lemma answered_more: "answered s r \<Longrightarrow> sent_more s s' \<Longrightarrow> answered s' r"
  by (fastforce simp: answered_def sent_more_def list_ex_iff)

lemma answer_pending_answers:
  assumes "answer_pending E now key ts responsible r s = Inr s'"
  shows "answered s' r"
proof (cases "pr_addr r = []")
  case False
  then obtain resp tp where "(pr_addr r, Msg_response resp) \<in> set (out s')" "r_tuples resp = [tp]"
      "r_type resp = pr_type r"
      and id: "r_response_id resp = (if pr_response_id r \<noteq> [] then Some (pr_response_id r) else None)"
    using answer_pending_sends(2) [OF assms] by blast
  moreover have "from_option [] (r_response_id resp) = pr_response_id r" by (simp add: id)
  ultimately show ?thesis
    unfolding answered_def list_ex_iff by (intro impI bexI [of _ "(pr_addr r, Msg_response resp)"]) simp_all
qed (simp add: answered_def)

lemma drain_requests_answers:
  assumes "threads_for E key [kSelfTierId E] s = Inr (ts, True, s1)" "drain_requests E now key s = Inr s'"
  shows "fmlookup (pending_requests s') key = None"
    and "r \<in> set (fm_at [] (pending_requests s) key) \<Longrightarrow> answered s' r"
proof -
  show "fmlookup (pending_requests s') key = None"
    using assms by (auto simp: drain_requests_def bindr_Inr_iff split: if_splits)
  assume r: "r \<in> set (fm_at [] (pending_requests s) key)"
  then have some: "fm_contains (pending_requests s) key"
    by (cases "fmlookup (pending_requests s) key") (simp_all add: fm_at_def)
  have same: "pending_requests s1 = pending_requests s"
    using assms(1) only_hctx_threads_for only_hctx_fields by blast
  obtain t where t: "for_each (answer_pending E now key ts (is_responsible ts s1))
      (fm_at [] (pending_requests s) key) s1 = Inr t"
    and s': "s' = t\<lparr>pending_requests := fmdrop key (pending_requests t)\<rparr>"
    using assms some by (auto simp: drain_requests_def bindr_Inr_iff same)
  have "\<forall>r\<in>set (fm_at [] (pending_requests s) key). answered t r"
    by (rule for_each_collect [OF t])
      (auto intro: answer_pending_answers answered_more answer_pending_sends)
  then show "answered s' r" using r by (simp add: s' answered_def)
qed


lemma pending_requests_send [simp]: "pending_requests (send a m s) = pending_requests s"
  by (simp add: send_def)

lemma fold_send_fields [simp]:
  fixes s :: server
  shows "pending_requests (fold (\<lambda>(a, m). send a (Msg_request m)) xs s) = pending_requests s"
    and "set (out s) \<subseteq> set (out (fold (\<lambda>(a, m). send a (Msg_request m)) xs s))"
proof -
  show "pending_requests (fold (\<lambda>(a, m). send a (Msg_request m)) xs s) = pending_requests s"
    by (induction xs arbitrary: s) (simp_all add: split_beta)
  show "set (out s) \<subseteq> set (out (fold (\<lambda>(a, m). send a (Msg_request m)) xs s))"
  proof (induction xs arbitrary: s)
    case (Cons x xs)
    then show ?case
      using Cons.IH [of "send (fst x) (Msg_request (snd x)) s"] by (cases x) auto
  qed simp
qed

lemma sent_more_updates [simp]:
  fixes s :: server
  shows "sent_more s (t\<lparr>pending_gossip := q\<rparr>) \<longleftrightarrow> sent_more s t"
    "sent_more t (fold (\<lambda>(a, m). send a (Msg_request m)) xs t)"
  using fold_send_fields(2) by (auto simp: sent_more_def)

lemma sent_more_same: "sent_more s t \<Longrightarrow> out u = out t \<Longrightarrow> sent_more s u"
  by (simp add: sent_more_def)

lemma drain_gossip_keeps:
  assumes "drain_gossip E key s = Inr s'"
  shows "pending_requests s' = pending_requests s \<and> sent_more s s' \<and> fmlookup (pending_gossip s') key = None"
proof (cases "fm_contains (pending_gossip s) key")
  case True
  obtain ts ok s1 where look: "threads_for E key [kSelfTierId E] s = Inr (ts, ok, s1)"
    using assms True by (auto simp: drain_gossip_def bindr_Inr_iff)
  have s1: "pending_requests s1 = pending_requests s" "sent_more s s1"
    using only_hctx_fields [OF only_hctx_threads_for [OF look]] sent_more_threads_for [OF look] by simp_all
  have loop: "pending_requests t = pending_requests s1 \<and> out t = out s1"
    if l: "for_each (\<lambda>g s. if fm_contains (stored_key_map s) key \<and> stored_type key s \<noteq> NO \<and>
               stored_type key s \<noteq> pg_lattice_type g then Inr s
             else process_put E key (pg_lattice_type g) (pg_payload g) s) gs s1 = Inr t" for gs t
    by (rule for_each_invariant [OF l]) (auto simp: process_put_def bindr_Inr_iff split: if_splits)
  show ?thesis
    using assms True s1
    by (auto simp: drain_gossip_def look Let_def bindr_Inr_iff split: if_splits
        dest!: loop [simplified] intro: sent_more_same [OF s1(2)] sent_more_trans [OF s1(2) sent_more_updates(2)])
qed (use assms in \<open>auto simp: drain_gossip_def\<close>)

lemma lookup_succeeds:
  assumes "threads_for E key tiers s = Inr (ts, ok, s')" "fm_contains (key_replication_map s) key"
  shows "ok"
  using assms by (auto simp: threads_for_def get_responsible_threads_def Let_def bindr_Inr_iff split: if_splits)


lemma contains_fold_set:
  "fm_contains (fold (\<lambda>r. set_local_replication key (rep_tier_id r) (rep_factor r)) rs m) key \<longleftrightarrow>
     rs \<noteq> [] \<or> fm_contains m key"
  "fm_contains (fold (\<lambda>r. set_global_replication key (rep_tier_id r) (rep_factor r)) rs m) key \<longleftrightarrow>
     rs \<noteq> [] \<or> fm_contains m key"
  by (induction rs arbitrary: m) (auto simp: set_local_replication_def set_global_replication_def fm_modify_def)

definition response_factors :: "env \<Rightarrow> KeyTuple \<Rightarrow> ReplicationFactor" where
  "response_factors E t = fst (parse_rep E (from_option [] (lv_value (fst (parse_lww E (t_value t))))))"

lemma drain_answers:
  assumes "bindr (drain_requests E now key s) (drain_gossip E key) = Inr s'"
    and "fm_contains (key_replication_map s) key" "r \<in> set (fm_at [] (pending_requests s) key)"
  shows "answered s' r"
proof -
  obtain t where t: "drain_requests E now key s = Inr t" "drain_gossip E key t = Inr s'"
    using assms(1) by (auto simp: bindr_Inr_iff)
  have "fm_contains (pending_requests s) key"
    using assms(3) by (cases "fmlookup (pending_requests s) key") (simp_all add: fm_at_def)
  then obtain ts ok s1 where look: "threads_for E key [kSelfTierId E] s = Inr (ts, ok, s1)"
    using t(1) by (auto simp: drain_requests_def bindr_Inr_iff)
  then have ok: "threads_for E key [kSelfTierId E] s = Inr (ts, True, s1)"
    using lookup_succeeds [OF look assms(2)] by simp
  show ?thesis
    using drain_requests_answers(2) [OF ok t(1) assms(3)] drain_gossip_keeps [OF t(2)] answered_more by blast
qed

lemma drain_clears:
  assumes "bindr (drain_requests E now key s) (drain_gossip E key) = Inr s'"
  shows "fmlookup (pending_requests s') key = None \<and> fmlookup (pending_gossip s') key = None"
proof -
  obtain t where t: "drain_requests E now key s = Inr t" "drain_gossip E key t = Inr s'"
    using assms(1) by (auto simp: bindr_Inr_iff)
  have "fmlookup (pending_requests t) key = None"
    using t(1) by (auto simp: drain_requests_def bindr_Inr_iff split: if_splits)
  then show ?thesis using drain_gossip_keeps [OF t(2)] by simp
qed

text \<open>
  C2. Waiting clients are answered: when a replication response with factors for a key arrives, or
  the answer that there are none yet, every request that waits for the key and has an address gets
  a response with its type, its id and one tuple, and nothing waits for the key any more.
\<close>

theorem waiting_clients_answered:
  assumes "r_tuples response = t # rest" "get_key_from_metadata (t_key t) = Inr key"
    and "t_err t = 1 \<or> t_err t = 0 \<and> (rf_global (response_factors E t) \<noteq> [] \<or> rf_local (response_factors E t) \<noteq> [])"
    and "replication_response_handler E now response s = Inr s'"
  shows "fmlookup (pending_requests s') key = None \<and> fmlookup (pending_gossip s') key = None \<and>
    list_all (answered s') (fm_at [] (pending_requests s) key)"
proof -
  define u where "u = (if t_err t = 0 then store_replication key (response_factors E t) s
    else s\<lparr>key_replication_map := init_replication E (key_replication_map s) key\<rparr>)"
  have u: "bindr (drain_requests E now key u) (drain_gossip E key) = Inr s'"
    using assms by (auto simp: replication_response_handler_def vec_at_def Let_def response_factors_def u_def
        split: if_splits)
  have reqs: "pending_requests u = pending_requests s" by (simp add: u_def store_replication_def)
  have known: "fm_contains (key_replication_map u) key"
    using assms(3)
    by (auto simp: u_def store_replication_def init_replication_lookup contains_fold_set [simplified])
  show ?thesis using drain_answers [OF u known] drain_clears [OF u] reqs by (simp add: list_all_iff)
qed

definition sample_waiting :: PendingRequest where
  "sample_waiting = \<lparr>pr_type = GET, pr_lattice_type = NO, pr_payload = [], pr_addr = ''c'', pr_response_id = ''c:1''\<rparr>"

definition sample_no_factors :: KeyResponse where
  "sample_no_factors = empty_response\<lparr>r_tuples :=
     [empty_tuple\<lparr>t_key := get_metadata_key ''k'' replication, t_error := Some 1\<rparr>]\<rparr>"

lemma sample_metadata_key: "get_key_from_metadata (get_metadata_key ''k'' replication) = Inr ''k''"
  by (rule key_from_replication_key) simp

lemma sample_defaults:
  "tm_default_replication (tier_metadata sample_env 0) = 1" "kDefaultLocalReplication sample_env = 1"
  by (simp_all add: sample_env_def tier_metadata_def wire.defs fm_at_def fmlookup_of_list)

lemma sample_drain:
  assumes "global_hash_rings u = global_hash_rings sample_server" "local_hash_rings u = local_hash_rings sample_server"
    and "key_replication_map u = init_replication sample_env m ''k''"
    and "wt u = sample_thread" "stored_key_map u = fmempty" "pending_gossip u = fmempty"
    and "pending_requests u = fmupd ''k'' [sample_waiting] fmempty"
  shows "\<exists>v. bindr (drain_requests sample_env now ''k'' u) (drain_gossip sample_env ''k'') = Inr v"
proof -
  have look: "threads_for sample_env ''k'' [0] u = Inr ([sample_thread], True, u)"
    using assms sample_responsible [OF assms(1,2), of "the (fmlookup (key_replication_map u) ''k'')"]
    by (simp add: init_replication_lookup sample_defaults)
  have resp: "is_responsible [sample_thread] u" using assms(4) by simp
  have get: "serve_get sample_env ''k'' u = Inr (empty_tuple\<lparr>t_key := ''k'', t_error := Some 1\<rparr>, u)"
    using assms(5) by (simp add: serve_get_def)
  have ans: "answer_pending sample_env now ''k'' [sample_thread] True sample_waiting u = Inr v \<Longrightarrow>
      pending_gossip v = fmempty" for v
    using answer_pending_keeps assms(6) by fastforce
  obtain v where v: "answer_pending sample_env now ''k'' [sample_thread] True sample_waiting u = Inr v"
    by (simp add: answer_pending_def sample_waiting_def get Let_def)
  show ?thesis
    using ans [OF v] by (simp add: drain_requests_def look resp assms(7) fm_at_def v drain_gossip_def)
qed

theorem waiting_clients_answered_witness:
  "\<exists>s'. replication_response_handler sample_env 0 sample_no_factors
      (sample_server\<lparr>pending_requests := fmupd ''k'' [sample_waiting] fmempty\<rparr>) = Inr s' \<and>
    fmlookup (pending_requests s') ''k'' = None \<and> list_all (answered s') [sample_waiting]"
proof -
  let ?s = "sample_server\<lparr>pending_requests := fmupd ''k'' [sample_waiting] fmempty\<rparr>"
  let ?t = "empty_tuple\<lparr>t_key := get_metadata_key ''k'' replication, t_error := Some 1\<rparr>"
  have tuples: "r_tuples sample_no_factors = [?t]" by (simp add: sample_no_factors_def)
  have err: "t_err ?t = 1" by (simp add: t_err_def)
  obtain s' where s': "replication_response_handler sample_env 0 sample_no_factors ?s = Inr s'"
    using sample_drain [of "?s\<lparr>key_replication_map := init_replication sample_env (key_replication_map ?s) ''k''\<rparr>" _ 0]
    by (auto simp: replication_response_handler_def tuples vec_at_def sample_metadata_key err Let_def sample_lookup
        sample_server_def)
  show ?thesis
    using waiting_clients_answered [OF tuples, of "''k''" sample_env 0 ?s s'] s' err
    by (simp add: sample_metadata_key fm_at_def)
qed


section \<open>Cached keys\<close>

text \<open>
  \<open>key_to_cache_ips\<close> is meant to be the inverse of \<open>cache_ip_to_keys\<close>: a cache is listed for a
  key exactly when the key is listed for the cache.
\<close>

definition caches_inverse :: "server \<Rightarrow> bool" where
  "caches_inverse s \<longleftrightarrow> (\<forall>ip key.
     key |\<in>| fm_at {||} (cache_ip_to_keys s) ip \<longleftrightarrow> ip |\<in>| fm_at {||} (key_to_cache_ips s) key)"

lemma fold_minus: "fold (\<lambda>k old. old |-| {|k|}) ks S = S |-| fset_of_list ks"
  by (induction ks arbitrary: S) auto

lemma fold_drop_ip:
  "ip |\<in>| fm_at {||} (fold (\<lambda>k m. fm_modify {||} k (\<lambda>ips. ips |-| {|c|}) m) ks m) key \<longleftrightarrow>
   ip |\<in>| fm_at {||} m key \<and> (key \<notin> set ks \<or> ip \<noteq> c)"
  by (induction ks arbitrary: m) auto

lemma fold_list_keys:
  "fold (\<lambda>k (c2k, k2c). (fm_modify {||} c (finsert k) c2k, fm_modify {||} k (finsert c) k2c)) ks (a, b) = (a', b') \<Longrightarrow>
   (key |\<in>| fm_at {||} a' ip \<longleftrightarrow> key |\<in>| fm_at {||} a ip \<or> (ip = c \<and> key \<in> set ks)) \<and>
   (ip |\<in>| fm_at {||} b' key \<longleftrightarrow> ip |\<in>| fm_at {||} b key \<or> (ip = c \<and> key \<in> set ks))"
  by (induction ks arbitrary: a b) auto

lemma cache_ip_tuple_inverse:
  assumes "cache_ip_tuple E t s = Inr s'" "caches_inverse s"
  shows "caches_inverse s'"
proof (cases "t_err t = 0")
  case True
  then obtain c where c: "get_key_from_user_metadata (t_key t) = Inr c"
    using assms(1) by (auto simp: cache_ip_tuple_def bindr_Inr_iff)
  define ks where "ks = fst (parse_keyset E (from_option [] (lv_value (fst (parse_lww E (t_value t))))))"
  define gone where "gone = fm_at {||} (cache_ip_to_keys s) c |-| fset_of_list ks"
  define dropped where
    "dropped = fold (\<lambda>k m. fm_modify {||} k (\<lambda>ips. ips |-| {|c|}) m) (fs_elems gone) (key_to_cache_ips s)"
  obtain a b where ab: "fold (\<lambda>k (c2k, k2c). (fm_modify {||} c (finsert k) c2k, fm_modify {||} k (finsert c) k2c))
      ks (fmupd c {||} (cache_ip_to_keys s), dropped) = (a, b)" by fastforce
  have s': "s' = s\<lparr>cache_ip_to_keys := a, key_to_cache_ips := b\<rparr>"
    using assms(1) True ab
    by (simp add: cache_ip_tuple_def c Let_def fold_minus dropped_def gone_def ks_def)
  show ?thesis
    using assms(2) fold_list_keys [OF ab]
    by (auto simp: s' caches_inverse_def dropped_def fold_drop_ip gone_def fset_of_list_elem)
qed (use assms in \<open>auto simp: cache_ip_tuple_def\<close>)

lemma update_caches_inverse:
  assumes "caches_inverse s"
  shows "caches_inverse (update_caches func_nodes s)"
proof -
  have one: "caches_inverse (s\<lparr>cache_ip_to_keys := fmdrop ip (cache_ip_to_keys s),
      key_to_cache_ips := fmmap (\<lambda>ips. ips |-| {|ip|}) (key_to_cache_ips s)\<rparr>)" if "caches_inverse s" for ip s
  proof -
    have "fm_at {||} (fmmap (\<lambda>ips. ips |-| {|ip|}) m) key = fm_at {||} m key |-| {|ip|}"
      for m :: "(Key, Address fset) fmap" and key
      by (auto simp: fm_at_def split: option.splits)
    then show ?thesis using that by (auto simp: caches_inverse_def split: if_splits)
  qed
  have "caches_inverse (fold (\<lambda>ip s. s\<lparr>cache_ip_to_keys := fmdrop ip (cache_ip_to_keys s),
      key_to_cache_ips := fmmap (\<lambda>ips. ips |-| {|ip|}) (key_to_cache_ips s)\<rparr>) ips s)"
    if "caches_inverse s" for ips s
    using that by (induction ips arbitrary: s) (auto simp: one)
  moreover have "caches_inverse (s\<lparr>extant_caches := x\<rparr>)" for x
    using assms by (simp add: caches_inverse_def)
  ultimately show ?thesis by (simp add: update_caches_def split: prod.splits)
qed


text \<open>The states a worker thread can reach from its start, by rounds of its event loop.\<close>

inductive reaches :: "env \<Rightarrow> server \<Rightarrow> server \<Rightarrow> bool" for E s0 where
  reaches_start: "reaches E s0 s0"
| reaches_round: "reaches E s0 s \<Longrightarrow> server_round E i s = Inr (False, s') \<Longrightarrow> reaches E s0 s'"

lemma caches_inverse_view:
  "(cache_ip_to_keys s', key_to_cache_ips s') = (cache_ip_to_keys s, key_to_cache_ips s) \<Longrightarrow>
   caches_inverse s' = caches_inverse s"
  by (simp add: caches_inverse_def)

lemma cache_ip_response_inverse:
  assumes "cache_ip_response_handler E resp s = Inr s'" "caches_inverse s"
  shows "caches_inverse s'"
  using assms(1) unfolding cache_ip_response_handler_def
  by (rule for_each_invariant [where P = caches_inverse]) (auto intro: assms(2) cache_ip_tuple_inverse)

lemma report_epoch_inverse:
  assumes "report_epoch E now ms d func_nodes rnd s = Inr s'" "caches_inverse s"
  shows "caches_inverse s'"
proof -
  obtain u where "(cache_ip_to_keys u, key_to_cache_ips u) = (cache_ip_to_keys s, key_to_cache_ips s)"
    and s': "(cache_ip_to_keys s', key_to_cache_ips s') =
      (cache_ip_to_keys (update_caches func_nodes u), key_to_cache_ips (update_caches func_nodes u))"
    using cache_view.view_report_epoch [OF assms(1)] by blast
  then have "caches_inverse u" using assms(2) caches_inverse_view by blast
  then show ?thesis using update_caches_inverse s' caches_inverse_view by blast
qed

lemmas caches_inverse_steps =
  cache_view.view_node_join [THEN caches_inverse_view] cache_view.view_node_depart [THEN caches_inverse_view]
  cache_view.view_self_depart [THEN caches_inverse_view] cache_view.view_user_request [THEN caches_inverse_view]
  cache_view.view_gossip [THEN caches_inverse_view] cache_view.view_replication_response [THEN caches_inverse_view]
  cache_view.view_replication_change [THEN caches_inverse_view]
  cache_view.view_gossip_epoch [THEN caches_inverse_view] cache_view.view_redistribute [THEN caches_inverse_view]

lemma on_input_cases: "on_input h i s = Inr s' \<Longrightarrow> s' = s \<or> (\<exists>m. h m s = Inr s')"
  by (auto simp: on_input_def split: option.splits)

lemma server_round_inverse:
  assumes "server_round E i s = Inr (stop, s')" "caches_inverse s"
  shows "caches_inverse s'"
proof -
  obtain s1 s2 where s1: "on_input (node_join_handler E) (in_join i) s = Inr s1"
    and s2: "on_input (node_depart_handler E) (in_depart i) s1 = Inr s2"
    using assms(1) by (auto simp: server_round_def bindr_Inr_iff)
  have i2: "caches_inverse s2"
    using on_input_cases [OF s1] on_input_cases [OF s2] assms(2) caches_inverse_steps(1,2) by metis
  show ?thesis
  proof (cases "in_self_depart i")
    case None
    obtain s3 s4 s5 s6 s7 s8 s9 where
      s: "on_input (user_request_handler E (in_now i)) (in_request i) s2 = Inr s3"
        "on_input (gossip_handler E) (in_gossip i) s3 = Inr s4"
        "on_input (replication_response_handler E (in_now i)) (in_replication_response i) s4 = Inr s5"
        "on_input (replication_change_handler E) (in_replication_change i) s5 = Inr s6"
        "on_input (cache_ip_response_handler E) (in_cache_ip i) s6 = Inr s7"
        "(if in_gossip_due i then gossip_epoch E s7 else Inr s7) = Inr s8"
        "(case in_report i of
            Some (ms, duration, func_nodes, rnd) \<Rightarrow>
              if kServerReportThreshold \<le> duration
              then report_epoch E (in_now i) ms duration func_nodes rnd
                     (s8\<lparr>working_time := working_time s8 + in_elapsed i\<rparr>)
              else Inr (s8\<lparr>working_time := working_time s8 + in_elapsed i\<rparr>)
          | None \<Rightarrow> Inr (s8\<lparr>working_time := working_time s8 + in_elapsed i\<rparr>)) = Inr s9"
        "redistribute E s9 = Inr s'"
      using assms(1) by (auto simp: server_round_def s1 s2 None bindr_Inr_iff Let_def)
    have i6: "caches_inverse s6"
      using on_input_cases [OF s(1)] on_input_cases [OF s(2)] on_input_cases [OF s(3)] on_input_cases [OF s(4)]
        i2 caches_inverse_steps(4-7) by metis
    have "caches_inverse s7" using on_input_cases [OF s(5)] i6 cache_ip_response_inverse by blast
    then have "caches_inverse (s8\<lparr>working_time := working_time s8 + in_elapsed i\<rparr>)"
      using s(6) caches_inverse_steps(8) by (auto simp: caches_inverse_def split: if_splits)
    then have "caches_inverse s9"
      using s(7) by (auto split: option.splits if_splits dest: report_epoch_inverse)
    then show ?thesis using caches_inverse_steps(9) [OF s(8)] by simp
  next
    case (Some a)
    then show ?thesis
      using assms(1) i2 caches_inverse_steps(3) by (auto simp: server_round_def s1 s2 bindr_Inr_iff)
  qed
qed

end
