(* ===== verification/Node_Correct.thy ===== *)
theory Node_Correct
  imports Node_Laws Message_Laws
begin

text \<open>
  Correctness of a worker thread over whole runs of its event loop, and the places where its
  periodic work does not do what it means to.
\<close>

section \<open>The cache maps\<close>

lemma caches_inverse_fold:
  "(\<And>x s. caches_inverse (f x s) \<longleftrightarrow> caches_inverse s) \<Longrightarrow> caches_inverse (fold f xs s) \<longleftrightarrow> caches_inverse s"
  by (induction xs arbitrary: s) auto

lemma caches_inverse_send [simp]: "caches_inverse (send a m s) \<longleftrightarrow> caches_inverse s"
  by (simp add: caches_inverse_def send_def)

lemma caches_inverse_empty:
  "cache_ip_to_keys s = fmempty \<Longrightarrow> key_to_cache_ips s = fmempty \<Longrightarrow> caches_inverse s"
  by (simp add: caches_inverse_def)

lemma server_start_inverse:
  assumes "server_start E tid pub priv routing monitoring t0 g count_str membership conf fs = Inr (Some s0)"
  shows "caches_inverse s0"
proof -
  obtain n where n: "stoi count_str = Inr n"
    using assms by (cases "stoi count_str") (simp_all add: server_start_def)
  obtain st where st: "initial_storage E tid conf fs = Some st"
    using assms by (cases "initial_storage E tid conf fs") (simp_all add: server_start_def n Let_def)
  show ?thesis
    using assms
    by (auto simp: server_start_def n st Let_def caches_inverse_fold caches_inverse_empty split: if_splits)
qed

text \<open>
  C25. \<open>key_to_cache_ips\<close> stays the inverse of \<open>cache_ip_to_keys\<close>: in every state a worker thread
  reaches from its start, by whatever messages and timers, a cache is listed for a key exactly
  when the key is listed for that cache.
\<close>

theorem cache_maps_inverse:
  assumes "server_start E tid pub priv routing monitoring t0 g count_str membership conf fs = Inr (Some s0)"
    and "reaches E s0 s"
  shows "key |\<in>| fm_at {||} (cache_ip_to_keys s) ip \<longleftrightarrow> ip |\<in>| fm_at {||} (key_to_cache_ips s) key"
proof -
  have "caches_inverse s"
    using assms(2)
    by induction (auto intro: server_start_inverse [OF assms(1)] server_round_inverse)
  then show ?thesis by (simp add: caches_inverse_def)
qed

definition idle :: round_input where
  "idle = \<lparr>in_join = None, in_depart = None, in_self_depart = None, in_request = None, in_gossip = None,
     in_replication_response = None, in_replication_change = None, in_cache_ip = None,
     in_gossip_due = False, in_report = None, in_now = 0, in_elapsed = 0\<rparr>"

definition sample_cached :: KeyResponse where
  "sample_cached = empty_response\<lparr>r_tuples := [empty_tuple\<lparr>t_key := get_user_metadata_key ''c'' cache_ip,
     t_error := Some 0, t_payload := Some (serialize_ts sample_env 1 (ser_keyset sample_env [''k'']))\<rparr>]\<rparr>"

lemma sample_cached_handled:
  assumes "cache_ip_to_keys s = fmempty" "key_to_cache_ips s = fmempty"
  shows "\<exists>s'. cache_ip_response_handler sample_env sample_cached s = Inr s' \<and>
    ''k'' |\<in>| fm_at {||} (cache_ip_to_keys s') ''c'' \<and> join_gossip_map s' = join_gossip_map s"
proof -
  have key: "get_key_from_user_metadata (get_user_metadata_key ''c'' cache_ip) = Inr ''c''"
    by (rule key_from_user_metadata_key) simp
  have "parse_lww sample_env (serialize_ts sample_env t v) = (\<lparr>lv_timestamp = Some t, lv_value = Some v\<rparr>, True)" for t v
    by (simp add: serialize_ts_def wire_okD lww_initialized_def)
  then show ?thesis
    by (simp add: cache_ip_response_handler_def sample_cached_def cache_ip_tuple_def t_err_def t_value_def key
        wire_okD Let_def assms)
qed

theorem cache_maps_inverse_witness:
  "\<exists>s0 s. server_start sample_env 1 ''10.0.0.1'' ''10.0.0.1'' [] [] 0 0 ''0'' [] ''/ebs'' fmempty = Inr (Some s0) \<and>
     reaches sample_env s0 s \<and> ''k'' |\<in>| fm_at {||} (cache_ip_to_keys s) ''c'' \<and>
     ''c'' |\<in>| fm_at {||} (key_to_cache_ips s) ''k''"
proof -
  have "nat_to_string 0 = ''0''" by code_simp
  then have "stoi ''0'' = Inr 0" using stoi_nat_to_string [of 0] by simp
  then obtain s0 where s0: "server_start sample_env 1 ''10.0.0.1'' ''10.0.0.1'' [] [] 0 0 ''0'' [] ''/ebs'' fmempty =
        Inr (Some s0)"
    and f: "cache_ip_to_keys s0 = fmempty" "key_to_cache_ips s0 = fmempty" "join_gossip_map s0 = fmempty"
    by (auto simp: server_start_def Let_def initial_storage_def kMemoryTierId_def)
  obtain s1 where s1: "cache_ip_response_handler sample_env sample_cached s0 = Inr s1"
      "''k'' |\<in>| fm_at {||} (cache_ip_to_keys s1) ''c''" "join_gossip_map s1 = fmempty"
    using sample_cached_handled [OF f(1,2)] f(3) by auto
  let ?i = "idle\<lparr>in_cache_ip := Some sample_cached\<rparr>"
  let ?s = "s1\<lparr>working_time := working_time s1 + in_elapsed ?i\<rparr>"
  have "server_round sample_env ?i s0 = Inr (False, ?s)"
    using s1 by (simp add: server_round_def idle_def on_input_def redistribute_def)
  then have r: "reaches sample_env s0 ?s" by (rule reaches_round [OF reaches_start])
  show ?thesis
    using s0 r s1(2) cache_maps_inverse [OF s0 r, of "''k''" "''c''"] by auto
qed

section \<open>Redistribution after joins\<close>

lemma batch_leaves_rest:
  assumes "data_redistribute_threshold < fcard ks"
  shows "fold (\<lambda>k ks. ks |-| {|k|}) (redistribute_batch ks) ks \<noteq> {||}"
proof
  assume "fold (\<lambda>k ks. ks |-| {|k|}) (redistribute_batch ks) ks = {||}"
  then have "ks |\<subseteq>| fset_of_list (redistribute_batch ks)" by (auto simp: fold_minus)
  then have "fcard ks \<le> fcard (fset_of_list (redistribute_batch ks))" by (rule fcard_mono)
  also have "\<dots> \<le> length (redistribute_batch ks)"
    by (simp add: fcard.rep_eq fset_of_list.rep_eq card_length)
  also have "\<dots> \<le> data_redistribute_threshold" by (simp add: redistribute_batch_def)
  finally show False using assms by simp
qed

lemma redistribute_address_removes:
  "a \<in> set (snd (redistribute_address x mr)) \<Longrightarrow>
   a \<in> set (snd mr) \<or> (a = fst x \<and> fcard (snd x) \<le> data_redistribute_threshold)"
  using batch_leaves_rest [of "snd x"]
  by (cases "data_redistribute_threshold < fcard (snd x)")
    (auto simp: redistribute_address_def Let_def case_prod_unfold split: if_splits)

lemma redistribute_removes:
  "a \<in> set (snd (fold redistribute_address xs mr)) \<Longrightarrow>
   a \<in> set (snd mr) \<or> (\<exists>ks. (a, ks) \<in> set xs \<and> fcard ks \<le> data_redistribute_threshold)"
proof (induction xs arbitrary: mr)
  case (Cons x xs)
  then show ?case using redistribute_address_removes [of a x mr] by (cases x) fastforce
qed simp


lemma send_gossip_unstored:
  assumes "stored_key_map s = fmempty"
  shows "\<exists>s'. send_gossip E m s = Inr s'"
proof -
  define skip where "skip address = (\<lambda>key (gm :: (Address, KeyRequest) fmap, s).
      if \<not> fm_contains (stored_key_map s) key then Inr (gm, s)
      else let type = stored_type key s
           in bindr (process_get E key type s) (\<lambda>(res, err, s).
                Inr (if err = 0 then fm_modify empty_request address (\<lambda>r. prepare_put_tuple r key type res) gm
                     else gm, s)))" for address
  let ?P = "\<lambda>(gm :: (Address, KeyRequest) fmap, s). stored_key_map s = fmempty"
  have inner: "\<exists>t. for_each (skip address) ks gs = Inr t \<and> ?P t" if "?P gs" for address ks gs
    by (rule for_each_total [where P = ?P]) (use that in \<open>auto simp: skip_def\<close>)
  have "\<exists>t. for_each (\<lambda>(address, keys) (gm, s).
      let gm = fm_modify empty_request address (\<lambda>r. r\<lparr>q_type := PUT\<rparr>) gm
      in for_each (skip address) (fs_elems keys) (gm, s)) xs gs = Inr t \<and> ?P t" if "?P gs" for xs gs
    by (rule for_each_total [where P = ?P]) (use that in \<open>auto simp: Let_def intro!: inner [simplified]\<close>)
  from this [of "(fmempty, s)" "fm_entries m"] assms show ?thesis
    by (auto simp: send_gossip_def skip_def)
qed

definition many_keys :: "Key fset" where
  "many_keys = nat_to_string |`| fset_of_list [0..<51]"

lemma many_keys: "data_redistribute_threshold < fcard many_keys"
proof -
  have "fcard many_keys = card (nat_to_string ` {0..<51})"
    by (simp add: many_keys_def fcard.rep_eq fset_of_list.rep_eq)
  also have "\<dots> = 51" by (subst card_image) (auto simp: inj_on_def)
  finally show ?thesis by (simp add: data_redistribute_threshold_def)
qed


section \<open>Primary replicas\<close>

text \<open>
  A disk server never gives way to memory replicas: whether it counts itself as the primary
  replica of a key does not depend on how many memory replicas the key has, because the check for
  an upper tier is made for tiers above 1 only and the disk tier is tier 1.
\<close>

lemma disk_primary_ignores_memory_replicas:
  assumes "kSelfTierId E = kEbsTierId"
  shows "fst (is_primary_replica E key
      (s\<lparr>key_replication_map := set_global_replication key kMemoryTierId n (key_replication_map s)\<rparr>)) =
    fst (is_primary_replica E key s)"
  using assms
  by (simp add: is_primary_replica_def Let_def kEbsTierId_def kMemoryTierId_def touch_global_rep_def
      touch_global_def touch_local_def global_ring_def local_ring_def replication_of_def
      set_global_replication_def)

end
