(* ===== verification/Routing.thy ===== *)
theory Routing
  imports Kvs_Node
begin

text \<open>
  The routing tier: the handlers of kvs/src/route and the event loop of routing.cpp. A routing
  thread's state is the record \<open>router\<close>: the rings and replication factors of \<open>hctx\<close>, its own
  identity, and the address requests that wait for a replication factor. Handlers take the decoded
  message and return the new state or a fault, as those of the storage server do.
\<close>

section \<open>State\<close>

record router = hctx +
  rt :: RoutingThread
  waiting_addresses :: "(Key, (Address \<times> string) list) fmap"

text \<open>Messages to the other routing threads of the node.\<close>

definition tell_routers :: "env \<Rightarrow> (RoutingThread \<Rightarrow> Address) \<Rightarrow> message \<Rightarrow> router \<Rightarrow> router" where
  "tell_routers E addr msg s =
     fold (\<lambda>tid s. send (addr (make_RoutingThread (rt_ip (rt s)) tid)) msg s)
       (map of_nat [1..<unat (kRoutingThreadCount E)]) s"

section \<open>address\_handler.cpp\<close>

definition num_servers :: "'a hctx_scheme \<Rightarrow> u32" where
  "num_servers s = fold (\<lambda>(tier, ring) n. n + of_nat (chm_size (nodes ring))) (fm_entries (global_hash_rings s)) 0"

text \<open>
  The loop over the tiers: \<open>tier_id < kMaxTier\<close>, until a tier has responsible threads. The flag
  of the result is False when a lookup found no replication factor.
\<close>

function address_threads ::
  "env \<Rightarrow> Key \<Rightarrow> bool \<Rightarrow> u32 \<Rightarrow> ServerThreadList \<Rightarrow> router \<Rightarrow> fault + (ServerThreadList \<times> bool \<times> router)" where
  "address_threads E key metadata tier_id threads s =
     (if threads = [] \<and> tier_id < kMaxTier
      then bindr (get_responsible_threads E (rt_replication_response_connect_address (rt s)) key metadata
             [tier_id] s) (\<lambda>(threads, succeed, s).
           if \<not> succeed then Inr (threads, False, s)
           else address_threads E key metadata (tier_id + 1) threads s)
      else Inr (threads, True, s))"
  by auto
termination
  by (relation "measure (\<lambda>(E, key, m, tier, ts, s). unat (kMaxTier - tier))")
    (auto simp: kMaxTier_def)

declare address_threads.simps [simp del]

definition key_address :: "Key \<Rightarrow> ServerThreadList \<Rightarrow> KeyAddress" where
  "key_address key threads = \<lparr>ka_key = key, ka_ips = map st_key_request_connect_address threads\<rparr>"

text \<open>
  The keys of a request in turn. A missing replication factor ends the handler: the request waits
  under that key, and nothing is sent (\<open>None\<close>).
\<close>

fun address_keys ::
  "env \<Rightarrow> KeyAddressRequest \<Rightarrow> Key list \<Rightarrow> KeyAddress list \<Rightarrow> router \<Rightarrow> fault + (KeyAddress list option \<times> router)" where
  "address_keys E req [] addresses s = Inr (Some addresses, s)"
| "address_keys E req (key # keys) addresses s =
     bindr (is_metadata key) (\<lambda>m.
     bindr (address_threads E key m 0 [] s) (\<lambda>(threads, succeed, s).
       if \<not> succeed
       then Inr (None, s\<lparr>waiting_addresses := fm_modify [] key
              (\<lambda>ws. ws @ [(aq_response_address req, from_option [] (aq_request_id req))]) (waiting_addresses s)\<rparr>)
       else address_keys E req keys (addresses @ [key_address key threads]) s))"

definition address_handler :: "env \<Rightarrow> KeyAddressRequest \<Rightarrow> router \<Rightarrow> fault + router" where
  "address_handler E req s =
     (let respond = (\<lambda>addresses err s. send (aq_response_address req) (Msg_address_response
            \<lparr>ar_addresses = addresses, ar_error = err, ar_response_id = Some (from_option [] (aq_request_id req))\<rparr>) s)
      in if num_servers s = 0
         then Inr (respond (map (\<lambda>key. \<lparr>ka_key = key, ka_ips = []\<rparr>) (aq_keys req)) 1 s)
         else bindr (address_keys E req (aq_keys req) [] s) (\<lambda>(result, s).
              case result of
                None \<Rightarrow> Inr s
              | Some addresses \<Rightarrow> Inr (if aq_keys req = [] then s else respond addresses 0 s)))"

section \<open>membership\_handler.cpp\<close>

text \<open>
  Logging the ring sizes after a departure reads \<open>global_hash_rings[i]\<close> for every \<open>i\<close> below the
  number of rings, which inserts the rings that are missing and so raises that number.
\<close>

function touch_rings :: "nat \<Rightarrow> router \<Rightarrow> fault + router" where
  "touch_rings i s =
     (if i < fcard (fmdom (global_hash_rings s))
      then if i + 1 < 2 ^ 31 then touch_rings (i + 1) (touch_global (of_nat i) s) else Inl Signed_overflow
      else Inr s)"
  by auto
termination
  by (relation "measure (\<lambda>(i, s). 2 ^ 31 - i)") auto

declare touch_rings.simps [simp del]

definition route_membership_handler :: "env \<Rightarrow> string \<Rightarrow> router \<Rightarrow> fault + router" where
  "route_membership_handler E serialized s =
     (let v = split serialized CHR '':''
      in bindr (vec_at v 0) (\<lambda>type. bindr (vec_at v 1) (\<lambda>v1. bindr (stoi v1) (\<lambda>tier_int.
         bindr (vec_at v 2) (\<lambda>new_server_public_ip. bindr (vec_at v 3) (\<lambda>new_server_private_ip.
         let tier = word_of_int tier_int
         in if type = ''join''
            then bindr (vec_at v 4) (\<lambda>v4. bindr (stoi v4) (\<lambda>join_count.
                 let (ring, inserted) = ring_insert (global_hash_thread E) new_server_public_ip
                       new_server_private_ip join_count 0 (global_ring tier s);
                     s = s\<lparr>global_hash_rings := fmupd tier ring (global_hash_rings s)\<rparr>
                 in Inr (if inserted \<and> rt_tid (rt s) = 0
                      then let msg = v1 @ '':'' @ new_server_public_ip @ '':'' @ new_server_private_ip @ '':'' @ v4;
                               s = fold (\<lambda>st s.
                                 if st_private_ip st \<noteq> new_server_private_ip
                                 then send (st_node_join_connect_address st) (Msg_string msg) s else s)
                                 (all_servers s) s
                           in tell_routers E rt_notify_connect_address (Msg_string serialized) s
                      else s)))
            else if type = ''depart''
            then let s = s\<lparr>global_hash_rings := fmupd tier
                       (ring_remove (global_hash_thread E) new_server_public_ip new_server_private_ip 0
                          (global_ring tier s)) (global_hash_rings s)\<rparr>;
                     s = (if rt_tid (rt s) = 0
                          then tell_routers E rt_notify_connect_address (Msg_string serialized) s else s)
                 in touch_rings 0 s
            else Inr s))))))"

section \<open>replication\_response\_handler.cpp\<close>

definition answer_waiting :: "Key \<Rightarrow> ServerThreadList \<Rightarrow> Address \<times> string \<Rightarrow> router \<Rightarrow> router" where
  "answer_waiting key threads = (\<lambda>(addr, response_id). send addr (Msg_address_response
     \<lparr>ar_addresses = [key_address key threads], ar_error = 0, ar_response_id = Some response_id\<rparr>))"

definition drain_waiting :: "env \<Rightarrow> Key \<Rightarrow> router \<Rightarrow> fault + router" where
  "drain_waiting E key s =
     (if fm_contains (waiting_addresses s) key
      then bindr (address_threads E key False 0 [] s) (\<lambda>(threads, succeed, s).
           if \<not> succeed then Inr s
           else let s = fold (answer_waiting key threads) (fm_at [] (waiting_addresses s) key) s
                in Inr (s\<lparr>waiting_addresses := fmdrop key (waiting_addresses s)\<rparr>))
      else Inr s)"

definition route_replication_response_handler :: "env \<Rightarrow> KeyResponse \<Rightarrow> router \<Rightarrow> fault + router" where
  "route_replication_response_handler E response s =
     bindr (vec_at (r_tuples response) 0) (\<lambda>tuple.
     bindr (get_key_from_metadata (t_key tuple)) (\<lambda>key.
       if t_err tuple = 0
       then let lww_value = fst (parse_lww E (t_value tuple));
                rep_data = fst (parse_rep E (from_option [] (lv_value lww_value)))
            in drain_waiting E key (store_replication key rep_data s)
       else if t_err tuple = 1
       then drain_waiting E key (s\<lparr>key_replication_map := init_replication E (key_replication_map s) key\<rparr>)
       else if t_err tuple = 2
       then let s = touch_local kMemoryTierId (touch_global kMemoryTierId s)
            in issue_replication_factor_request E (rt_replication_response_connect_address (rt s)) key
                 (global_ring kMemoryTierId s) (local_ring kMemoryTierId s) s
       else Inr s))"

section \<open>replication\_change\_handler.cpp\<close>

definition route_replication_change_handler :: "env \<Rightarrow> ReplicationFactorUpdate \<Rightarrow> router \<Rightarrow> router" where
  "route_replication_change_handler E update s =
     (let s = (if rt_tid (rt s) = 0
               then tell_routers E rt_replication_change_connect_address (Msg_replication update) s else s)
      in fold (\<lambda>key_rep. store_replication (rf_key key_rep) key_rep) update s)"

section \<open>seed\_handler.cpp\<close>

definition seed_handler :: "(TierId, GlobalHashRing) fmap \<Rightarrow> TierMembership" where
  "seed_handler rings = map (\<lambda>(tid, ring). (tid,
     map (\<lambda>st. \<lparr>ms_public_ip = st_public_ip st, ms_private_ip = st_private_ip st\<rparr>) (tset_elems (unique_servers ring))))
     (fm_entries rings)"

section \<open>routing.cpp\<close>

definition router_start :: "env \<Rightarrow> u32 \<Rightarrow> Address \<Rightarrow> Address list \<Rightarrow> u32 \<Rightarrow> router" where
  "router_start E thread_id ip monitoring time0 =
     (let s = \<lparr>global_hash_rings = fmempty, local_hash_rings = form_local_rings E ip ip,
            key_replication_map = fmempty, seed = time0 + thread_id, out = [],
            rt = make_RoutingThread ip thread_id, waiting_addresses = fmempty\<rparr>
      in if thread_id = 0
         then fold (\<lambda>a. send (mt_notify_connect_address (make_MonitoringThread a))
                (Msg_string (''join:'' @ to_string kRoutingTierId @ '':'' @ ip @ '':NULL''))) monitoring s
         else s)"

text \<open>One round of the loop: the messages on the five sockets. The reply to a seed request is returned.\<close>

record route_input =
  ri_seed :: bool
  ri_notify :: "string option"
  ri_replication_response :: "KeyResponse option"
  ri_replication_change :: "ReplicationFactorUpdate option"
  ri_key_address :: "KeyAddressRequest option"

definition route_on_input :: "('m \<Rightarrow> router \<Rightarrow> fault + router) \<Rightarrow> 'm option \<Rightarrow> router \<Rightarrow> fault + router" where
  "route_on_input h i s = (case i of None \<Rightarrow> Inr s | Some m \<Rightarrow> h m s)"

definition route_round :: "env \<Rightarrow> route_input \<Rightarrow> router \<Rightarrow> fault + (TierMembership option \<times> router)" where
  "route_round E i s =
     (let reply = (if ri_seed i then Some (seed_handler (global_hash_rings s)) else None)
      in bindr (route_on_input (route_membership_handler E) (ri_notify i) s) (\<lambda>s.
         bindr (route_on_input (route_replication_response_handler E) (ri_replication_response i) s) (\<lambda>s.
         bindr (route_on_input (\<lambda>u s. Inr (route_replication_change_handler E u s)) (ri_replication_change i) s) (\<lambda>s.
         bindr (route_on_input (address_handler E) (ri_key_address i) s) (\<lambda>s. Inr (reply, s))))))"

end
