(* ===== verification/Routing_Correct.thy ===== *)
theory Routing_Correct
  imports Routing_Laws
begin

text \<open>
  The seed node and a joining server: the servers a storage thread knows after it read the seed
  node's answer are the servers the seed node knows.
\<close>

section \<open>The servers on a router's rings\<close>

definition seed_ok :: "(TierId, GlobalHashRing) fmap \<Rightarrow> bool" where
  "seed_ok rings \<longleftrightarrow> (\<forall>tier ring k t. fmlookup rings tier = Some ring \<longrightarrow>
     fmlookup (unique_servers ring) k = Some t \<longrightarrow>
     k = st_id t \<and> t = make_virtual_ServerThread (st_public_ip t) (st_private_ip t) 0 0)"

lemma seed_ok_empty [simp]: "seed_ok fmempty"
  by (simp add: seed_ok_def)

lemma seed_ok_touch [simp]: "seed_ok rings \<Longrightarrow> seed_ok (fm_touch empty_ring t rings)"
  by (auto simp: seed_ok_def fmlookup_touch empty_ring_def split: if_splits option.splits)

lemma make_virtual_sel [simp]:
  "st_public_ip (make_virtual_ServerThread pub priv tid v) = pub"
  "st_private_ip (make_virtual_ServerThread pub priv tid v) = priv"
  by (simp_all add: make_virtual_ServerThread_def make_ServerThread_def)

lemma unique_servers_insert:
  "unique_servers (fst (ring_insert h pub priv jc tid ring)) =
     (if tset_mem (make_virtual_ServerThread pub priv tid 0) (unique_servers ring) then unique_servers ring
      else tset_insert (make_virtual_ServerThread pub priv tid 0) (unique_servers ring))"
  by (simp add: ring_insert_def Let_def)

lemma seed_ok_insert:
  assumes "seed_ok rings"
  shows "seed_ok (fmupd tier (fst (ring_insert h pub priv jc 0 (fm_at empty_ring rings tier))) rings)"
  using assms
  by (auto simp: seed_ok_def unique_servers_insert tset_insert_def fm_at_def empty_ring_def
      split: if_splits option.splits)

lemma seed_ok_remove:
  assumes "seed_ok rings"
  shows "seed_ok (fmupd tier (ring_remove h pub priv 0 (fm_at empty_ring rings tier)) rings)"
  using assms by (auto simp: seed_ok_def ring_remove_def fm_at_def empty_ring_def split: if_splits option.splits)

abbreviation seeded :: "'a hctx_scheme \<Rightarrow> bool" where
  "seeded s \<equiv> seed_ok (global_hash_rings s)"

lemma seeded_fields [simp]:
  "seeded s \<Longrightarrow> seeded (touch_global t s)" "seeded (touch_local t s) = seeded s"
  "seeded (touch_global_rep k t s) = seeded s" "seeded (touch_local_rep k t s) = seeded s"
  "seeded (send a m s) = seeded s" "seeded (store_replication key rf s) = seeded s"
  by (simp_all add: touch_global_def touch_local_def touch_global_rep_def touch_local_rep_def send_def
      store_replication_def)

lemma seeded_issue: "issue_replication_factor_request E a key g l s = Inr s' \<Longrightarrow> seeded s \<Longrightarrow> seeded s'"
  by (auto simp: issue_replication_factor_request_def Let_def bindr_Inr_iff split: if_splits prod.splits)

lemma seeded_tier:
  assumes "threads_of_tier E key tier rs = Inr rs'" "seeded (snd rs)"
  shows "seeded (snd rs')"
proof -
  let ?s = "touch_global tier (touch_global_rep key tier (snd rs))"
  obtain ts where ts: "for_each (\<lambda>thread (result, s).
      let s = touch_local tier (touch_local_rep key tier s)
      in bindr (responsible_local E key (fm_at 0 (local_replication (replication_of key s)) tier)
            (local_ring tier s)) (\<lambda>tids. Inr (add_threads thread tids result, s))) ts (fst rs, ?s) = Inr rs'"
    using assms(1) by (cases rs) (auto simp: threads_of_tier_def Let_def bindr_Inr_iff)
  show ?thesis
    by (rule for_each_invariant [OF ts, where P = "\<lambda>rs. seeded (snd rs)"])
      (use assms(2) in \<open>auto simp: Let_def bindr_Inr_iff\<close>)
qed

lemma seeded_lookup:
  assumes "get_responsible_threads E a key m tiers s = Inr (ts, ok, s')" "seeded s"
  shows "seeded s'"
proof -
  have "seeded (snd (ts, s'))" if "for_each (threads_of_tier E key) tiers ([], s) = Inr (ts, s')"
    by (rule for_each_invariant [OF that, where P = "\<lambda>rs. seeded (snd rs)"])
      (use assms(2) in \<open>auto dest: seeded_tier\<close>)
  then show ?thesis
    using assms
    by (auto simp: get_responsible_threads_def Let_def bindr_Inr_iff split: if_splits dest!: seeded_issue)
qed

section \<open>Runs of a router\<close>

inductive route_reaches :: "env \<Rightarrow> router \<Rightarrow> router \<Rightarrow> bool" for E s0 where
  route_start: "route_reaches E s0 s0"
| route_step: "route_reaches E s0 s \<Longrightarrow> route_round E i s = Inr (reply, s') \<Longrightarrow> route_reaches E s0 s'"

lemma seeded_fold: "(\<And>x s. seeded s \<Longrightarrow> seeded (f x s)) \<Longrightarrow> seeded s \<Longrightarrow> seeded (fold f xs s)"
  by (induction xs arbitrary: s) auto

lemma seeded_address_keys:
  assumes "address_keys E req keys as s = Inr (r, s')" "seeded s"
  shows "seeded s'"
  using assms
  by (induction E req keys as s arbitrary: r s' rule: address_keys.induct)
    (auto simp: bindr_Inr_iff address_threads_memory split: if_splits dest: seeded_lookup)

lemma seeded_address:
  assumes "address_handler E req s = Inr s'" "seeded s"
  shows "seeded s'"
proof (cases "num_servers s = 0")
  case True
  then show ?thesis
    using assms by (auto simp: address_handler_def Let_def)
next
  case False
  then obtain r t where t: "address_keys E req (aq_keys req) [] s = Inr (r, t)"
    using assms(1) by (auto simp: address_handler_def Let_def bindr_Inr_iff)
  then show ?thesis
    using assms(1) False seeded_address_keys [OF t assms(2)]
    by (auto simp: address_handler_def Let_def split: if_splits option.splits)
qed

lemma seeded_drain:
  assumes "drain_waiting E key s = Inr s'" "seeded s"
  shows "seeded s'"
proof -
  have "seeded (fold (answer_waiting key ts) ws t)" if "seeded t" for ts ws t
    by (rule seeded_fold [OF _ that]) (auto simp: answer_waiting_def)
  then show ?thesis
    using assms
    by (auto simp: drain_waiting_def address_threads_memory bindr_Inr_iff Let_def split: if_splits dest: seeded_lookup)
qed

lemma seeded_response:
  assumes "route_replication_response_handler E resp s = Inr s'" "seeded s"
  shows "seeded s'"
  using assms
  by (auto simp: route_replication_response_handler_def Let_def bindr_Inr_iff split: if_splits
      dest!: seeded_drain seeded_issue)

lemma seeded_tell [simp]: "seeded s \<Longrightarrow> seeded (tell_routers E addr msg s)"
  unfolding tell_routers_def by (rule seeded_fold) auto

lemma seeded_change: "seeded s \<Longrightarrow> seeded (route_replication_change_handler E u s)"
  unfolding route_replication_change_handler_def Let_def by (rule seeded_fold) auto

lemma seeded_touch_rings: "touch_rings i s = Inr s' \<Longrightarrow> seeded s \<Longrightarrow> seeded s'"
proof (induction i s arbitrary: s' rule: touch_rings.induct)
  case (1 i s)
  from 1(2) have "touch_rings (i + 1) (touch_global (of_nat i) s) = Inr s' \<or> s' = s"
    by (auto simp: touch_rings.simps [of i s] split: if_splits)
  then show ?case
    using 1(1) 1(2,3) by (cases "i < fcard (fmdom (global_hash_rings s)) \<and> i + 1 < 2 ^ 31")
      (auto simp: touch_rings.simps [of i s] split: if_splits)
qed

lemma seeded_membership:
  assumes "route_membership_handler E m s = Inr s'" "seeded s"
  shows "seeded s'"
proof -
  have joined: "seeded (fold (\<lambda>st s. if st_private_ip st \<noteq> ip then send (st_node_join_connect_address st) msg s else s)
      sts u)" if "seeded u" for sts ip msg and u :: router
    by (rule seeded_fold [OF _ that]) auto
  have ring: "seeded (s\<lparr>global_hash_rings := fmupd t (fst (ring_insert (global_hash_thread E) pub priv n 0 (global_ring t s)))
      (global_hash_rings s)\<rparr>)"
    "seeded (s\<lparr>global_hash_rings := fmupd t (ring_remove (global_hash_thread E) pub priv 0 (global_ring t s))
      (global_hash_rings s)\<rparr>)" for t pub priv n
    using seed_ok_insert [OF assms(2)] seed_ok_remove [OF assms(2)] by (simp_all add: global_ring_def)
  show ?thesis
    using assms ring
    by (auto simp: route_membership_handler_def Let_def bindr_Inr_iff case_prod_unfold joined
        split: if_splits elim!: seeded_touch_rings)
qed

lemma seeded_round:
  assumes "route_round E i s = Inr (reply, s')" "seeded s"
  shows "seeded s'"
  using assms
  by (auto simp: route_round_def route_on_input_def Let_def bindr_Inr_iff split: option.splits
      dest!: seeded_membership seeded_response seeded_address simp: seeded_change)

lemma seeded_start: "seeded (router_start E tid ip monitoring t0)"
  unfolding router_start_def Let_def by (auto intro!: seeded_fold)

lemma seeded_reaches: "route_reaches E s0 s \<Longrightarrow> seeded s0 \<Longrightarrow> seeded s"
  by (induction rule: route_reaches.induct) (auto dest: seeded_round)

section \<open>Reading the seed node's answer\<close>

lemma fold_keyed:
  "distinct (map fst xs) \<Longrightarrow> fold (\<lambda>(k, v) u. if k = t then f v u else u) xs u =
     (case map_of xs t of None \<Rightarrow> u | Some v \<Rightarrow> f v u)"
proof (induction xs arbitrary: u)
  case (Cons x xs)
  then have "map_of xs (fst x) = None" by (auto simp: map_of_eq_None_iff)
  then show ?case using Cons by (cases x) auto
qed simp

lemma fmlookup_fold_tset_insert:
  "fmlookup (fold tset_insert ts m) k =
     (case fmlookup m k of None \<Rightarrow> map_of (map (\<lambda>t. (st_id t, t)) ts) k | Some v \<Rightarrow> Some v)"
  by (induction ts arbitrary: m) (auto simp: tset_insert_def split: option.splits)

lemma fold_tset_elems:
  assumes "\<And>k t. fmlookup u k = Some t \<Longrightarrow> k = st_id t"
  shows "fold tset_insert (tset_elems u) fmempty = u"
proof (rule fmap_ext)
  fix k
  have "map (\<lambda>t. (st_id t, t)) (tset_elems u) = fm_entries u"
    using assms by (auto simp: tset_elems_def set_fm_entries intro!: map_idI)
  then show "fmlookup (fold tset_insert (tset_elems u) fmempty) k = fmlookup u k"
    by (simp add: fmlookup_fold_tset_insert)
qed

abbreviation servers_on :: "(TierId, GlobalHashRing) fmap \<Rightarrow> TierId \<Rightarrow> ServerThreadSet" where
  "servers_on rings tier \<equiv> unique_servers (fm_at empty_ring rings tier)"

lemma servers_populate_tier:
  "servers_on (fold (\<lambda>server. fm_modify empty_ring t (\<lambda>ring. fst (ring_insert h (ms_public_ip server)
        (ms_private_ip server) 0 0 ring))) servers rings) tier =
     (if t = tier then fold tset_insert (map (\<lambda>server. make_virtual_ServerThread (ms_public_ip server)
        (ms_private_ip server) 0 0) servers) (servers_on rings tier)
      else servers_on rings tier)"
  by (induction servers arbitrary: rings)
    (auto simp: unique_servers_insert tset_insert_def tset_mem_def)

lemma servers_populate:
  "servers_on (populate_global E membership rings) tier =
     fold (\<lambda>(t, servers) u. if t = tier then fold tset_insert (map (\<lambda>server. make_virtual_ServerThread
        (ms_public_ip server) (ms_private_ip server) 0 0) servers) u else u) membership (servers_on rings tier)"
  unfolding populate_global_def
  by (induction membership arbitrary: rings) (auto simp: servers_populate_tier)

lemma servers_seed:
  assumes "seed_ok rings"
  shows "servers_on (populate_global E (seed_handler rings) fmempty) tier = servers_on rings tier"
proof -
  let ?mk = "\<lambda>server. make_virtual_ServerThread (ms_public_ip server) (ms_private_ip server) 0 0"
  have same: "map (?mk \<circ> (\<lambda>st. \<lparr>ms_public_ip = st_public_ip st, ms_private_ip = st_private_ip st\<rparr>))
      (tset_elems (unique_servers ring)) = tset_elems (unique_servers ring)" if "fmlookup rings t = Some ring" for t ring
    using assms that by (auto simp: seed_ok_def tset_elems_def set_fm_entries intro!: map_idI)
  have "servers_on (populate_global E (seed_handler rings) fmempty) tier =
      fold (\<lambda>(t, servers) u. if t = tier then fold tset_insert (map ?mk servers) u else u) (seed_handler rings) fmempty"
    by (simp add: servers_populate) (simp add: empty_ring_def)
  also have "\<dots> = fold (\<lambda>(t, ring) u. if t = tier then fold tset_insert (tset_elems (unique_servers ring)) u else u)
      (fm_entries rings) fmempty"
    by (subst seed_handler_def, subst fold_map, rule fold_cong) (auto simp: set_fm_entries same fun_eq_iff)
  also have "\<dots> = (case fmlookup rings tier of None \<Rightarrow> fmempty | Some ring \<Rightarrow> unique_servers ring)"
    using assms by (auto simp: fold_keyed distinct_fm_entries fold_tset_elems seed_ok_def split: option.splits)
  finally show ?thesis by (auto simp: fm_at_def empty_ring_def split: option.splits)
qed

text \<open>
  C28. A storage thread that joins learns the cluster from the seed node: filling empty rings from
  the membership a reachable router answers gives, in every tier, the servers that were on the
  router's ring.
\<close>

theorem seed_membership_roundtrip:
  assumes "route_reaches E (router_start E tid ip monitoring t0) s"
    and "route_round E i s = Inr (Some membership, s')"
  shows "unique_servers (fm_at empty_ring (populate_global E membership fmempty) tier) =
    unique_servers (fm_at empty_ring (global_hash_rings s) tier)"
proof -
  have "membership = seed_handler (global_hash_rings s)"
    using assms(2) by (auto simp: route_round_def Let_def bindr_Inr_iff split: if_splits)
  then show ?thesis using servers_seed seeded_reaches [OF assms(1) seeded_start] by simp
qed

definition route_idle :: route_input where
  "route_idle = \<lparr>ri_seed = False, ri_notify = None, ri_replication_response = None,
     ri_replication_change = None, ri_key_address = None\<rparr>"

theorem seed_membership_roundtrip_witness:
  "\<exists>s membership. route_reaches sample_env (router_start sample_env 1 ''r'' [] 0) s \<and>
     route_round sample_env (route_idle\<lparr>ri_seed := True\<rparr>) s = Inr (Some membership, s) \<and>
     unique_servers (fm_at empty_ring (global_hash_rings s) 0) \<noteq> fmempty \<and>
     unique_servers (fm_at empty_ring (populate_global sample_env membership fmempty) 0) =
       unique_servers (fm_at empty_ring (global_hash_rings s) 0)"
proof -
  let ?m = "''join:0:a:b:0''" and ?init = "router_start sample_env 1 ''r'' [] 0"
  have parts: "vec_at (split ?m CHR '':'') 0 = Inr ''join''" "vec_at (split ?m CHR '':'') 1 = Inr ''0''"
    "vec_at (split ?m CHR '':'') 2 = Inr ''a''" "vec_at (split ?m CHR '':'') 3 = Inr ''b''"
    "vec_at (split ?m CHR '':'') 4 = Inr ''0''" "stoi ''0'' = Inr 0"
    by code_simp+
  let ?s = "?init\<lparr>global_hash_rings := fmupd 0 (fst (ring_insert (global_hash_thread sample_env) ''a'' ''b'' 0 0
    empty_ring)) fmempty\<rparr>"
  have "route_round sample_env (route_idle\<lparr>ri_notify := Some ?m\<rparr>) ?init = Inr (None, ?s)"
    by (simp add: route_round_def route_idle_def route_on_input_def route_membership_handler_def parts [simplified]
        Let_def case_prod_unfold router_start_def make_RoutingThread_def global_ring_def fm_at_def)
  then have reach: "route_reaches sample_env ?init ?s" by (blast intro: route_reaches.intros)
  have round: "route_round sample_env (route_idle\<lparr>ri_seed := True\<rparr>) ?s =
      Inr (Some (seed_handler (global_hash_rings ?s)), ?s)"
    by (simp add: route_round_def route_idle_def route_on_input_def)
  have "unique_servers (fm_at empty_ring (global_hash_rings ?s) 0) \<noteq> fmempty"
    by (auto simp: unique_servers_insert empty_ring_def tset_mem_def tset_insert_def fm_at_def
        dest: arg_cong [where f = fmdom])
  then show ?thesis
    using reach round seed_membership_roundtrip [OF reach round, of 0] by blast
qed

end
