(* ===== verification/Cxx_Double.thy ===== *)
theory Cxx_Double
  imports Prelude "HOL-Library.Signed_Division"
begin

text \<open>
  The type \<open>double\<close>. Finite values are real numbers and the operations on them exact: the rounding
  of the machine is not modelled. Division by zero, the infinities and NaN are as IEEE 754 has
  them (a zero is the positive zero), and converting a \<open>double\<close> to an unsigned type
  truncates, which is undefined when the result does not fit.
\<close>

datatype dbl = Fin real | Inf bool | NaN

instantiation dbl :: "{plus, minus, uminus, times, zero, one, ord}"
begin

fun plus_dbl :: "dbl \<Rightarrow> dbl \<Rightarrow> dbl" where
  "plus_dbl (Fin a) (Fin b) = Fin (a + b)"
| "plus_dbl (Inf s) (Fin b) = Inf s"
| "plus_dbl (Fin a) (Inf t) = Inf t"
| "plus_dbl (Inf s) (Inf t) = (if s = t then Inf s else NaN)"
| "plus_dbl NaN y = NaN"
| "plus_dbl x NaN = NaN"

fun uminus_dbl :: "dbl \<Rightarrow> dbl" where
  "uminus_dbl (Fin a) = Fin (- a)"
| "uminus_dbl (Inf s) = Inf (\<not> s)"
| "uminus_dbl NaN = NaN"

definition minus_dbl :: "dbl \<Rightarrow> dbl \<Rightarrow> dbl" where
  "minus_dbl x y = x + (- y)"

fun times_dbl :: "dbl \<Rightarrow> dbl \<Rightarrow> dbl" where
  "times_dbl (Fin a) (Fin b) = Fin (a * b)"
| "times_dbl (Inf s) (Fin b) = (if b = 0 then NaN else Inf (s = (0 < b)))"
| "times_dbl (Fin a) (Inf t) = (if a = 0 then NaN else Inf (t = (0 < a)))"
| "times_dbl (Inf s) (Inf t) = Inf (s = t)"
| "times_dbl NaN y = NaN"
| "times_dbl x NaN = NaN"

definition zero_dbl :: dbl where "zero_dbl = Fin 0"

definition one_dbl :: dbl where "one_dbl = Fin 1"

fun less_dbl :: "dbl \<Rightarrow> dbl \<Rightarrow> bool" where
  "less_dbl (Fin a) (Fin b) = (a < b)"
| "less_dbl (Inf s) (Fin b) = (\<not> s)"
| "less_dbl (Fin a) (Inf t) = t"
| "less_dbl (Inf s) (Inf t) = (\<not> s \<and> t)"
| "less_dbl NaN y = False"
| "less_dbl x NaN = False"

definition less_eq_dbl :: "dbl \<Rightarrow> dbl \<Rightarrow> bool" where
  "less_eq_dbl x y \<longleftrightarrow> x < y \<or> (x = y \<and> x \<noteq> NaN)"

instance ..

end

fun dbl_div :: "dbl \<Rightarrow> dbl \<Rightarrow> dbl" where
  "dbl_div (Fin a) (Fin b) = (if b = 0 then if a = 0 then NaN else Inf (0 < a) else Fin (a / b))"
| "dbl_div (Inf s) (Fin b) = Inf (s = (0 \<le> b))"
| "dbl_div (Fin a) (Inf t) = Fin 0"
| "dbl_div (Inf s) (Inf t) = NaN"
| "dbl_div NaN y = NaN"
| "dbl_div x NaN = NaN"

fun dbl_sqrt :: "dbl \<Rightarrow> dbl" where
  "dbl_sqrt (Fin a) = (if a < 0 then NaN else Fin (sqrt a))"
| "dbl_sqrt (Inf s) = (if s then Inf True else NaN)"
| "dbl_sqrt NaN = NaN"

fun dbl_ceil :: "dbl \<Rightarrow> dbl" where
  "dbl_ceil (Fin a) = Fin (of_int \<lceil>a\<rceil>)"
| "dbl_ceil x = x"

definition dbl_of :: "'a::len word \<Rightarrow> dbl" where
  "dbl_of w = Fin (of_nat (unat w))"

text \<open>Conversion to an unsigned integer type.\<close>

fun dbl_to_word :: "dbl \<Rightarrow> fault + 'a::len word" where
  "dbl_to_word (Fin a) =
     (if - 1 < a \<and> a < 2 ^ LENGTH('a) then Inr (word_of_int (if a < 0 then 0 else \<lfloor>a\<rfloor>)) else Inl Float_conversion)"
| "dbl_to_word x = Inl Float_conversion"

lemma Fin_minus [simp]: "Fin a - Fin b = Fin (a - b)"
  by (simp add: minus_dbl_def)

lemma Fin_zero [simp]: "(0 :: dbl) = Fin 0" and Fin_one [simp]: "(1 :: dbl) = Fin 1"
  by (simp_all add: zero_dbl_def one_dbl_def)

lemma Fin_less_eq [simp]: "Fin a \<le> Fin b \<longleftrightarrow> a \<le> b"
  by (auto simp: less_eq_dbl_def)

text \<open>Whole seconds between two readings of a clock that counts nanoseconds: \<open>duration_cast\<close> truncates.\<close>

definition seconds_between :: "int \<Rightarrow> int \<Rightarrow> int" where
  "seconds_between start now = (now - start) sdiv 1000000000"

end
