(* ===== verification/Monitor.thy ===== *)
theory Monitor
  imports Kvs_Node Cxx_Double
begin

text \<open>
  The monitoring node: its state, its message handlers, and the helpers that add and remove nodes
  and change replication factors (kvs/include/monitor, kvs/src/monitor). The state is the record
  \<open>monitor\<close>. What the machine provides is part of it: \<open>clock\<close> gives the readings of the system
  clock in nanoseconds and \<open>rands\<close> the numbers \<open>rand()\<close> returns, each with the count of those
  used, and \<open>replies\<close> is what arrives on the response socket, where \<open>None\<close> is a receive timeout.
\<close>

section \<open>monitoring\_utils.hpp\<close>

definition kMonitoringThreshold :: int where
  "kMonitoringThreshold = 30"

definition kGracePeriod :: u32 where
  "kGracePeriod = 120"

definition kNodeAdditionBatchSize :: u32 where
  "kNodeAdditionBatchSize = 2"

definition kMaxMemoryNodeConsumption :: dbl where
  "kMaxMemoryNodeConsumption = Fin (6 / 10)"

definition kMaxEbsNodeConsumption :: dbl where
  "kMaxEbsNodeConsumption = Fin (75 / 100)"

definition kMinEbsNodeConsumption :: dbl where
  "kMinEbsNodeConsumption = Fin (5 / 10)"

definition kKeyPromotionThreshold :: u32 where
  "kKeyPromotionThreshold = 0"

definition kKeyDemotionThreshold :: u32 where
  "kKeyDemotionThreshold = 1"

definition kMinMemoryTierSize :: u32 where
  "kMinMemoryTierSize = 1"

definition kMinEbsTierSize :: u32 where
  "kMinEbsTierSize = 0"

record SummaryStats =
  key_access_mean :: dbl
  key_access_std :: dbl
  total_memory_access :: u32
  total_ebs_access :: u32
  total_memory_consumption :: u64
  total_ebs_consumption :: u64
  max_memory_consumption_percentage :: dbl
  max_ebs_consumption_percentage :: dbl
  avg_memory_consumption_percentage :: dbl
  avg_ebs_consumption_percentage :: dbl
  required_memory_node :: u32
  required_ebs_node :: u32
  max_memory_occupancy :: dbl
  min_memory_occupancy :: dbl
  avg_memory_occupancy :: dbl
  max_ebs_occupancy :: dbl
  min_ebs_occupancy :: dbl
  avg_ebs_occupancy :: dbl
  min_occupancy_memory_public_ip :: Address
  min_occupancy_memory_private_ip :: Address
  avg_latency :: dbl
  total_throughput :: dbl

definition clear_stats :: SummaryStats where
  "clear_stats = \<lparr>key_access_mean = 0, key_access_std = 0, total_memory_access = 0, total_ebs_access = 0,
     total_memory_consumption = 0, total_ebs_consumption = 0,
     max_memory_consumption_percentage = 0, max_ebs_consumption_percentage = 0,
     avg_memory_consumption_percentage = 0, avg_ebs_consumption_percentage = 0,
     required_memory_node = 0, required_ebs_node = 0,
     max_memory_occupancy = 0, min_memory_occupancy = 1, avg_memory_occupancy = 0,
     max_ebs_occupancy = 0, min_ebs_occupancy = 1, avg_ebs_occupancy = 0,
     min_occupancy_memory_public_ip = [], min_occupancy_memory_private_ip = [],
     avg_latency = 0, total_throughput = 0\<rparr>"

section \<open>State\<close>

type_synonym StorageStats = "(Address, (u32, u64) fmap) fmap"
type_synonym OccupancyStats = "(Address, (u32, dbl \<times> u32) fmap) fmap"
type_synonym AccessStats = "(Address, (u32, u32) fmap) fmap"

text \<open>The settings that \<open>main\<close> reads from the configuration file.\<close>

record policy =
  kMemoryThreadCount :: u32
  kEbsThreadCount :: u32
  kEnableElasticity :: bool
  kEnableTiering :: bool
  kEnableSelectiveRep :: bool

record UserFeedback =
  fb_uid :: string
  fb_latency :: "dbl option"
  fb_finish :: "bool option"
  fb_throughput :: "dbl option"
  fb_warmup :: "bool option"
  fb_key_latency :: "(Key \<times> dbl) list"

record monitor = hctx +
  mt :: MonitoringThread
  management_ip :: Address
  m_routing_ips :: "Address list"
  memory_node_count :: u32
  ebs_node_count :: u32
  key_access_frequency :: "(Key, (Address, u32) fmap) fmap"
  key_access_summary :: "(Key, u32) fmap"
  key_sizes :: "(Key, u32) fmap"
  memory_storage :: StorageStats
  ebs_storage :: StorageStats
  memory_occupancy :: OccupancyStats
  ebs_occupancy :: OccupancyStats
  memory_accesses :: AccessStats
  ebs_accesses :: AccessStats
  summary :: SummaryStats
  user_latency :: "(string, dbl) fmap"
  user_throughput :: "(string, dbl) fmap"
  latency_miss_ratio_map :: "(Key, dbl \<times> u32) fmap"
  departing_node_map :: "(Address, u32) fmap"
  grace_start :: TimePoint
  report_start :: TimePoint
  new_memory_count :: u32
  new_ebs_count :: u32
  removing_memory_node :: bool
  removing_ebs_node :: bool
  server_monitoring_epoch :: u32
  m_rid :: u32
  clock :: "nat \<Rightarrow> TimePoint"
  ticks :: nat
  rands :: "nat \<Rightarrow> u32"
  drawn :: nat
  replies :: "KeyResponse option list"

definition read_clock :: "monitor \<Rightarrow> TimePoint \<times> monitor" where
  "read_clock s = (clock s (ticks s), s\<lparr>ticks := Suc (ticks s)\<rparr>)"

definition draw :: "monitor \<Rightarrow> u32 \<times> monitor" where
  "draw s = (rands s (drawn s), s\<lparr>drawn := Suc (drawn s)\<rparr>)"

definition reset_grace :: "monitor \<Rightarrow> monitor" where
  "reset_grace s = (let (now, s) = read_clock s in s\<lparr>grace_start := now\<rparr>)"

text \<open>
  A synchronous request to a storage server. When the events of \<open>replies\<close> are used up before
  the answer or a timeout comes, the call does not return.
\<close>

definition request_sync :: "Address \<Rightarrow> KeyRequest \<Rightarrow> monitor \<Rightarrow> fault + (KeyResponse \<times> bool \<times> monitor)" where
  "request_sync addr req s =
     (case make_request (\<lambda>r. from_option [] (r_response_id r)) empty_response req
         (from_option [] (q_request_id req)) (replies s) of
        None \<Rightarrow> Inl Diverges
      | Some (sent, res, succeed, rest) \<Rightarrow>
          Inr (res, succeed, send addr (Msg_request sent) (s\<lparr>replies := rest\<rparr>)))"

section \<open>membership\_handler.cpp\<close>

definition forget_threads :: "Address \<Rightarrow> u32 \<Rightarrow> monitor \<Rightarrow> monitor" where
  "forget_threads private_ip n s = s\<lparr>key_access_frequency :=
     fold (\<lambda>(key, per_thread). fmupd key
         (fold (\<lambda>i. fmdrop (private_ip @ '':'' @ to_string (of_nat i))) [0..<unat n] per_thread))
       (fm_entries (key_access_frequency s)) (key_access_frequency s)\<rparr>"

definition monitor_ring_insert :: "env \<Rightarrow> TierId \<Rightarrow> Address \<Rightarrow> Address \<Rightarrow> monitor \<Rightarrow> monitor" where
  "monitor_ring_insert E tier public_ip private_ip s = s\<lparr>global_hash_rings := fmupd tier
     (fst (ring_insert (global_hash_thread E) public_ip private_ip 0 0 (global_ring tier s)))
     (global_hash_rings s)\<rparr>"

definition monitor_join :: "env \<Rightarrow> TierId \<Rightarrow> Address \<Rightarrow> Address \<Rightarrow> monitor \<Rightarrow> monitor" where
  "monitor_join E tier public_ip private_ip s =
     (if tier = kMemoryTierId
      then let s = monitor_ring_insert E tier public_ip private_ip s;
               s = (if 0 < new_memory_count s then s\<lparr>new_memory_count := new_memory_count s - 1\<rparr> else s)
           in reset_grace s
      else if tier = kEbsTierId
      then let s = monitor_ring_insert E tier public_ip private_ip s;
               s = (if 0 < new_ebs_count s then s\<lparr>new_ebs_count := new_ebs_count s - 1\<rparr> else s)
           in reset_grace s
      else if tier = kRoutingTierId
      then s\<lparr>m_routing_ips := m_routing_ips s @ [public_ip]\<rparr>
      else s)"

definition monitor_depart :: "env \<Rightarrow> policy \<Rightarrow> TierId \<Rightarrow> Address \<Rightarrow> Address \<Rightarrow> monitor \<Rightarrow> monitor" where
  "monitor_depart E P tier public_ip private_ip s =
     (let s = s\<lparr>global_hash_rings := fmupd tier
            (ring_remove (global_hash_thread E) public_ip private_ip 0 (global_ring tier s)) (global_hash_rings s)\<rparr>
      in if tier = kMemoryTierId
         then forget_threads private_ip (kMemoryThreadCount P)
                (s\<lparr>memory_storage := fmdrop private_ip (memory_storage s),
                   memory_occupancy := fmdrop private_ip (memory_occupancy s)\<rparr>)
         else if tier = kEbsTierId
         then forget_threads private_ip (kEbsThreadCount P)
                (s\<lparr>ebs_storage := fmdrop private_ip (ebs_storage s),
                   ebs_occupancy := fmdrop private_ip (ebs_occupancy s)\<rparr>)
         else s)"

definition monitor_membership_handler :: "env \<Rightarrow> policy \<Rightarrow> string \<Rightarrow> monitor \<Rightarrow> fault + monitor" where
  "monitor_membership_handler E P serialized s =
     (let v = split serialized CHR '':''
      in bindr (vec_at v 0) (\<lambda>type. bindr (vec_at v 1) (\<lambda>v1. bindr (stoi v1) (\<lambda>tier_int.
         bindr (vec_at v 2) (\<lambda>public_ip. bindr (vec_at v 3) (\<lambda>private_ip.
           let tier = word_of_int tier_int
           in Inr (if type = ''join'' then monitor_join E tier public_ip private_ip s
                   else if type = ''depart'' then monitor_depart E P tier public_ip private_ip s
                   else s)))))))"

section \<open>depart\_done\_handler.cpp\<close>

definition management_address :: "monitor \<Rightarrow> Address" where
  "management_address s = ''tcp://'' @ management_ip s @ '':7001''"

definition depart_done_handler :: "string \<Rightarrow> monitor \<Rightarrow> fault + monitor" where
  "depart_done_handler serialized s =
     (let tokens = split serialized CHR ''_''
      in bindr (vec_at tokens 0) (\<lambda>public_ip. bindr (vec_at tokens 1) (\<lambda>private_ip.
         bindr (vec_at tokens 2) (\<lambda>t2. bindr (stoi t2) (\<lambda>tier_int.
           let tier_id = word_of_int tier_int :: u32
           in case fmlookup (departing_node_map s) private_ip of
                None \<Rightarrow> Inr s
              | Some n \<Rightarrow>
                  let s = s\<lparr>departing_node_map := fmupd private_ip (n - 1) (departing_node_map s)\<rparr>
                  in if n - 1 = 0
                     then let (ntype, s) = (if tier_id = 1
                                then (''memory'', s\<lparr>removing_memory_node := False\<rparr>)
                                else (''ebs'', s\<lparr>removing_ebs_node := False\<rparr>));
                              s = send (management_address s)
                                (Msg_string (''remove:'' @ private_ip @ '':'' @ ntype)) s;
                              s = reset_grace s
                          in Inr (s\<lparr>departing_node_map := fmdrop private_ip (departing_node_map s)\<rparr>)
                     else Inr s)))))"

section \<open>feedback\_handler.cpp\<close>

definition note_latency :: "Key \<times> dbl \<Rightarrow> (Key, dbl \<times> u32) fmap \<Rightarrow> (Key, dbl \<times> u32) fmap" where
  "note_latency = (\<lambda>(key, observed) m.
     case fmlookup m key of
       None \<Rightarrow> fmupd key (dbl_div observed (dbl_of kSloWorst), 1) m
     | Some (ratio, n) \<Rightarrow>
         fmupd key (dbl_div (ratio * dbl_of n + dbl_div observed (dbl_of kSloWorst)) (dbl_of (n + 1)), n + 1) m)"

definition feedback_handler :: "UserFeedback \<Rightarrow> monitor \<Rightarrow> monitor" where
  "feedback_handler fb s =
     (if from_option False (fb_finish fb)
      then s\<lparr>user_latency := fmdrop (fb_uid fb) (user_latency s)\<rparr>
      else s\<lparr>user_latency := fmupd (fb_uid fb) (from_option 0 (fb_latency fb)) (user_latency s),
             user_throughput := fmupd (fb_uid fb) (from_option 0 (fb_throughput fb)) (user_throughput s),
             latency_miss_ratio_map := fold note_latency (fb_key_latency fb) (latency_miss_ratio_map s)\<rparr>)"

section \<open>elasticity.cpp\<close>

text \<open>\<open>add_node\<close> sets the counter its caller passes by reference; here the caller stores the number.\<close>

definition add_node :: "string \<Rightarrow> u32 \<Rightarrow> ((u32 \<Rightarrow> u32) \<Rightarrow> monitor \<Rightarrow> monitor) \<Rightarrow> monitor \<Rightarrow> monitor" where
  "add_node tier number adding s =
     adding (\<lambda>_. number) (send (management_address s) (Msg_string (''add:'' @ to_string number @ '':'' @ tier)) s)"

definition remove_node :: "env \<Rightarrow> ServerThread \<Rightarrow> ((bool \<Rightarrow> bool) \<Rightarrow> monitor \<Rightarrow> monitor) \<Rightarrow> monitor \<Rightarrow> monitor" where
  "remove_node E node removing s =
     (let s = s\<lparr>departing_node_map := fmupd (st_private_ip node)
            (tm_thread_number (tier_metadata E kMemoryTierId)) (departing_node_map s)\<rparr>
      in removing (\<lambda>_. True) (send (st_self_depart_connect_address node)
           (Msg_string (mt_depart_done_connect_address (mt s))) s))"

section \<open>replication\_helpers.cpp\<close>

definition create_new_replication_vector :: "u32 \<Rightarrow> u32 \<Rightarrow> u32 \<Rightarrow> u32 \<Rightarrow> KeyReplication" where
  "create_new_replication_vector gm ge lm le =
     \<lparr>global_replication = fmupd kEbsTierId ge (fmupd kMemoryTierId gm fmempty),
      local_replication = fmupd kEbsTierId le (fmupd kMemoryTierId lm fmempty)\<rparr>"

text \<open>The message that carries the factors of a key.\<close>

definition replication_message :: "Key \<Rightarrow> KeyReplication \<Rightarrow> ReplicationFactor" where
  "replication_message key rep =
     (let entries = map (\<lambda>(tier, n). \<lparr>rep_tier_id = tier, rep_factor = n\<rparr>) \<circ> fm_entries
      in \<lparr>rf_key = key, rf_global = entries (global_replication rep), rf_local = entries (local_replication rep)\<rparr>)"

type_synonym update_map = "(Address, ReplicationFactorUpdate) fmap"

definition prepare_replication_factor_update :: "Key \<Rightarrow> Address \<Rightarrow> monitor \<Rightarrow> update_map \<Rightarrow> update_map" where
  "prepare_replication_factor_update key server_address s m =
     fm_modify [] server_address (\<lambda>u. u @ [replication_message key (replication_of key s)]) m"

text \<open>
  \<open>change_replication_factor\<close>, loop by loop. The first loop stores the new factors and prepares the
  requests that write them to the storage tier.
\<close>

type_synonym put_state = "KeyReplicationMap \<times> (Address, KeyRequest) fmap \<times> monitor"

definition prepare_change :: "env \<Rightarrow> Key \<times> KeyReplication \<Rightarrow> put_state \<Rightarrow> fault + put_state" where
  "prepare_change E = (\<lambda>(key, new_rep) (orig, addr_request_map, s).
     let s = s\<lparr>key_replication_map := fm_touch empty_KeyReplication key (key_replication_map s)\<rparr>;
         old = replication_of key s;
         orig = fmupd key old orig
     in if KeyReplication_eq new_rep old then Inr (orig, addr_request_map, s)
        else let s = s\<lparr>key_replication_map := fmupd key new_rep (key_replication_map s)\<rparr>;
                 rep_data = replication_message key (replication_of key s);
                 s = touch_local kMemoryTierId (touch_global kMemoryTierId s);
                 (rnd, s) = draw s;
                 (now, s) = read_clock s
             in bindr (prepare_metadata_put_request E rnd (word_of_int (now div 1000000))
                  (get_metadata_key key replication) (ser_rep E rep_data) (global_ring kMemoryTierId s)
                  (local_ring kMemoryTierId s) addr_request_map (mt_response_connect_address (mt s)) (m_rid s))
                (\<lambda>(addr_request_map, r). Inr (orig, addr_request_map, s\<lparr>m_rid := r\<rparr>)))"

definition fail_key :: "KeyTuple \<Rightarrow> Key fset \<Rightarrow> fault + Key fset" where
  "fail_key tuple failed_keys =
     bindr (get_key_from_metadata (t_key tuple)) (\<lambda>key. Inr (finsert key failed_keys))"

definition put_change :: "Address \<times> KeyRequest \<Rightarrow> Key fset \<times> monitor \<Rightarrow> fault + (Key fset \<times> monitor)" where
  "put_change = (\<lambda>(addr, req) (failed_keys, s).
     bindr (request_sync addr req s) (\<lambda>(res, succeed, s).
     bindr (if \<not> succeed then for_each fail_key (q_tuples req) failed_keys
            else for_each (\<lambda>tuple failed. if t_err tuple = 2 then fail_key tuple failed else Inr failed)
                   (r_tuples res) failed_keys)
       (\<lambda>failed_keys. Inr (failed_keys, s))))"

definition tell_tier ::
  "env \<Rightarrow> KeyReplicationMap \<Rightarrow> Key \<Rightarrow> TierId \<Rightarrow> update_map \<times> monitor \<Rightarrow> fault + (update_map \<times> monitor)" where
  "tell_tier E orig key tier = (\<lambda>(m, s).
     let s = touch_global tier (touch_global_rep key tier s);
         rep = max (fm_at 0 (global_replication (replication_of key s)) tier)
                   (fm_at 0 (global_replication (fm_at empty_KeyReplication orig key)) tier)
     in bindr (responsible_global E key rep (global_ring tier s)) (\<lambda>threads.
        Inr (fold (\<lambda>thread. prepare_replication_factor_update key
               (st_replication_change_connect_address thread) s) threads m, s)))"

definition tell_change ::
  "env \<Rightarrow> KeyReplicationMap \<Rightarrow> Key fset \<Rightarrow> Key \<times> KeyReplication \<Rightarrow> update_map \<times> monitor \<Rightarrow>
   fault + (update_map \<times> monitor)" where
  "tell_change E orig failed_keys = (\<lambda>(key, new_rep) (m, s).
     if key |\<in>| failed_keys then Inr (m, s)
     else bindr (for_each (tell_tier E orig key) kAllTierIds (m, s)) (\<lambda>(m, s).
          Inr (fold (\<lambda>address. prepare_replication_factor_update key
                 (rt_replication_change_connect_address (make_RoutingThread address 0)) s) (m_routing_ips s) m, s)))"

definition restore_factors :: "KeyReplicationMap \<Rightarrow> Key fset \<Rightarrow> monitor \<Rightarrow> monitor" where
  "restore_factors orig failed_keys s =
     fold (\<lambda>key s. s\<lparr>key_replication_map :=
         fmupd key (fm_at empty_KeyReplication orig key) (key_replication_map s)\<rparr>) (fs_elems failed_keys) s"

definition change_replication_factor :: "env \<Rightarrow> (Key, KeyReplication) fmap \<Rightarrow> monitor \<Rightarrow> fault + monitor" where
  "change_replication_factor E requests s =
     bindr (for_each (prepare_change E) (fm_entries requests) (fmempty, fmempty, s)) (\<lambda>(orig, addr_request_map, s).
     bindr (for_each put_change (fm_entries addr_request_map) ({||}, s)) (\<lambda>(failed_keys, s).
     bindr (for_each (tell_change E orig failed_keys) (fm_entries requests) (fmempty, s)) (\<lambda>(updates, s).
       Inr (restore_factors orig failed_keys
              (fold (\<lambda>(addr, u). send addr (Msg_replication u)) (fm_entries updates) s)))))"

end
