(* ===== verification/Monitor_Policy.thy ===== *)
theory Monitor_Policy
  imports Monitor
begin

text \<open>
  The monitoring node's periodic work: collecting and summarising statistics (stats\_helpers.cpp),
  the storage, movement and SLO policies, and the event loop of monitoring.cpp.
\<close>

section \<open>stats\_helpers.cpp: collect\_internal\_stats\<close>

type_synonym get_state = "(Address, KeyRequest) fmap \<times> monitor"

definition ask_metadata :: "env \<Rightarrow> Key \<Rightarrow> get_state \<Rightarrow> fault + get_state" where
  "ask_metadata E key = (\<lambda>(m, s).
     let s = touch_local kMemoryTierId (touch_global kMemoryTierId s);
         (rnd, s) = draw s
     in bindr (prepare_metadata_get_request E rnd key (global_ring kMemoryTierId s) (local_ring kMemoryTierId s)
          m (mt_response_connect_address (mt s)) (m_rid s)) (\<lambda>(m, r). Inr (m, s\<lparr>m_rid := r\<rparr>)))"

definition ask_thread :: "env \<Rightarrow> ServerThread \<Rightarrow> TierId \<Rightarrow> u32 \<Rightarrow> get_state \<Rightarrow> fault + get_state" where
  "ask_thread E st tier_id i ms =
     for_each (\<lambda>type. ask_metadata E (get_server_metadata_key st tier_id i type)) [server_stats, key_access, key_size] ms"

definition ask_ring :: "env \<Rightarrow> GlobalHashRing \<Rightarrow> TierId \<Rightarrow> get_state \<Rightarrow> fault + get_state" where
  "ask_ring E hash_ring tier_id ms =
     for_each (\<lambda>st. for_each (ask_thread E st tier_id)
         (map of_nat [0..<unat (tm_thread_number (tier_metadata E tier_id))]))
       (tset_elems (unique_servers hash_ring)) ms"

text \<open>The loop counts an \<open>int\<close> up to the number of rings, which \<open>operator[]\<close> may raise on the way.\<close>

function ask_rings :: "env \<Rightarrow> nat \<Rightarrow> get_state \<Rightarrow> fault + get_state" where
  "ask_rings E i ms =
     (if i < fcard (fmdom (global_hash_rings (snd ms)))
      then if i + 1 < 2 ^ 31
           then let s = touch_global (of_nat i) (snd ms)
                in bindr (ask_ring E (global_ring (of_nat i) s) (of_nat i) (fst ms, s)) (ask_rings E (i + 1))
           else Inl Signed_overflow
      else Inr ms)"
  by auto
termination
  by (relation "measure (\<lambda>(E, i, ms). 2 ^ 31 - i)") auto

declare ask_rings.simps [simp del]

definition store_stats :: "TierId \<Rightarrow> Address \<Rightarrow> u32 \<Rightarrow> ServerThreadStatistics \<Rightarrow> monitor \<Rightarrow> monitor" where
  "store_stats tier_id ip_pair tid stat s =
     (let occ = (Fin (of_rat (sts_occupancy stat)), sts_epoch stat)
      in if tier_id = 1
         then s\<lparr>memory_storage := fm_modify fmempty ip_pair (fmupd tid (sts_storage_consumption stat)) (memory_storage s),
                memory_occupancy := fm_modify fmempty ip_pair (fmupd tid occ) (memory_occupancy s),
                memory_accesses := fm_modify fmempty ip_pair (fmupd tid (sts_access_count stat)) (memory_accesses s)\<rparr>
         else s\<lparr>ebs_storage := fm_modify fmempty ip_pair (fmupd tid (sts_storage_consumption stat)) (ebs_storage s),
                ebs_occupancy := fm_modify fmempty ip_pair (fmupd tid occ) (ebs_occupancy s),
                ebs_accesses := fm_modify fmempty ip_pair (fmupd tid (sts_access_count stat)) (ebs_accesses s)\<rparr>)"

definition store_access :: "Address \<Rightarrow> u32 \<Rightarrow> KeyAccessData \<Rightarrow> monitor \<Rightarrow> monitor" where
  "store_access ip_pair tid access s = s\<lparr>key_access_frequency :=
     fold (\<lambda>(key, n). fm_modify fmempty key (fmupd (ip_pair @ '':'' @ to_string tid) n)) access (key_access_frequency s)\<rparr>"

definition store_sizes :: "KeySizeData \<Rightarrow> monitor \<Rightarrow> monitor" where
  "store_sizes sizes s = s\<lparr>key_sizes := fold (\<lambda>(key, n). fmupd key n) sizes (key_sizes s)\<rparr>"

definition store_tuple :: "env \<Rightarrow> KeyTuple \<Rightarrow> monitor \<Rightarrow> fault + monitor" where
  "store_tuple E tuple s =
     (if t_err tuple = 0
      then let tokens = split_metadata_key (t_key tuple)
           in bindr (vec_at tokens 1) (\<lambda>metadata_type. bindr (vec_at tokens 2) (\<lambda>t2. bindr (vec_at tokens 3) (\<lambda>t3.
              bindr (vec_at tokens 4) (\<lambda>t4. bindr (stoi t4) (\<lambda>tid. bindr (vec_at tokens 5) (\<lambda>t5.
              bindr (stoi t5) (\<lambda>tier_id.
                let ip_pair = t2 @ ''/'' @ t3;
                    v = from_option [] (lv_value (fst (parse_lww E (t_value tuple))))
                in Inr (if metadata_type = ''stats''
                        then store_stats (word_of_int tier_id) ip_pair (word_of_int tid) (fst (parse_stats E v)) s
                        else if metadata_type = ''access''
                        then store_access ip_pair (word_of_int tid) (fst (parse_access E v)) s
                        else if metadata_type = ''size'' then store_sizes (fst (parse_sizes E v)) s
                        else s))))))))
      else Inr s)"

definition fetch_stats :: "env \<Rightarrow> Address \<times> KeyRequest \<Rightarrow> monitor \<Rightarrow> fault + monitor" where
  "fetch_stats E = (\<lambda>(addr, req) s.
     bindr (request_sync addr req s) (\<lambda>(res, succeed, s).
       if succeed then for_each (store_tuple E) (r_tuples res) s else Inr s))"

definition collect_internal_stats :: "env \<Rightarrow> monitor \<Rightarrow> fault + monitor" where
  "collect_internal_stats E s =
     bindr (ask_rings E 0 (fmempty, s)) (\<lambda>(addr_request_map, s).
       for_each (fetch_stats E) (fm_entries addr_request_map) s)"

section \<open>stats\_helpers.cpp: compute\_summary\_stats\<close>

definition access_step :: "u32 \<Rightarrow> u32 \<times> dbl \<times> dbl \<Rightarrow> u32 \<times> dbl \<times> dbl" where
  "access_step n = (\<lambda>(cnt, mean, ms).
     if 0 < n
     then let cnt = cnt + 1;
              delta = dbl_of n - mean;
              mean = mean + dbl_div delta (dbl_of cnt);
              delta2 = dbl_of n - mean
          in (cnt, mean, ms + delta * delta2)
     else (cnt, mean, ms))"

definition total_accesses :: "(Address, u32) fmap \<Rightarrow> u32" where
  "total_accesses per_machine = fold (\<lambda>(_, n) tot. tot + n) (fm_entries per_machine) 0"

definition summarize_accesses :: "monitor \<Rightarrow> monitor" where
  "summarize_accesses s =
     (let (summ, cnt, mean, ms) = fold (\<lambda>(key, per_machine) (summ, acc).
            let n = total_accesses per_machine in (fmupd key n summ, access_step n acc))
            (fm_entries (key_access_frequency s)) (key_access_summary s, 0, 0, 0)
      in s\<lparr>key_access_summary := summ,
           summary := (summary s)\<lparr>key_access_mean := mean, key_access_std := dbl_sqrt (dbl_div ms (dbl_of cnt))\<rparr>\<rparr>)"

definition tier_accesses :: "AccessStats \<Rightarrow> u32 \<Rightarrow> u32" where
  "tier_accesses accesses tot =
     fold (\<lambda>(_, per_thread) tot. fold (\<lambda>(_, n) tot. tot + n) (fm_entries per_thread) tot)
       (fm_entries accesses) tot"

text \<open>
  The storage loop of a tier, for its node capacity: total consumption, largest share and number of
  nodes. The consumption of one node is summed in an \<open>unsigned\<close>.
\<close>

definition tier_storage :: "u64 \<Rightarrow> StorageStats \<Rightarrow> u64 \<times> dbl \<times> u32 \<Rightarrow> u64 \<times> dbl \<times> u32" where
  "tier_storage capacity storage acc =
     fold (\<lambda>(_, per_thread) (tot, mx, n).
        let (tot, node_total) = fold (\<lambda>(_, c) (tot, node_total). (tot + c, node_total + ucast c))
              (fm_entries per_thread) (tot, 0 :: u32);
            percentage = dbl_div (dbl_of node_total) (dbl_of capacity)
        in (tot, if mx < percentage then percentage else mx, n + 1))
       (fm_entries storage) acc"

definition summarize_memory_storage :: "env \<Rightarrow> monitor \<Rightarrow> monitor" where
  "summarize_memory_storage E s =
     (let ss = summary s; cap = tm_node_capacity (tier_metadata E kMemoryTierId);
          (tot, mx, m_count) = tier_storage cap (memory_storage s)
            (total_memory_consumption ss, max_memory_consumption_percentage ss, 0);
          ss = ss\<lparr>total_memory_consumption := tot, max_memory_consumption_percentage := mx\<rparr>
      in s\<lparr>summary := if m_count \<noteq> 0
             then ss\<lparr>avg_memory_consumption_percentage := dbl_div (dbl_of tot) (dbl_of m_count * dbl_of cap)\<rparr>
             else ss\<rparr>)"

definition summarize_ebs_storage :: "env \<Rightarrow> monitor \<Rightarrow> monitor" where
  "summarize_ebs_storage E s =
     (let ss = summary s; cap = tm_node_capacity (tier_metadata E kEbsTierId);
          (tot, mx, e_count) = tier_storage cap (ebs_storage s)
            (total_ebs_consumption ss, max_ebs_consumption_percentage ss, 0);
          ss = ss\<lparr>total_ebs_consumption := tot, max_ebs_consumption_percentage := mx\<rparr>
      in s\<lparr>summary := if e_count \<noteq> 0
             then ss\<lparr>avg_ebs_consumption_percentage := dbl_div (dbl_of tot) (dbl_of e_count * dbl_of cap)\<rparr>
             else ss\<rparr>)"

definition nodes_needed :: "u64 \<Rightarrow> dbl \<Rightarrow> u64 \<Rightarrow> fault + u32" where
  "nodes_needed used share capacity =
     dbl_to_word (dbl_ceil (dbl_div (dbl_of used) (share * dbl_of capacity)))"

definition require_nodes :: "env \<Rightarrow> monitor \<Rightarrow> fault + monitor" where
  "require_nodes E s =
     bindr (nodes_needed (total_memory_consumption (summary s)) kMaxMemoryNodeConsumption
         (tm_node_capacity (tier_metadata E kMemoryTierId))) (\<lambda>m.
     bindr (nodes_needed (total_ebs_consumption (summary s)) kMaxEbsNodeConsumption
         (tm_node_capacity (tier_metadata E kEbsTierId))) (\<lambda>e.
       Inr (s\<lparr>summary := (summary s)\<lparr>required_memory_node := m, required_ebs_node := e\<rparr>\<rparr>)))"

definition node_occupancy :: "(u32, dbl \<times> u32) fmap \<Rightarrow> dbl" where
  "node_occupancy per_thread =
     (let (sum, n) = fold (\<lambda>(_, occ, _) (sum, n). (sum + occ, n + 1)) (fm_entries per_thread) (0, 0 :: u32)
      in dbl_div sum (dbl_of n))"

definition memory_occ_step ::
  "Address \<times> (u32, dbl \<times> u32) fmap \<Rightarrow> dbl \<times> u32 \<times> SummaryStats \<Rightarrow> fault + (dbl \<times> u32 \<times> SummaryStats)" where
  "memory_occ_step = (\<lambda>(addr, per_thread) (sum, n, ss).
     let occ = node_occupancy per_thread;
         ss = (if max_memory_occupancy ss < occ then ss\<lparr>max_memory_occupancy := occ\<rparr> else ss)
     in if occ < min_memory_occupancy ss
        then let ips = split addr CHR ''/''
             in bindr (vec_at ips 0) (\<lambda>public_ip. bindr (vec_at ips 1) (\<lambda>private_ip.
                Inr (sum + occ, n + 1, ss\<lparr>min_memory_occupancy := occ,
                  min_occupancy_memory_public_ip := public_ip, min_occupancy_memory_private_ip := private_ip\<rparr>)))
        else Inr (sum + occ, n + 1, ss))"

definition ebs_occ_step ::
  "Address \<times> (u32, dbl \<times> u32) fmap \<Rightarrow> dbl \<times> u32 \<times> SummaryStats \<Rightarrow> dbl \<times> u32 \<times> SummaryStats" where
  "ebs_occ_step = (\<lambda>(addr, per_thread) (sum, n, ss).
     let occ = node_occupancy per_thread;
         ss = (if max_ebs_occupancy ss < occ then ss\<lparr>max_ebs_occupancy := occ\<rparr> else ss);
         ss = (if occ < min_ebs_occupancy ss then ss\<lparr>min_ebs_occupancy := occ\<rparr> else ss)
     in (sum + occ, n + 1, ss))"

definition summarize_occupancy :: "monitor \<Rightarrow> fault + monitor" where
  "summarize_occupancy s =
     bindr (for_each memory_occ_step (fm_entries (memory_occupancy s)) (0, 0, summary s)) (\<lambda>(sum, n, ss).
       let ss = ss\<lparr>avg_memory_occupancy := dbl_div sum (dbl_of n)\<rparr>;
           (sum, n, ss) = fold ebs_occ_step (fm_entries (ebs_occupancy s)) (0, 0, ss)
       in Inr (s\<lparr>summary := ss\<lparr>avg_ebs_occupancy := dbl_div sum (dbl_of n)\<rparr>\<rparr>))"

definition compute_summary_stats :: "env \<Rightarrow> monitor \<Rightarrow> fault + monitor" where
  "compute_summary_stats E s =
     (let s = summarize_accesses s;
          s = s\<lparr>summary := (summary s)\<lparr>
                total_memory_access := tier_accesses (memory_accesses s) (total_memory_access (summary s)),
                total_ebs_access := tier_accesses (ebs_accesses s) (total_ebs_access (summary s))\<rparr>\<rparr>;
          s = summarize_ebs_storage E (summarize_memory_storage E s)
      in bindr (require_nodes E s) summarize_occupancy)"

definition collect_external_stats :: "monitor \<Rightarrow> monitor" where
  "collect_external_stats s =
     (let ss = summary s;
          ss = (if user_latency s \<noteq> fmempty
                then let (sum, n) = fold (\<lambda>(_, l) (sum, n). (sum + l, n + 1)) (fm_entries (user_latency s)) (0, 0 :: u32)
                     in ss\<lparr>avg_latency := dbl_div sum (dbl_of n)\<rparr>
                else ss);
          ss = ss\<lparr>total_throughput := fold (\<lambda>(_, t) tot. tot + t) (fm_entries (user_throughput s)) (total_throughput ss)\<rparr>
      in s\<lparr>summary := ss\<rparr>)"

section \<open>storage\_policy.cpp\<close>

text \<open>Whether more than the grace period has passed since \<open>grace_start\<close>.\<close>

definition grace_over :: "monitor \<Rightarrow> bool \<times> monitor" where
  "grace_over s = (let (now, s) = read_clock s
     in (uint kGracePeriod < seconds_between (grace_start s) now, s))"

definition grow_memory :: "monitor \<Rightarrow> monitor" where
  "grow_memory s =
     (if new_memory_count s = 0 \<and> memory_node_count s < required_memory_node (summary s)
      then let (over, s) = grace_over s
           in if over then add_node ''memory'' kNodeAdditionBatchSize new_memory_count_update s else s
      else s)"

definition grow_ebs :: "policy \<Rightarrow> monitor \<Rightarrow> monitor" where
  "grow_ebs P s =
     (if kEnableTiering P \<and> new_ebs_count s = 0 \<and> ebs_node_count s < required_ebs_node (summary s)
      then let (over, s) = grace_over s
           in if over then add_node ''ebs'' kNodeAdditionBatchSize new_ebs_count_update s else s
      else s)"

definition shrink_ebs :: "env \<Rightarrow> policy \<Rightarrow> monitor \<Rightarrow> fault + monitor" where
  "shrink_ebs E P s =
     (if kEnableTiering P \<and> avg_ebs_consumption_percentage (summary s) < kMinEbsNodeConsumption \<and>
         \<not> removing_ebs_node s \<and> max (required_ebs_node (summary s)) kMinEbsTierSize < ebs_node_count s
      then let (over, s) = grace_over s
           in if over
              then let s = touch_global kEbsTierId s;
                       ring = fm_entries (nodes (global_ring kEbsTierId s));
                       (rnd, s) = draw s
                   in if ring = [] then Inl Division_by_zero
                      else Inr (remove_node E (snd (ring ! (unat rnd mod length ring))) removing_ebs_node_update s)
              else Inr s
      else Inr s)"

definition storage_policy :: "env \<Rightarrow> policy \<Rightarrow> monitor \<Rightarrow> fault + monitor" where
  "storage_policy E P s =
     (if kEnableElasticity P then shrink_ebs E P (grow_ebs P (grow_memory s)) else Inr s)"

section \<open>movement\_policy.cpp\<close>

text \<open>\<open>key_replication_map[key].global_replication_[tier]\<close> and its local counterpart: the value read.\<close>

definition global_factor :: "Key \<Rightarrow> TierId \<Rightarrow> monitor \<Rightarrow> u32" where
  "global_factor key tier s = fm_at 0 (global_replication (replication_of key s)) tier"

definition local_factor :: "Key \<Rightarrow> TierId \<Rightarrow> monitor \<Rightarrow> u32" where
  "local_factor key tier s = fm_at 0 (local_replication (replication_of key s)) tier"

type_synonym rep_requests = "(Key, KeyReplication) fmap"

text \<open>
  The loops over the accessed keys accumulate the requests, the storage they need and whether it
  exceeds what is free. \<open>\<and>\<close> in the conditions evaluates from the left, and reading a factor inserts it.
\<close>

type_synonym move_state = "rep_requests \<times> u64 \<times> bool \<times> monitor"

definition promote_key :: "u64 \<Rightarrow> Key \<times> u32 \<Rightarrow> move_state \<Rightarrow> fault + move_state" where
  "promote_key free_storage = (\<lambda>(key, n) (requests, required, overflow, s).
     bindr (is_metadata key) (\<lambda>m.
       if \<not> m \<and> kKeyPromotionThreshold < n
       then let s = touch_global_rep key kMemoryTierId s
            in case fmlookup (key_sizes s) key of
                 None \<Rightarrow> Inr (requests, required, overflow, s)
               | Some sz \<Rightarrow>
                   if global_factor key kMemoryTierId s = 0
                   then let required = required + ucast sz
                        in if free_storage < required then Inr (requests, required, True, s)
                           else let s = touch_local_rep key kEbsTierId (touch_local_rep key kMemoryTierId
                                      (touch_global_rep key kEbsTierId s))
                                in Inr (fmupd key (create_new_replication_vector
                                     (global_factor key kMemoryTierId s + 1) (global_factor key kEbsTierId s - 1)
                                     (local_factor key kMemoryTierId s) (local_factor key kEbsTierId s)) requests,
                                     required, overflow, s)
                   else Inr (requests, required, overflow, s)
       else Inr (requests, required, overflow, s)))"

definition demote_key :: "env \<Rightarrow> u64 \<Rightarrow> Key \<times> u32 \<Rightarrow> move_state \<Rightarrow> fault + move_state" where
  "demote_key E free_storage = (\<lambda>(key, n) (requests, required, overflow, s).
     bindr (is_metadata key) (\<lambda>m.
       if \<not> m \<and> n < kKeyDemotionThreshold
       then let s = touch_global_rep key kMemoryTierId s
            in case fmlookup (key_sizes s) key of
                 None \<Rightarrow> Inr (requests, required, overflow, s)
               | Some sz \<Rightarrow>
                   if 0 < global_factor key kMemoryTierId s
                   then let required = required + ucast sz
                        in if free_storage < required then Inr (requests, required, True, s)
                           else Inr (fmupd key (create_new_replication_vector 0 (kMinimumReplicaNumber E) 1 1) requests,
                                  required, overflow, s)
                   else Inr (requests, required, overflow, s)
       else Inr (requests, required, overflow, s)))"

text \<open>The space left in a tier, converted from \<open>double\<close> to \<open>unsigned long long\<close>.\<close>

definition free_space :: "dbl \<Rightarrow> u64 \<Rightarrow> u32 \<Rightarrow> u64 \<Rightarrow> fault + u64" where
  "free_space share capacity n_nodes used = dbl_to_word (share * dbl_of capacity * dbl_of n_nodes - dbl_of used)"

text \<open>The elapsed time is an \<open>int\<close> there, compared with an \<open>unsigned\<close>.\<close>

definition promotion_policy :: "env \<Rightarrow> policy \<Rightarrow> monitor \<Rightarrow> fault + (u32 \<times> monitor)" where
  "promotion_policy E P s =
     (let cap = tm_node_capacity (tier_metadata E kMemoryTierId); used = total_memory_consumption (summary s)
      in bindr (free_space kMaxMemoryNodeConsumption cap (memory_node_count s) used) (\<lambda>free_storage.
         bindr (for_each (promote_key free_storage) (fm_entries (key_access_summary s)) (fmempty, 0, False, s))
           (\<lambda>(requests, required, overflow, s).
         bindr (change_replication_factor E requests s) (\<lambda>s.
           let (now, s) = read_clock s;
               elapsed = word_of_int (seconds_between (grace_start s) now)
           in if kEnableElasticity P \<and> overflow \<and> new_memory_count s = 0 \<and> kGracePeriod < elapsed
              then bindr (nodes_needed (used + required) kMaxMemoryNodeConsumption cap) (\<lambda>needed.
                   Inr (elapsed, if memory_node_count s < needed
                      then add_node ''memory'' (needed - memory_node_count s) new_memory_count_update s else s))
              else Inr (elapsed, s)))))"

definition demotion_policy :: "env \<Rightarrow> policy \<Rightarrow> u32 \<Rightarrow> monitor \<Rightarrow> fault + monitor" where
  "demotion_policy E P elapsed s =
     (let cap = tm_node_capacity (tier_metadata E kEbsTierId); used = total_ebs_consumption (summary s)
      in bindr (free_space kMaxEbsNodeConsumption cap (ebs_node_count s) used) (\<lambda>free_storage.
         bindr (for_each (demote_key E free_storage) (fm_entries (key_access_summary s)) (fmempty, 0, False, s))
           (\<lambda>(requests, required, overflow, s).
         bindr (change_replication_factor E requests s) (\<lambda>s.
           if kEnableElasticity P \<and> overflow \<and> new_ebs_count s = 0 \<and> kGracePeriod < elapsed
           then bindr (nodes_needed (used + required) kMaxEbsNodeConsumption cap) (\<lambda>needed.
                Inr (if ebs_node_count s < needed
                   then add_node ''ebs'' (needed - ebs_node_count s) new_ebs_count_update s else s))
           else Inr s))))"

definition cool_key :: "env \<Rightarrow> Key \<times> u32 \<Rightarrow> rep_requests \<times> monitor \<Rightarrow> fault + (rep_requests \<times> monitor)" where
  "cool_key E = (\<lambda>(key, n) (requests, s).
     let minimum_rep = create_new_replication_vector 1 (kMinimumReplicaNumber E - 1) 1 1
     in bindr (is_metadata key) (\<lambda>m.
       if \<not> m \<and> dbl_of n \<le> key_access_mean (summary s)
       then let s = s\<lparr>key_replication_map := fm_touch empty_KeyReplication key (key_replication_map s)\<rparr>
            in if KeyReplication_eq (replication_of key s) minimum_rep then Inr (requests, s)
               else Inr (fmupd key minimum_rep requests,
                      touch_global_rep key kEbsTierId (touch_global_rep key kMemoryTierId s))
       else Inr (requests, s)))"

definition movement_policy :: "env \<Rightarrow> policy \<Rightarrow> monitor \<Rightarrow> fault + monitor" where
  "movement_policy E P s =
     bindr (if kEnableTiering P
            then bindr (promotion_policy E P s) (\<lambda>(elapsed, s). demotion_policy E P elapsed s) else Inr s) (\<lambda>s.
       if kEnableSelectiveRep P
       then bindr (for_each (cool_key E) (fm_entries (key_access_summary s)) (fmempty, s)) (\<lambda>(requests, s).
            change_replication_factor E requests s)
       else Inr s)"

section \<open>slo\_policy.cpp\<close>

definition hot_key :: "env \<Rightarrow> policy \<Rightarrow> Key \<times> u32 \<Rightarrow> rep_requests \<times> monitor \<Rightarrow> fault + (rep_requests \<times> monitor)" where
  "hot_key E P = (\<lambda>(key, n) (requests, s).
     bindr (is_metadata key) (\<lambda>m.
       if \<not> m \<and> key_access_mean (summary s) + key_access_std (summary s) < dbl_of n
       then case fmlookup (latency_miss_ratio_map s) key of
              None \<Rightarrow> Inr (requests, s)
            | Some (ratio, _) \<Rightarrow>
                let s = touch_global_rep key kMemoryTierId s;
                    current = global_factor key kMemoryTierId s
                in bindr (dbl_to_word (dbl_of current * ratio)) (\<lambda>target :: u32.
                   let target = (if target = current then target + 1 else target)
                   in if current < target \<and> current < memory_node_count s
                      then let new_mem_rep = min (memory_node_count s) target;
                               new_ebs_rep = max (kMinimumReplicaNumber E - new_mem_rep) 0;
                               s = touch_local_rep key kEbsTierId (touch_local_rep key kMemoryTierId s)
                           in Inr (fmupd key (create_new_replication_vector new_mem_rep new_ebs_rep
                                (local_factor key kMemoryTierId s) (local_factor key kEbsTierId s)) requests, s)
                      else let s = touch_local_rep key kMemoryTierId s
                           in if local_factor key kMemoryTierId s < kMemoryThreadCount P
                              then let s = touch_local_rep key kEbsTierId (touch_global_rep key kEbsTierId s)
                                   in Inr (fmupd key (create_new_replication_vector
                                        (global_factor key kMemoryTierId s) (global_factor key kEbsTierId s)
                                        (kMemoryThreadCount P) (local_factor key kEbsTierId s)) requests, s)
                              else Inr (requests, s))
       else Inr (requests, s)))"

definition release_key :: "env \<Rightarrow> Key \<times> u32 \<Rightarrow> rep_requests \<times> monitor \<Rightarrow> fault + (rep_requests \<times> monitor)" where
  "release_key E = (\<lambda>(key, n) (requests, s).
     bindr (is_metadata key) (\<lambda>m.
       if \<not> m
       then let s = touch_global kMemoryTierId (touch_global_rep key kMemoryTierId s)
            in if unat (global_factor key kMemoryTierId s) =
                  chm_size (nodes (global_ring kMemoryTierId s)) div unat kVirtualThreadNum
               then let new_mem_rep = global_factor key kMemoryTierId s - 1;
                        new_ebs_rep = max (kMinimumReplicaNumber E - new_mem_rep) 0;
                        s = touch_global_rep key kEbsTierId
                              (touch_local_rep key kEbsTierId (touch_local_rep key kMemoryTierId s))
                    in Inr (fmupd key (create_new_replication_vector new_mem_rep new_ebs_rep
                         (local_factor key kMemoryTierId s) (local_factor key kEbsTierId s)) requests, s)
               else Inr (requests, s)
       else Inr (requests, s)))"

definition slo_policy :: "env \<Rightarrow> policy \<Rightarrow> monitor \<Rightarrow> fault + monitor" where
  "slo_policy E P s =
     (let ss = summary s
      in if dbl_of kSloWorst < avg_latency ss \<and> new_memory_count s = 0
         then if kEnableElasticity P \<and> Fin (15 / 100) < min_memory_occupancy ss
              then bindr (dbl_to_word (dbl_ceil
                     ((dbl_div (avg_latency ss) (dbl_of kSloWorst) - 1) * dbl_of (memory_node_count s)))) (\<lambda>node_to_add.
                   let (over, s) = grace_over s
                   in Inr (if over then add_node ''memory'' node_to_add new_memory_count_update s else s))
              else if kEnableSelectiveRep P
              then bindr (for_each (hot_key E P) (fm_entries (key_access_summary s)) (fmempty, s)) (\<lambda>(requests, s).
                   change_replication_factor E requests s)
              else Inr s
         else if kEnableElasticity P \<and> \<not> removing_memory_node s \<and> min_memory_occupancy ss < Fin (5 / 100) \<and>
                 max (required_memory_node ss) kMinMemoryTierSize < memory_node_count s
         then let (over, s) = grace_over s
              in if over
                 then bindr (for_each (release_key E) (fm_entries (key_access_summary s)) (fmempty, s)) (\<lambda>(requests, s).
                      bindr (change_replication_factor E requests s) (\<lambda>s.
                      Inr (remove_node E (make_ServerThread (min_occupancy_memory_public_ip ss)
                             (min_occupancy_memory_private_ip ss) 0) removing_memory_node_update s)))
                 else Inr s
         else Inr s)"

section \<open>monitoring.cpp\<close>

definition monitor_start ::
  "env \<Rightarrow> Address \<Rightarrow> Address \<Rightarrow> u32 \<Rightarrow> u32 \<Rightarrow> (nat \<Rightarrow> TimePoint) \<Rightarrow> (nat \<Rightarrow> u32) \<Rightarrow> KeyResponse option list \<Rightarrow> monitor" where
  "monitor_start E ip mgmt garbage1 garbage2 clk rnds evs =
     \<lparr>global_hash_rings = fmempty, local_hash_rings = form_local_rings E ip ip, key_replication_map = fmempty,
      seed = 0, out = [], mt = make_MonitoringThread ip, management_ip = mgmt, m_routing_ips = [],
      memory_node_count = garbage1, ebs_node_count = garbage2, key_access_frequency = fmempty,
      key_access_summary = fmempty, key_sizes = fmempty, memory_storage = fmempty, ebs_storage = fmempty,
      memory_occupancy = fmempty, ebs_occupancy = fmempty, memory_accesses = fmempty, ebs_accesses = fmempty,
      summary = clear_stats, user_latency = fmempty, user_throughput = fmempty, latency_miss_ratio_map = fmempty,
      departing_node_map = fmempty, grace_start = clk 2, report_start = clk 0, new_memory_count = 0,
      new_ebs_count = 0, removing_memory_node = False, removing_ebs_node = False, server_monitoring_epoch = 0,
      m_rid = 0, clock = clk, ticks = 3, rands = rnds, drawn = 0, replies = evs\<rparr>"

definition clear_round :: "monitor \<Rightarrow> monitor" where
  "clear_round s =
     (let s = touch_global kEbsTierId (touch_global kMemoryTierId s);
          count = (\<lambda>tier. of_nat (chm_size (nodes (global_ring tier s)) div unat kVirtualThreadNum))
      in s\<lparr>server_monitoring_epoch := server_monitoring_epoch s + 1,
           memory_node_count := count kMemoryTierId, ebs_node_count := count kEbsTierId,
           key_access_frequency := fmempty, key_access_summary := fmempty,
           memory_storage := fmempty, ebs_storage := fmempty, memory_occupancy := fmempty, ebs_occupancy := fmempty,
           summary := clear_stats, user_latency := fmempty, user_throughput := fmempty,
           latency_miss_ratio_map := fmempty\<rparr>)"

definition init_new_keys :: "env \<Rightarrow> monitor \<Rightarrow> fault + monitor" where
  "init_new_keys E s =
     for_each (\<lambda>(key, _) s. bindr (is_metadata key) (\<lambda>m.
         Inr (if \<not> m \<and> \<not> fm_contains (key_replication_map s) key
              then s\<lparr>key_replication_map := init_replication E (key_replication_map s) key\<rparr> else s)))
       (fm_entries (key_access_summary s)) s"

text \<open>The statistics of a report round, and the whole round with the three policies.\<close>

definition gather :: "env \<Rightarrow> monitor \<Rightarrow> fault + monitor" where
  "gather E s =
     bindr (collect_internal_stats E (clear_round s)) (\<lambda>s.
     bindr (compute_summary_stats E s) (\<lambda>s. init_new_keys E (collect_external_stats s)))"

definition report :: "env \<Rightarrow> policy \<Rightarrow> monitor \<Rightarrow> fault + monitor" where
  "report E P s =
     bindr (gather E s) (\<lambda>s.
     bindr (storage_policy E P s) (\<lambda>s.
     bindr (movement_policy E P s) (\<lambda>s.
     bindr (slo_policy E P s) (\<lambda>s.
       let (now, s) = read_clock s in Inr (s\<lparr>report_start := now\<rparr>)))))"

text \<open>One round of the loop: the messages on the three sockets, then the report when it is due.\<close>

record monitor_input =
  mi_notify :: "string option"
  mi_depart_done :: "string option"
  mi_feedback :: "UserFeedback option"

definition monitor_on_input :: "('m \<Rightarrow> monitor \<Rightarrow> fault + monitor) \<Rightarrow> 'm option \<Rightarrow> monitor \<Rightarrow> fault + monitor" where
  "monitor_on_input h i s = (case i of None \<Rightarrow> Inr s | Some m \<Rightarrow> h m s)"

definition monitor_round :: "env \<Rightarrow> policy \<Rightarrow> monitor_input \<Rightarrow> monitor \<Rightarrow> fault + monitor" where
  "monitor_round E P i s =
     bindr (monitor_on_input (monitor_membership_handler E P) (mi_notify i) s) (\<lambda>s.
     bindr (monitor_on_input depart_done_handler (mi_depart_done i) s) (\<lambda>s.
     bindr (monitor_on_input (\<lambda>fb s. Inr (feedback_handler fb s)) (mi_feedback i) s) (\<lambda>s.
       let (now, s) = read_clock s
       in if kMonitoringThreshold \<le> seconds_between (report_start s) now then report E P s else Inr s)))"

end
