(* ===== verification/Monitor_Laws.thy ===== *)
theory Monitor_Laws
  imports Monitor_Policy
begin

text \<open>
  Laws of the monitoring node: which fields the helpers leave alone, what the running mean and
  variance compute, and what a change of replication factors does.
\<close>

section \<open>The fields that replication changes leave alone\<close>

definition keep :: "monitor \<Rightarrow> monitor" where
  "keep s = s\<lparr>global_hash_rings := fmempty, local_hash_rings := fmempty, key_replication_map := fmempty,
     out := [], m_rid := 0, ticks := 0, drawn := 0, replies := []\<rparr>"

lemma keep_fields:
  assumes "keep s' = keep s"
  shows "m_routing_ips s' = m_routing_ips s" "removing_memory_node s' = removing_memory_node s"
    "summary s' = summary s" "mt s' = mt s" "key_access_summary s' = key_access_summary s"
    "latency_miss_ratio_map s' = latency_miss_ratio_map s" "management_ip s' = management_ip s"
  using assms by (cases s; cases s'; simp add: keep_def)+

lemma keep_simps [simp]:
  "keep (touch_global t s) = keep s" "keep (touch_local t s) = keep s"
  "keep (touch_global_rep k t s) = keep s" "keep (touch_local_rep k t s) = keep s"
  "keep (send a m s) = keep s" "keep (s\<lparr>key_replication_map := kr\<rparr>) = keep s" "keep (s\<lparr>m_rid := r\<rparr>) = keep s"
  "keep (s\<lparr>replies := evs\<rparr>) = keep s" "keep (s\<lparr>ticks := n\<rparr>) = keep s" "keep (s\<lparr>drawn := n\<rparr>) = keep s"
  by (simp_all add: keep_def touch_global_def touch_local_def touch_global_rep_def touch_local_rep_def send_def)

lemma keep_fold: "(\<And>x s. keep (f x s) = keep s) \<Longrightarrow> keep (fold f xs s) = keep s"
  by (induction xs arbitrary: s) auto

lemma keep_for_each:
  assumes "for_each f xs a = Inr b" and "\<And>x a b. f x a = Inr b \<Longrightarrow> keep (g b) = keep (g a)"
  shows "keep (g b) = keep (g a)"
  by (rule for_each_invariant [OF assms(1), where P = "\<lambda>c. keep (g c) = keep (g a)"]) (auto dest: assms(2))

lemma keep_request_sync: "request_sync a r s = Inr (res, ok, s') \<Longrightarrow> keep s' = keep s"
  by (auto simp: request_sync_def split: option.splits)

lemma keep_prepare_change: "prepare_change E kr x = Inr y \<Longrightarrow> keep (snd (snd y)) = keep (snd (snd x))"
  by (cases kr; cases x; cases y)
    (auto simp: prepare_change_def Let_def draw_def read_clock_def bindr_Inr_iff split: if_splits)

lemma keep_put_change: "put_change ar x = Inr y \<Longrightarrow> keep (snd y) = keep (snd x)"
  by (cases ar; cases x; cases y) (auto simp: put_change_def bindr_Inr_iff dest: keep_request_sync)

lemma keep_tell_tier: "tell_tier E orig key tier x = Inr y \<Longrightarrow> keep (snd y) = keep (snd x)"
  by (cases x; cases y) (auto simp: tell_tier_def Let_def bindr_Inr_iff)

lemma keep_tell_change:
  assumes "tell_change E orig failed kr x = Inr y"
  shows "keep (snd y) = keep (snd x)"
  using assms
  by (cases kr; cases x; cases y)
    (auto simp: tell_change_def bindr_Inr_iff split: if_splits
      dest!: keep_for_each [where g = snd, OF _ keep_tell_tier])

lemma keep_restore [simp]: "keep (restore_factors orig failed s) = keep s"
  unfolding restore_factors_def by (rule keep_fold) simp

lemma keep_change:
  assumes "change_replication_factor E requests s = Inr s'"
  shows "keep s' = keep s"
proof -
  obtain orig arm s1 failed s2 ups s3 where
    1: "for_each (prepare_change E) (fm_entries requests) (fmempty, fmempty, s) = Inr (orig, arm, s1)" and
    2: "for_each put_change (fm_entries arm) ({||}, s1) = Inr (failed, s2)" and
    3: "for_each (tell_change E orig failed) (fm_entries requests) (fmempty, s2) = Inr (ups, s3)" and
    s': "s' = restore_factors orig failed (fold (\<lambda>(addr, u). send addr (Msg_replication u)) (fm_entries ups) s3)"
    using assms by (auto simp: change_replication_factor_def bindr_Inr_iff)
  have "keep s1 = keep s" using keep_for_each [OF 1, of "\<lambda>x. snd (snd x)"] keep_prepare_change by simp
  moreover have "keep s2 = keep s1" using keep_for_each [OF 2, of snd] keep_put_change by simp
  moreover have "keep s3 = keep s2" using keep_for_each [OF 3, of snd] keep_tell_change by simp
  moreover have "keep (fold (\<lambda>(addr, u). send addr (Msg_replication u)) (fm_entries ups) s3) = keep s3"
    by (rule keep_fold) auto
  ultimately show ?thesis by (simp add: s')
qed

section \<open>Running mean and variance\<close>

lemma access_step_Fin:
  assumes "length xs < 2 ^ 32 - 1"
    and "acc = (of_nat (length xs), Fin (sum_list xs / length xs), Fin (sum_list (map (\<lambda>x. x\<^sup>2) xs) - (sum_list xs)\<^sup>2 / length xs))"
    and "0 < n"
  shows "access_step n acc = (let ys = xs @ [real (unat n)] in
    (of_nat (length ys), Fin (sum_list ys / length ys), Fin (sum_list (map (\<lambda>x. x\<^sup>2) ys) - (sum_list ys)\<^sup>2 / length ys)))"
proof -
  define N S Q x where "N = real (length xs)" and "S = sum_list xs" and "Q = sum_list (map (\<lambda>x. x\<^sup>2) xs)"
    and "x = real (unat n)"
  have cnt: "real (unat (of_nat (length xs) + 1 :: u32)) = N + 1"
    using assms(1) by (simp add: N_def unat_word_ariths unat_of_nat)
  have x: "unsigned n = x" by (simp add: x_def)
  have pos: "N + 1 \<noteq> 0" by (simp add: N_def)
  have zero: "N = 0 \<Longrightarrow> S = 0" by (simp add: N_def S_def)
  have mean: "S / N + (x - S / N) / (N + 1) = (S + x) / (N + 1)"
    using pos zero by (cases "N = 0") (auto simp: divide_simps, auto simp: algebra_simps)
  have ms: "Q - S\<^sup>2 / N + (x - S / N) * (x - (S + x) / (N + 1)) = Q + x\<^sup>2 - (S + x)\<^sup>2 / (N + 1)"
    using pos zero by (cases "N = 0") (auto simp: divide_simps, auto simp: algebra_simps power2_eq_square)
  show ?thesis
    using assms(2,3) cnt pos mean ms
    by (simp add: access_step_def dbl_of_def Let_def x flip: N_def S_def Q_def)
qed

lemma access_fold:
  assumes "length (filter (\<lambda>n. 0 < n) ns) < 2 ^ 32"
  defines "xs \<equiv> map (\<lambda>n. real (unat n)) (filter (\<lambda>n. 0 < n) ns)"
  shows "fold access_step ns (0, 0, 0) = (of_nat (length xs), Fin (sum_list xs / length xs),
    Fin (sum_list (map (\<lambda>x. x\<^sup>2) xs) - (sum_list xs)\<^sup>2 / length xs))"
  unfolding xs_def using assms(1)
proof (induction ns rule: rev_induct)
  case (snoc n ns)
  show ?case
  proof (cases "0 < n")
    case True
    then have len: "length (map (\<lambda>n. real (unat n)) (filter (\<lambda>n. 0 < n) ns)) < 2 ^ 32 - 1" using snoc.prems by simp
    then have "length (filter (\<lambda>n. 0 < n) ns) < 2 ^ 32" by simp
    from access_step_Fin [OF len snoc.IH [OF this] True] show ?thesis using True by (simp add: Let_def)
  next
    case False
    then show ?thesis using snoc by (simp add: access_step_def)
  qed
qed simp

lemma variance_two_pass:
  fixes xs :: "real list"
  assumes "xs \<noteq> []"
  defines "m \<equiv> sum_list xs / length xs"
  shows "sum_list (map (\<lambda>x. (x - m)\<^sup>2) xs) = sum_list (map (\<lambda>x. x\<^sup>2) xs) - (sum_list xs)\<^sup>2 / length xs"
proof -
  have e: "sum_list (map (\<lambda>x. (x - c)\<^sup>2) xs) = sum_list (map (\<lambda>x. x\<^sup>2) xs) - 2 * c * sum_list xs + length xs * c\<^sup>2" for c :: real
    by (induction xs) (simp_all add: power2_eq_square algebra_simps)
  show ?thesis unfolding e using assms(1) by (simp add: m_def power2_eq_square field_simps)
qed

section \<open>Changing replication factors\<close>

lemma replication_sub_iff:
  "replication_sub l r \<longleftrightarrow> (\<forall>t n. fmlookup l t = Some n \<longrightarrow> fmlookup r t = Some n)"
  by (fastforce simp: replication_sub_def list_all_iff set_fm_entries)

lemma KeyReplication_eq_refl [simp]: "KeyReplication_eq r r"
  by (simp add: KeyReplication_eq_def replication_sub_iff)

lemma KeyReplication_eq_touch:
  "KeyReplication_eq new r \<Longrightarrow> KeyReplication_eq new (r\<lparr>global_replication := fm_touch 0 t (global_replication r)\<rparr>)"
  by (auto simp: KeyReplication_eq_def replication_sub_iff fmlookup_touch)

lemma replication_of_touch [simp]:
  "replication_of k (touch_global t s) = replication_of k s" "replication_of k (touch_local t s) = replication_of k s"
  "replication_of k (send a m s) = replication_of k s"
  "replication_of k (touch_global_rep k' t s) = (if k = k'
     then (replication_of k s)\<lparr>global_replication := fm_touch 0 t (global_replication (replication_of k s))\<rparr>
     else replication_of k s)"
  by (auto simp: replication_of_def touch_global_def touch_local_def send_def touch_global_rep_def)

lemma replication_of_request_sync: "request_sync a r s = Inr (res, ok, s') \<Longrightarrow> replication_of k s' = replication_of k s"
  by (auto simp: request_sync_def replication_of_def send_def split: option.splits)

lemma put_change_effect:
  "put_change ar x = Inr y \<Longrightarrow>
   replication_of k (snd y) = replication_of k (snd x) \<and> m_routing_ips (snd y) = m_routing_ips (snd x)"
  by (cases ar; cases x; cases y)
    (auto simp: put_change_def bindr_Inr_iff dest: replication_of_request_sync keep_fields(1) [OF keep_request_sync])

lemma prepare_change_other:
  "prepare_change E kr x = Inr y \<Longrightarrow> fst kr \<noteq> key \<Longrightarrow>
   replication_of key (snd (snd y)) = replication_of key (snd (snd x)) \<and> fmlookup (fst y) key = fmlookup (fst x) key"
  by (cases kr; cases x; cases y)
    (auto simp: prepare_change_def Let_def draw_def read_clock_def bindr_Inr_iff replication_of_def touch_local_def
      touch_global_def fm_at_def fmlookup_touch split: if_splits)

lemma prepare_change_same:
  "prepare_change E (key, new) x = Inr y \<Longrightarrow>
   fmlookup (fst y) key = Some (replication_of key (snd (snd x))) \<and>
   KeyReplication_eq new (replication_of key (snd (snd y)))"
  by (cases x; cases y)
    (auto simp: prepare_change_def Let_def draw_def read_clock_def bindr_Inr_iff replication_of_def touch_local_def
      touch_global_def fm_at_def fmlookup_touch split: if_splits option.splits)

lemma for_each_at:
  assumes "for_each f es x = Inr y" "distinct (map fst es)" "(k, v) \<in> set es"
    and other: "\<And>e a b. f e a = Inr b \<Longrightarrow> fst e \<noteq> k \<Longrightarrow> Q a b"
    and Q: "\<And>a. Q a a" "\<And>a b c. Q a b \<Longrightarrow> Q b c \<Longrightarrow> Q a c"
  obtains a b where "Q x a" "f (k, v) a = Inr b" "Q b y"
proof -
  obtain as bs where es: "es = as @ (k, v) # bs" using assms(3) by (meson split_list)
  obtain a b where a: "for_each f as x = Inr a" and b: "f (k, v) a = Inr b" and y: "for_each f bs b = Inr y"
    using assms(1) by (auto simp: es for_each_append bindr_Inr_iff)
  have ne: "fst e \<noteq> k" if "e \<in> set as \<union> set bs" for e
    using assms(2) that by (auto simp: es)
  have "Q x a" by (rule for_each_invariant [OF a, where P = "Q x"]) (use Q other ne in blast)+
  moreover have "Q b y" by (rule for_each_invariant [OF y, where P = "Q b"]) (use Q other ne in blast)+
  ultimately show thesis using b that by blast
qed

text \<open>An update for an address, once prepared, stays in the map.\<close>

definition listed :: "update_map \<Rightarrow> Address \<Rightarrow> ReplicationFactor \<Rightarrow> bool" where
  "listed m a x \<longleftrightarrow> (\<exists>u. fmlookup m a = Some u \<and> x \<in> set u)"

lemma listed_prepare:
  "listed m a x \<Longrightarrow> listed (prepare_replication_factor_update key b s m) a x"
  "listed (prepare_replication_factor_update key a s m) a (replication_message key (replication_of key s))"
  by (auto simp: listed_def prepare_replication_factor_update_def fm_at_def)

lemma listed_fold:
  "listed m a x \<Longrightarrow> listed (fold (\<lambda>t. prepare_replication_factor_update key (g t) s) ts m) a x"
  by (induction ts arbitrary: m) (auto intro: listed_prepare)

lemma listed_fold_mem:
  "t \<in> set ts \<Longrightarrow> listed (fold (\<lambda>t. prepare_replication_factor_update key (g t) s) ts m) (g t)
     (replication_message key (replication_of key s))"
  by (induction ts arbitrary: m) (auto intro: listed_fold listed_prepare)

lemma tell_tier_effect:
  assumes "tell_tier E orig key tier x = Inr y"
  shows "listed (fst x) a r \<Longrightarrow> listed (fst y) a r"
    and "k \<noteq> key \<Longrightarrow> replication_of k (snd y) = replication_of k (snd x)"
    and "KeyReplication_eq new (replication_of key (snd x)) \<Longrightarrow> KeyReplication_eq new (replication_of key (snd y))"
  using assms
  by (cases x; cases y; auto simp: tell_tier_def Let_def bindr_Inr_iff intro: listed_fold KeyReplication_eq_touch)+

abbreviation router_address :: "Address \<Rightarrow> Address" where
  "router_address ip \<equiv> rt_replication_change_connect_address (make_RoutingThread ip 0)"

lemma tell_change_effect:
  assumes "tell_change E orig failed (key, new) (m, s) = Inr (m', s')"
  shows "listed m a r \<Longrightarrow> listed m' a r"
    and "k \<noteq> key \<or> key |\<in>| failed \<Longrightarrow> replication_of k s' = replication_of k s"
    and "KeyReplication_eq new (replication_of key s) \<Longrightarrow> KeyReplication_eq new (replication_of key s')"
    and "key |\<notin>| failed \<Longrightarrow> ip \<in> set (m_routing_ips s) \<Longrightarrow>
      listed m' (router_address ip) (replication_message key (replication_of key s'))"
proof -
  consider "key |\<in>| failed" "m' = m" "s' = s"
    | m1 where "key |\<notin>| failed" "for_each (tell_tier E orig key) kAllTierIds (m, s) = Inr (m1, s')"
      "m' = fold (\<lambda>address. prepare_replication_factor_update key (router_address address) s') (m_routing_ips s') m1"
    using assms by (auto simp: tell_change_def bindr_Inr_iff split: if_splits)
  note cases = this
  have tiers: "(listed m a r \<longrightarrow> listed m1 a r) \<and> (k \<noteq> key \<longrightarrow> replication_of k s' = replication_of k s) \<and>
      (KeyReplication_eq new (replication_of key s) \<longrightarrow> KeyReplication_eq new (replication_of key s'))"
    if "for_each (tell_tier E orig key) kAllTierIds (m, s) = Inr (m1, s')" for m1
    by (rule for_each_invariant [OF that, where P = "\<lambda>(m1, s1). (listed m a r \<longrightarrow> listed m1 a r) \<and>
        (k \<noteq> key \<longrightarrow> replication_of k s1 = replication_of k s) \<and>
        (KeyReplication_eq new (replication_of key s) \<longrightarrow> KeyReplication_eq new (replication_of key s1))", simplified])
      (auto dest: tell_tier_effect)
  have ips: "m_routing_ips s' = m_routing_ips s"
    using keep_fields(1) [OF keep_tell_change [OF assms]] by simp
  show "listed m a r \<Longrightarrow> listed m' a r" "k \<noteq> key \<or> key |\<in>| failed \<Longrightarrow> replication_of k s' = replication_of k s"
    "KeyReplication_eq new (replication_of key s) \<Longrightarrow> KeyReplication_eq new (replication_of key s')"
    "key |\<notin>| failed \<Longrightarrow> ip \<in> set (m_routing_ips s) \<Longrightarrow>
      listed m' (router_address ip) (replication_message key (replication_of key s'))"
    by (rule cases; use tiers ips in \<open>auto intro: listed_fold listed_fold_mem\<close>)+
qed

section \<open>What a report leaves alone\<close>

definition mview :: "monitor \<Rightarrow> bool \<times> dbl \<times> (string, dbl) fmap \<times> (Key, dbl \<times> u32) fmap" where
  "mview s = (removing_memory_node s, avg_latency (summary s), user_latency s, latency_miss_ratio_map s)"

lemma mview_keep: "keep s' = keep s \<Longrightarrow> mview s' = mview s"
  by (cases s; cases s') (simp add: keep_def mview_def)

lemma mview_for_each:
  assumes "for_each f xs a = Inr b" and "\<And>x a b. f x a = Inr b \<Longrightarrow> mview (g b) = mview (g a)"
  shows "mview (g b) = mview (g a)"
  by (rule for_each_invariant [OF assms(1), where P = "\<lambda>c. mview (g c) = mview (g a)"]) (auto dest: assms(2))

lemma keep_ask_metadata: "ask_metadata E key x = Inr y \<Longrightarrow> keep (snd y) = keep (snd x)"
  by (cases x; cases y) (auto simp: ask_metadata_def Let_def draw_def bindr_Inr_iff)

lemma keep_ask_thread: "ask_thread E st t i x = Inr y \<Longrightarrow> keep (snd y) = keep (snd x)"
  unfolding ask_thread_def by (erule keep_for_each) (rule keep_ask_metadata)

lemma keep_ask_ring: "ask_ring E ring t x = Inr y \<Longrightarrow> keep (snd y) = keep (snd x)"
  unfolding ask_ring_def by (erule keep_for_each, erule keep_for_each) (rule keep_ask_thread)

lemma keep_ask_rings: "ask_rings E i x = Inr y \<Longrightarrow> keep (snd y) = keep (snd x)"
proof (induction E i x arbitrary: y rule: ask_rings.induct)
  case (1 E i ms)
  let ?s = "touch_global (of_nat i) (snd ms)"
  consider "y = ms"
    | z where "i < fcard (fmdom (global_hash_rings (snd ms)))" "i + 1 < 2 ^ 31"
      "ask_ring E (global_ring (of_nat i) ?s) (of_nat i) (fst ms, ?s) = Inr z" "ask_rings E (i + 1) z = Inr y"
    using 1(2) by (subst (asm) ask_rings.simps) (auto simp: Let_def bindr_Inr_iff split: if_splits)
  then show ?case
    using 1(1) by cases (auto dest!: keep_ask_ring)
qed

lemma mview_stores [simp]:
  "mview (store_stats t a i st s) = mview s" "mview (store_access a i ad s) = mview s" "mview (store_sizes sd s) = mview s"
  by (simp_all add: mview_def store_stats_def store_access_def store_sizes_def Let_def)

lemma mview_store_tuple: "store_tuple E t s = Inr s' \<Longrightarrow> mview s' = mview s"
  unfolding store_tuple_def Let_def by (auto elim!: bindr_InrE split: if_split_asm)

lemma mview_fetch: "fetch_stats E ar s = Inr s' \<Longrightarrow> mview s' = mview s"
  by (cases ar) (auto simp: fetch_stats_def bindr_Inr_iff split: if_splits
      dest!: keep_request_sync mview_keep mview_for_each [where g = "\<lambda>s. s", OF _ mview_store_tuple])

lemma mview_collect_internal: "collect_internal_stats E s = Inr s' \<Longrightarrow> mview s' = mview s"
  by (auto simp: collect_internal_stats_def bindr_Inr_iff
      dest!: keep_ask_rings mview_keep mview_for_each [where g = "\<lambda>s. s", OF _ mview_fetch])

lemma occ_steps_latency:
  "memory_occ_step x (sm, n, ss) = Inr (sm', n', ss') \<Longrightarrow> avg_latency ss' = avg_latency ss"
  "avg_latency (snd (snd (fold ebs_occ_step xs acc))) = avg_latency (snd (snd acc))"
proof -
  show "memory_occ_step x (sm, n, ss) = Inr (sm', n', ss') \<Longrightarrow> avg_latency ss' = avg_latency ss"
    by (cases x) (auto simp: memory_occ_step_def Let_def bindr_Inr_iff split: if_splits)
  show "avg_latency (snd (snd (fold ebs_occ_step xs acc))) = avg_latency (snd (snd acc))"
    by (induction xs arbitrary: acc) (auto simp: ebs_occ_step_def Let_def)
qed

lemma mview_summarize_occupancy:
  assumes "summarize_occupancy s = Inr s'"
  shows "mview s' = mview s"
proof -
  obtain sm n ss where
    occ: "for_each memory_occ_step (fm_entries (memory_occupancy s)) (0, 0, summary s) = Inr (sm, n, ss)"
    using assms by (auto simp: summarize_occupancy_def bindr_Inr_iff)
  have "avg_latency ss = avg_latency (summary s)"
    using for_each_invariant [OF occ, where P = "\<lambda>(_, _, ss). avg_latency ss = avg_latency (summary s)"] occ_steps_latency(1)
    by fastforce
  then show ?thesis
    using assms occ by (auto simp: summarize_occupancy_def mview_def Let_def case_prod_unfold occ_steps_latency(2))
qed

lemma mview_summaries [simp]:
  "mview (summarize_accesses s) = mview s" "mview (summarize_memory_storage E s) = mview s"
  "mview (summarize_ebs_storage E s) = mview s"
  by (simp_all add: mview_def summarize_accesses_def summarize_memory_storage_def summarize_ebs_storage_def Let_def
      case_prod_unfold)

lemma mview_require: "require_nodes E s = Inr s' \<Longrightarrow> mview s' = mview s"
  by (auto simp: require_nodes_def bindr_Inr_iff mview_def)

lemma mview_totals [simp]:
  "mview (s\<lparr>summary := (summary s)\<lparr>total_memory_access := a, total_ebs_access := b\<rparr>\<rparr>) = mview s"
  by (simp add: mview_def)

lemma mview_compute: "compute_summary_stats E s = Inr s' \<Longrightarrow> mview s' = mview s"
  by (auto simp: compute_summary_stats_def Let_def bindr_Inr_iff dest!: mview_require mview_summarize_occupancy)

lemma keep_init_new_keys: "init_new_keys E s = Inr s' \<Longrightarrow> keep s' = keep s"
  unfolding init_new_keys_def
  by (erule keep_for_each [where g = "\<lambda>s. s"]) (auto simp: bindr_Inr_iff split: if_splits)

lemma gather_view:
  assumes "gather E s = Inr s'"
  shows "mview s' = (removing_memory_node s, Fin 0, fmempty, fmempty)"
proof -
  obtain s1 s2 where "collect_internal_stats E (clear_round s) = Inr s1" "compute_summary_stats E s1 = Inr s2"
    "init_new_keys E (collect_external_stats s2) = Inr s'"
    using assms by (auto simp: gather_def bindr_Inr_iff)
  moreover have "mview (clear_round s) = (removing_memory_node s, Fin 0, fmempty, fmempty)"
    by (simp add: mview_def clear_round_def Let_def clear_stats_def touch_global_def)
  ultimately have "mview s2 = (removing_memory_node s, Fin 0, fmempty, fmempty)"
    and s': "mview s' = mview (collect_external_stats s2)"
    using mview_collect_internal mview_compute mview_keep [OF keep_init_new_keys] by metis+
  then show ?thesis by (auto simp: mview_def collect_external_stats_def Let_def)
qed

lemma mview_policy_simps [simp]:
  "mview (add_node t n new_memory_count_update s) = mview s" "mview (add_node t n new_ebs_count_update s) = mview s"
  "mview (remove_node E node removing_ebs_node_update s) = mview s"
  "mview (remove_node E node removing_memory_node_update s) = (True, snd (mview s))"
  "mview (snd (grace_over s)) = mview s" "mview (snd (draw s)) = mview s" "mview (snd (read_clock s)) = mview s"
  "mview (touch_global t' s) = mview s"
  by (simp_all add: mview_def add_node_def remove_node_def Let_def send_def grace_over_def read_clock_def draw_def
      touch_global_def)

lemma mview_grow [simp]: "mview (grow_memory s) = mview s" "mview (grow_ebs P s) = mview s"
  by (simp_all add: grow_memory_def grow_ebs_def Let_def case_prod_unfold)

lemma mview_storage_policy: "storage_policy E P s = Inr s' \<Longrightarrow> mview s' = mview s"
  by (auto simp: storage_policy_def shrink_ebs_def Let_def case_prod_unfold split: if_splits)

lemma keep_promote: "promote_key f kn x = Inr y \<Longrightarrow> keep (snd (snd (snd y))) = keep (snd (snd (snd x)))"
  by (cases kn; cases x; cases y)
    (auto simp: promote_key_def Let_def bindr_Inr_iff split: if_splits option.splits)

lemma keep_demote: "demote_key E f kn x = Inr y \<Longrightarrow> keep (snd (snd (snd y))) = keep (snd (snd (snd x)))"
  by (cases kn; cases x; cases y)
    (auto simp: demote_key_def Let_def bindr_Inr_iff split: if_splits option.splits)

lemma keep_cool: "cool_key E kn x = Inr y \<Longrightarrow> keep (snd y) = keep (snd x)"
  by (cases kn; cases x; cases y) (auto simp: cool_key_def Let_def bindr_Inr_iff split: if_splits)

lemma keep_hot: "hot_key E P kn x = Inr y \<Longrightarrow> keep (snd y) = keep (snd x)"
  by (cases kn; cases x; cases y) (auto simp: hot_key_def Let_def bindr_Inr_iff split: if_splits option.splits)

lemma keep_release: "release_key E kn x = Inr y \<Longrightarrow> keep (snd y) = keep (snd x)"
  by (cases kn; cases x; cases y) (auto simp: release_key_def Let_def bindr_Inr_iff split: if_splits)

lemma mview_requests:
  assumes "for_each f xs (q, s) = Inr (q', s1)" "\<And>x a b. f x a = Inr b \<Longrightarrow> keep (snd b) = keep (snd a)"
    and "change_replication_factor E q' s1 = Inr s'"
  shows "mview s' = mview s"
  using keep_for_each [OF assms(1), of snd] assms(2) mview_keep [OF keep_change [OF assms(3)]] mview_keep [of s1 s] by simp

lemma mview_moves:
  assumes "for_each f xs (q, r, v, s) = Inr (q', r', v', s1)"
    "\<And>x a b. f x a = Inr b \<Longrightarrow> keep (snd (snd (snd b))) = keep (snd (snd (snd a)))"
    and "change_replication_factor E q' s1 = Inr s'"
  shows "mview s' = mview s"
  using keep_for_each [OF assms(1), of "\<lambda>x. snd (snd (snd x))"] assms(2) mview_keep [OF keep_change [OF assms(3)]]
    mview_keep [of s1 s] by simp

lemma mview_promotion: "promotion_policy E P s = Inr (el, s') \<Longrightarrow> mview s' = mview s"
  by (auto simp: promotion_policy_def Let_def case_prod_unfold bindr_Inr_iff split: if_splits
      dest!: mview_moves [OF _ keep_promote])

lemma mview_demotion: "demotion_policy E P el s = Inr s' \<Longrightarrow> mview s' = mview s"
  by (auto simp: demotion_policy_def Let_def bindr_Inr_iff split: if_splits dest!: mview_moves [OF _ keep_demote])

lemma mview_movement: "movement_policy E P s = Inr s' \<Longrightarrow> mview s' = mview s"
  by (auto simp: movement_policy_def bindr_Inr_iff split: if_splits
      dest!: mview_promotion mview_demotion mview_requests [OF _ keep_cool])

end
