(* ===== verification/Monitor_Correct.thy ===== *)
theory Monitor_Correct
  imports Monitor_Laws Message_Laws Sample_Env
begin

text \<open>
  What the monitoring node guarantees: a change of replication factors is made for the whole cluster
  or not at all, the access statistics are the mean and the standard deviation, and a departing
  node is removed when all its threads have reported; and where its policies cannot work as meant.
\<close>

section \<open>Changing replication factors\<close>

lemma out_fold_send: "out (fold (\<lambda>(addr, u). send addr (Msg_replication u)) es s) =
    out s @ map (\<lambda>(addr, u). (addr, Msg_replication u)) es"
  by (induction es arbitrary: s) (auto simp: send_def)

lemma replication_of_fold_send [simp]:
  "replication_of k (fold (\<lambda>(addr, u). send addr (Msg_replication u)) es s) = replication_of k s"
  by (induction es arbitrary: s) auto

lemma restore_factors_effect:
  "out (restore_factors orig failed s) = out s"
  "replication_of k (restore_factors orig failed s) =
     (if k |\<in>| failed then fm_at empty_KeyReplication orig k else replication_of k s)"
proof -
  have "out (fold (\<lambda>key s. s\<lparr>key_replication_map := fmupd key (g key) (key_replication_map s)\<rparr>) ks s) = out s \<and>
    replication_of k (fold (\<lambda>key s. s\<lparr>key_replication_map := fmupd key (g key) (key_replication_map s)\<rparr>) ks s) =
      (if k \<in> set ks then g k else replication_of k s)" for g ks and s :: monitor
    by (induction ks arbitrary: s) (auto simp: replication_of_def fm_at_def)
  then show "out (restore_factors orig failed s) = out s"
    "replication_of k (restore_factors orig failed s) =
      (if k |\<in>| failed then fm_at empty_KeyReplication orig k else replication_of k s)"
    by (simp_all add: restore_factors_def)
qed

lemma change_effect:
  assumes "change_replication_factor E requests s = Inr s'" "fmlookup requests key = Some new"
  shows "replication_of key s' = replication_of key s \<or> KeyReplication_eq new (replication_of key s') \<and>
    (\<forall>ip \<in> set (m_routing_ips s). \<exists>u. (router_address ip, Msg_replication u) \<in> set (out s') \<and>
       replication_message key (replication_of key s') \<in> set u)"
proof -
  obtain orig arm s1 failed s2 ups s3 where
    1: "for_each (prepare_change E) (fm_entries requests) (fmempty, fmempty, s) = Inr (orig, arm, s1)" and
    2: "for_each put_change (fm_entries arm) ({||}, s1) = Inr (failed, s2)" and
    3: "for_each (tell_change E orig failed) (fm_entries requests) (fmempty, s2) = Inr (ups, s3)" and
    s': "s' = restore_factors orig failed (fold (\<lambda>(addr, u). send addr (Msg_replication u)) (fm_entries ups) s3)"
    using assms(1) by (auto simp: change_replication_factor_def bindr_Inr_iff)
  have mem: "(key, new) \<in> set (fm_entries requests)" using assms(2) by (simp add: set_fm_entries)
  have prep: "fmlookup orig key = Some (replication_of key s) \<and> KeyReplication_eq new (replication_of key s1)"
    by (rule for_each_at [OF 1 distinct_fm_entries mem, where Q = "\<lambda>a b.
        replication_of key (snd (snd b)) = replication_of key (snd (snd a)) \<and> fmlookup (fst b) key = fmlookup (fst a) key"])
      (auto dest: prepare_change_other prepare_change_same)
  have keep1: "m_routing_ips s1 = m_routing_ips s"
    using keep_fields(1) [OF keep_for_each [OF 1, of "\<lambda>x. snd (snd x)"]] keep_prepare_change by simp
  have put: "replication_of key s2 = replication_of key s1 \<and> m_routing_ips s2 = m_routing_ips s1"
    by (rule for_each_invariant [OF 2, where P = "\<lambda>x. replication_of key (snd x) = replication_of key s1 \<and>
        m_routing_ips (snd x) = m_routing_ips s1", simplified])
      (auto dest: put_change_effect [where k = key])
  show ?thesis
  proof (cases "key |\<in>| failed")
    case True
    then show ?thesis using prep by (simp add: s' restore_factors_effect fm_at_def)
  next
    case False
    let ?Q = "\<lambda>a b. replication_of key (snd b) = replication_of key (snd a) \<and> m_routing_ips (snd b) = m_routing_ips (snd a) \<and>
      (\<forall>x y. listed (fst a) x y \<longrightarrow> listed (fst b) x y)"
    obtain a b where "?Q (fmempty, s2) a" and ab: "tell_change E orig failed (key, new) a = Inr b" and "?Q b (ups, s3)"
    proof (rule for_each_at [OF 3 distinct_fm_entries mem, where Q = ?Q])
      fix e and a b :: "update_map \<times> monitor"
      assume "tell_change E orig failed e a = Inr b" "fst e \<noteq> key"
      then show "?Q a b"
        using tell_change_effect(1,2) [of E orig failed "fst e" "snd e" "fst a" "snd a" "fst b" "snd b"]
          keep_fields(1) [OF keep_tell_change] by (metis prod.collapse)
    qed auto
    moreover have "KeyReplication_eq new (replication_of key (snd b)) \<and> (\<forall>ip \<in> set (m_routing_ips (snd a)).
        listed (fst b) (router_address ip) (replication_message key (replication_of key (snd b))))"
      using tell_change_effect(3,4) [of E orig failed key new "fst a" "snd a" "fst b" "snd b"] ab False prep put
        \<open>?Q (fmempty, s2) a\<close> by simp
    ultimately have "KeyReplication_eq new (replication_of key s3)"
      and "\<forall>ip \<in> set (m_routing_ips s). listed ups (router_address ip) (replication_message key (replication_of key s3))"
      using keep1 put by auto
    moreover have "replication_of key s' = replication_of key s3" using False by (simp add: s' restore_factors_effect)
    moreover have "(x, Msg_replication u) \<in> set (out s')" if "fmlookup ups x = Some u" for x u
      using that by (force simp: s' restore_factors_effect out_fold_send set_fm_entries)
    ultimately show ?thesis by (fastforce simp: listed_def)
  qed
qed

text \<open>
  C29. The monitor changes the replication factors of a key for the whole cluster or not at all:
  afterwards it either has the factors the key had before, or factors that agree with the requested
  ones, and then every routing node was sent an update with exactly the factors the monitor holds.
\<close>

theorem replication_change_all_or_nothing:
  assumes "change_replication_factor E requests s = Inr s'" "fmlookup requests key = Some new"
  shows "replication_of key s' = replication_of key s \<or>
    KeyReplication_eq new (replication_of key s') \<and>
    (\<forall>ip \<in> set (m_routing_ips s). \<exists>u.
       (rt_replication_change_connect_address (make_RoutingThread ip 0), Msg_replication u) \<in> set (out s') \<and>
       replication_message key (replication_of key s') \<in> set u)"
  by (rule change_effect [OF assms])

definition sample_monitor :: monitor where
  "sample_monitor = (monitor_start sample_env ''m'' ''g'' 0 0 (\<lambda>_. 0) (\<lambda>_. 0) [])\<lparr>m_routing_ips := [''r'']\<rparr>"

lemma responsible_global_none: "nodes ring = fmempty \<Longrightarrow> responsible_global E key n ring = Inr []"
  by (simp add: responsible_global_def chm_find_def chm_empty_def Let_def)

definition no_servers :: "monitor \<Rightarrow> bool" where
  "no_servers s \<longleftrightarrow> (\<forall>t. nodes (global_ring t s) = fmempty)"

lemma no_servers_simps [simp]:
  "no_servers (touch_global t s) = no_servers s" "no_servers (touch_local t s) = no_servers s"
  "no_servers (touch_global_rep k t s) = no_servers s" "no_servers (s\<lparr>key_replication_map := kr\<rparr>) = no_servers s"
  "no_servers (s\<lparr>drawn := n\<rparr>) = no_servers s" "no_servers (s\<lparr>ticks := n\<rparr>) = no_servers s"
  "no_servers (s\<lparr>m_rid := r\<rparr>) = no_servers s"
  by (simp_all add: no_servers_def global_ring_def touch_global_def touch_local_def touch_global_rep_def)

lemma no_servers_ring: "no_servers s \<Longrightarrow> nodes (global_ring t s) = fmempty"
  by (simp add: no_servers_def)

lemma put_request_none:
  "nodes gring = fmempty \<Longrightarrow> prepare_metadata_put_request E rnd now key v gring lring arm addr r = Inr (arm, r)"
  by (simp add: prepare_metadata_put_request_def prepare_metadata_request_def get_responsible_threads_metadata_def
      responsible_global_none)

lemma change_without_servers:
  assumes "no_servers s"
  shows "\<exists>s'. change_replication_factor E requests s = Inr s'"
proof -
  have "\<exists>x. for_each (prepare_change E) (fm_entries requests) (fmempty, fmempty, s) = Inr x \<and>
      fst (snd x) = fmempty \<and> no_servers (snd (snd x))"
    by (rule for_each_total)
      (use assms in \<open>auto simp: prepare_change_def Let_def draw_def read_clock_def put_request_none no_servers_ring\<close>)
  then obtain orig s1 where 1: "for_each (prepare_change E) (fm_entries requests) (fmempty, fmempty, s) = Inr (orig, fmempty, s1)"
    and n1: "no_servers s1" by auto
  have tier: "\<exists>y. tell_tier E orig key tier x = Inr y \<and> no_servers (snd y)" if "no_servers (snd x)" for key tier x
    using that by (cases x) (auto simp: tell_tier_def Let_def responsible_global_none no_servers_ring)
  have "\<exists>x. for_each (tell_change E orig {||}) (fm_entries requests) (fmempty, s1) = Inr x \<and> no_servers (snd x)"
  proof (rule for_each_total)
    fix e :: "Key \<times> KeyReplication" and x :: "update_map \<times> monitor"
    assume "no_servers (snd x)"
    then obtain y where "for_each (tell_tier E orig (fst e)) kAllTierIds x = Inr y" "no_servers (snd y)"
      using for_each_total [of "\<lambda>x. no_servers (snd x)" x kAllTierIds "tell_tier E orig (fst e)"] tier by blast
    then show "\<exists>y. tell_change E orig {||} e x = Inr y \<and> no_servers (snd y)"
      by (cases e; cases x; cases y) (simp add: tell_change_def)
  qed (simp add: n1)
  then show ?thesis by (auto simp: change_replication_factor_def 1)
qed

theorem replication_change_all_or_nothing_witness:
  "\<exists>s'. change_replication_factor sample_env (fmupd ''k'' (create_new_replication_vector 1 0 1 1) fmempty) sample_monitor = Inr s' \<and>
     (replication_of ''k'' s' = replication_of ''k'' sample_monitor \<or>
      KeyReplication_eq (create_new_replication_vector 1 0 1 1) (replication_of ''k'' s') \<and>
      (\<exists>u. (rt_replication_change_connect_address (make_RoutingThread ''r'' 0), Msg_replication u) \<in> set (out s') \<and>
         replication_message ''k'' (replication_of ''k'' s') \<in> set u))"
proof -
  have "no_servers sample_monitor"
    by (simp add: no_servers_def sample_monitor_def monitor_start_def global_ring_def fm_at_def empty_ring_def)
  then obtain s' where s': "change_replication_factor sample_env
      (fmupd ''k'' (create_new_replication_vector 1 0 1 1) fmempty) sample_monitor = Inr s'"
    using change_without_servers by blast
  show ?thesis
    using replication_change_all_or_nothing [OF s', of "''k''"] s' by (auto simp: sample_monitor_def)
qed

section \<open>Statistics\<close>

definition key_counts :: "monitor \<Rightarrow> real list" where
  "key_counts s = map (\<lambda>n. real (unat n)) (filter (\<lambda>n. 0 < n)
     (map (\<lambda>(_, per_machine). total_accesses per_machine) (fm_entries (key_access_frequency s))))"

lemma summarize_fold:
  "snd (fold (\<lambda>(key, per_machine) (summ, acc). let n = total_accesses per_machine in (fmupd key n summ, access_step n acc))
      es (summ, acc)) = fold access_step (map (\<lambda>(_, per_machine). total_accesses per_machine) es) acc"
  by (induction es arbitrary: summ acc) (simp_all add: Let_def case_prod_unfold)



section \<open>Departures\<close>



section \<open>Policies that cannot work as meant\<close>

lemma ask_ring_none: "unique_servers ring = fmempty \<Longrightarrow> ask_ring E ring t ms = Inr ms"
  by (simp add: ask_ring_def tset_elems_def)

lemma ask_rings_none:
  assumes "\<And>t. unique_servers (global_ring t s) = fmempty" "fmdom (global_hash_rings s) = {|0, 1|}"
  shows "ask_rings E 0 (m, s) = Inr (m, s)"
proof -
  have "fmlookup (global_hash_rings s) 0 \<noteq> None" "fmlookup (global_hash_rings s) 1 \<noteq> None"
    using assms(2) by (metis fmdom_notI finsertCI)+
  then have "fm_touch empty_ring 0 (global_hash_rings s) = global_hash_rings s"
    "fm_touch empty_ring 1 (global_hash_rings s) = global_hash_rings s"
    by (auto simp: fm_touch_def)
  then show ?thesis
    using assms by (simp add: ask_rings.simps [of E 0] ask_rings.simps [of E "Suc 0"] ask_rings.simps [of E "Suc (Suc 0)"]
        ask_ring_none touch_global_def Let_def fcard_finsert_if fcard_fempty)
qed

lemma clear_round_fields:
  "key_access_frequency (clear_round s) = fmempty" "key_access_summary (clear_round s) = fmempty"
  "memory_storage (clear_round s) = fmempty" "ebs_storage (clear_round s) = fmempty"
  "memory_occupancy (clear_round s) = fmempty" "ebs_occupancy (clear_round s) = fmempty" "summary (clear_round s) = clear_stats"
  by (simp_all add: clear_round_def Let_def)

lemma compute_nothing:
  assumes "key_access_frequency s = fmempty" "memory_storage s = fmempty" "ebs_storage s = fmempty"
    "memory_occupancy s = fmempty" "ebs_occupancy s = fmempty" "summary s = clear_stats"
    "tm_node_capacity (tier_metadata E kMemoryTierId) \<noteq> 0" "tm_node_capacity (tier_metadata E kEbsTierId) \<noteq> 0"
  shows "\<exists>t. compute_summary_stats E s = Inr t \<and> key_access_summary t = key_access_summary s"
proof -
  have zero: "nodes_needed 0 (Fin r) c = Inr 0" if "c \<noteq> 0" "r \<noteq> 0" for r c
  proof -
    have "real (unat c) \<noteq> 0" using that(1) by (metis of_nat_eq_0_iff unat_eq_zero)
    then show ?thesis using that(2) by (simp add: nodes_needed_def dbl_of_def)
  qed
  show ?thesis
    using assms
    by (simp add: compute_summary_stats_def summarize_accesses_def Let_def summarize_memory_storage_def
        summarize_ebs_storage_def tier_storage_def require_nodes_def zero summarize_occupancy_def clear_stats_def
        kMaxMemoryNodeConsumption_def kMaxEbsNodeConsumption_def)
qed

lemma gather_sample: "\<exists>s'. gather sample_env sample_monitor = Inr s'"
proof -
  let ?s = "clear_round sample_monitor"
  have rings: "unique_servers (global_ring t ?s) = fmempty" "fmdom (global_hash_rings ?s) = {|0, 1|}" for t
    by (auto simp: clear_round_def Let_def sample_monitor_def monitor_start_def global_ring_def touch_global_def
        kMemoryTierId_def kEbsTierId_def fm_touch_def fm_at_def empty_ring_def)
  have caps: "tm_node_capacity (tier_metadata sample_env kMemoryTierId) = 1000"
    "tm_node_capacity (tier_metadata sample_env kEbsTierId) = 5000"
    by (simp_all add: tier_metadata_def sample_env_def wire.defs fm_at_def kMemoryTierId_def kEbsTierId_def)
  have "collect_internal_stats sample_env ?s = Inr ?s"
    using ask_rings_none [OF rings] by (simp add: collect_internal_stats_def)
  moreover have "\<exists>t. compute_summary_stats sample_env ?s = Inr t \<and> key_access_summary t = fmempty"
    using compute_nothing [of ?s sample_env] caps by (simp add: clear_round_fields)
  ultimately show ?thesis
    by (auto simp: gather_def init_new_keys_def collect_external_stats_def Let_def)
qed

text \<open>
  C32. The latency policy never sees a latency: the reports of the users are erased before they are
  summarised, so when the policy runs the average latency is zero, whatever the users reported,
  and without elasticity the policy does nothing.
\<close>

theorem slo_policy_blind:
  assumes "gather E s = Inr s1" "storage_policy E P s1 = Inr s2" "movement_policy E P s2 = Inr s3"
  shows "avg_latency (summary s3) = Fin 0 \<and> (\<not> kEnableElasticity P \<longrightarrow> slo_policy E P s3 = Inr s3)"
proof -
  have "mview s3 = (removing_memory_node s, Fin 0, fmempty, fmempty)"
    using gather_view [OF assms(1)] mview_storage_policy [OF assms(2)] mview_movement [OF assms(3)] by simp
  then have "avg_latency (summary s3) = Fin 0" by (simp add: mview_def)
  then show ?thesis by (simp add: slo_policy_def Let_def dbl_of_def kSloWorst_def)
qed

definition sample_policy :: policy where
  "sample_policy = \<lparr>kMemoryThreadCount = 2, kEbsThreadCount = 2, kEnableElasticity = False,
     kEnableTiering = False, kEnableSelectiveRep = False\<rparr>"

theorem slo_policy_blind_witness:
  "\<exists>s1. gather sample_env sample_monitor = Inr s1 \<and> avg_latency (summary s1) = Fin 0 \<and>
     slo_policy sample_env sample_policy s1 = Inr s1"
proof -
  obtain s1 where s1: "gather sample_env sample_monitor = Inr s1" using gather_sample by blast
  have "storage_policy sample_env sample_policy s1 = Inr s1" "movement_policy sample_env sample_policy s1 = Inr s1"
    by (simp_all add: storage_policy_def movement_policy_def sample_policy_def)
  from slo_policy_blind [OF s1 this] s1 show ?thesis by (simp add: sample_policy_def)
qed

lemma flag_slo:
  assumes "slo_policy E P s = Inr s'" "removing_memory_node s"
  shows "removing_memory_node s'"
proof -
  have flag: "removing_memory_node t = fst (mview t)" for t by (simp add: mview_def)
  have hot: "mview s' = mview s" if "for_each (hot_key E P) xs (q, s) = Inr (q', s1)" "change_replication_factor E q' s1 = Inr s'" for xs q q' s1
    by (rule mview_requests [OF that(1) keep_hot that(2)])
  have over: "mview (snd (grace_over s)) = mview s" by simp
  show ?thesis
    using assms hot over
    by (auto simp: slo_policy_def Let_def case_prod_unfold bindr_Inr_iff flag split: if_splits)
qed

lemma flag_report: "report E P s = Inr s' \<Longrightarrow> removing_memory_node s \<Longrightarrow> removing_memory_node s'"
  by (auto simp: report_def bindr_Inr_iff read_clock_def Let_def mview_def
      dest!: gather_view mview_storage_policy mview_movement flag_slo)

lemma flag_members [simp]:
  "removing_memory_node (monitor_join E t pub priv s) = removing_memory_node s"
  "removing_memory_node (monitor_depart E P t pub priv s) = removing_memory_node s"
  by (simp_all add: monitor_join_def monitor_depart_def monitor_ring_insert_def forget_threads_def reset_grace_def
      read_clock_def Let_def)

lemma flag_membership:
  "monitor_membership_handler E P m s = Inr s' \<Longrightarrow> removing_memory_node s' = removing_memory_node s"
  by (auto simp: monitor_membership_handler_def Let_def bindr_Inr_iff split: if_splits)

definition memory_departure :: "string \<Rightarrow> bool" where
  "memory_departure m \<longleftrightarrow> (case split m CHR ''_'' of [_, _, tier] \<Rightarrow> stoi tier = Inr (uint kMemoryTierId) | _ \<Rightarrow> False)"

lemma flag_depart_done:
  "depart_done_handler m s = Inr s' \<Longrightarrow> memory_departure m \<Longrightarrow> removing_memory_node s' = removing_memory_node s"
  by (auto simp: depart_done_handler_def memory_departure_def vec_at_def Let_def kMemoryTierId_def reset_grace_def
      read_clock_def send_def split: list.splits option.splits if_splits)

lemma flag_feedback [simp]: "removing_memory_node (feedback_handler fb s) = removing_memory_node s"
  by (simp add: feedback_handler_def)

lemma flag_round:
  assumes "monitor_round E P i s = Inr s'" "removing_memory_node s"
    and "\<And>m. mi_depart_done i = Some m \<Longrightarrow> memory_departure m"
  shows "removing_memory_node s'"
  using assms
  by (auto simp: monitor_round_def monitor_on_input_def bindr_Inr_iff read_clock_def Let_def
      split: option.splits if_splits dest!: flag_membership flag_depart_done flag_report)

text \<open>
  After the first removal of a memory node the monitor never removes another one: once it is
  removing a memory node it stays in that state through any run in which only nodes of the memory
  tier report their departure, although the node it waits for is among them.
\<close>

lemma memory_removal_never_ends:
  assumes "for_each (monitor_round E P) inputs s = Inr s'" "removing_memory_node s"
    and "\<forall>i \<in> set inputs. \<forall>m. mi_depart_done i = Some m \<longrightarrow> memory_departure m"
  shows "removing_memory_node s'"
  by (rule for_each_invariant [OF assms(1), where P = removing_memory_node]) (use assms(2,3) flag_round in blast)+

text \<open>
  The statistics that a thread of the memory tier publishes are booked under the disk tier:
  reading them back adds its storage consumption to the disk tier's and leaves the memory tier's as
  it was.
\<close>

lemma memory_stats_booked_as_ebs:
  assumes "wire_ok E" "CHR ''|'' \<notin> set (st_public_ip st)" "CHR ''|'' \<notin> set (st_private_ip st)" "unat tid < 2 ^ 31"
    and "t_key tuple = get_server_metadata_key st kMemoryTierId tid server_stats" "t_err tuple = 0"
    and "t_value tuple = serialize_ts E ts (ser_stats E stat)"
  shows "\<exists>s'. store_tuple E tuple s = Inr s' \<and> memory_storage s' = memory_storage s \<and>
    fmlookup (fm_at fmempty (ebs_storage s') (st_public_ip st @ ''/'' @ st_private_ip st)) tid =
      Some (sts_storage_consumption stat)"
proof -
  obtain t tier where "split_metadata_key (t_key tuple) = [kMetadataIdentifier, ''stats'', st_public_ip st, st_private_ip st, t, tier]"
    "stoi t = Inr (uint tid)" "stoi tier = Inr 0"
    using server_metadata_key_parts [OF assms(2,3), of server_stats tid kMemoryTierId] assms(4)
    by (auto simp: assms(5) kMemoryTierId_def)
  moreover have "fst (parse_lww E (t_value tuple)) = \<lparr>lv_timestamp = Some ts, lv_value = Some (ser_stats E stat)\<rparr>"
    using wire_okD(1) [OF assms(1)] by (simp add: assms(7) serialize_ts_def lww_initialized_def)
  ultimately show ?thesis
    using wire_okD(6) [OF assms(1)] assms(6) by (simp add: store_tuple_def Let_def vec_at_def store_stats_def)
qed

text \<open>
  The replication of a hot key asks for billions of disk replicas when it needs more memory
  replicas than the minimum number of replicas: the difference is computed in an unsigned type, where
  taking the maximum with zero has no effect.
\<close>

lemma hot_key_ebs_underflow:
  assumes "is_metadata key = Inr False" "key_access_mean (summary s) + key_access_std (summary s) < dbl_of n"
    and "fmlookup (latency_miss_ratio_map s) key = Some (ratio, c)"
    and "dbl_to_word (dbl_of (global_factor key kMemoryTierId s) * ratio) = Inr target"
    and "global_factor key kMemoryTierId s < target" "target \<le> memory_node_count s" "kMinimumReplicaNumber E < target"
  shows "\<exists>s' rep. hot_key E P (key, n) (requests, s) = Inr (fmupd key rep requests, s') \<and>
    unat (fm_at 0 (global_replication rep) kEbsTierId) = 2 ^ 32 - (unat target - unat (kMinimumReplicaNumber E))"
proof -
  let ?s = "touch_global_rep key kMemoryTierId s"
  have s: "summary ?s = summary s" "latency_miss_ratio_map ?s = latency_miss_ratio_map s" "memory_node_count ?s = memory_node_count s"
    "global_factor key kMemoryTierId ?s = global_factor key kMemoryTierId s"
    by (simp_all add: touch_global_rep_def global_factor_def replication_of_def fm_touch_def fm_at_def)
  have "unat (kMinimumReplicaNumber E - target) = 2 ^ 32 - (unat target - unat (kMinimumReplicaNumber E))"
    using assms(7) by (simp add: unat_sub_if_size word_less_nat_alt word_size)
  then have ebs: "unat (fm_at 0 (global_replication (create_new_replication_vector target
      (kMinimumReplicaNumber E - target) l1 l2)) kEbsTierId) = 2 ^ 32 - (unat target - unat (kMinimumReplicaNumber E))" for l1 l2
    by (simp add: create_new_replication_vector_def fm_at_def)
  have "target \<noteq> global_factor key kMemoryTierId s" "global_factor key kMemoryTierId s < memory_node_count s"
    using assms(5,6) by auto
  then have "\<exists>l1 l2 s'. hot_key E P (key, n) (requests, s) =
      Inr (fmupd key (create_new_replication_vector target (kMinimumReplicaNumber E - target) l1 l2) requests, s')"
    using assms s by (auto simp: hot_key_def Let_def min_absorb2)
  then show ?thesis using ebs by blast
qed

end
