(* ===== verification/Kvs_Client.thy ===== *)
theory Kvs_Client
  imports Metadata "HOL-Library.Signed_Division"
begin

text \<open>
  The clients of the key-value store: the blocking client of include/kvs\_client.hpp and the
  asynchronous one of include/kvs\_async\_client.hpp. Both keep a cache of the addresses responsible
  for a key (\<open>client\<close>). The blocking client has the events that arrive on its two sockets as lists,
  where \<open>None\<close> is a receive timeout; a call that still waits when they are used up has the
  result \<open>Diverges\<close>. The asynchronous client takes the messages that arrived as arguments
  and reads the clock, in nanoseconds, of the field \<open>a_clock\<close>.
\<close>

section \<open>What both clients share\<close>

record client =
  ut :: UserThread
  routing_threads :: "UserRoutingThread list"
  c_rid :: u32
  c_seed :: u32
  key_address_cache :: "(Key, Address fset) fmap"
  c_out :: "(Address \<times> message) list"

definition c_send :: "Address \<Rightarrow> message \<Rightarrow> 'a client_scheme \<Rightarrow> 'a client_scheme" where
  "c_send addr msg c = c\<lparr>c_out := c_out c @ [(addr, msg)]\<rparr>"

definition client_seed :: "env \<Rightarrow> u32 \<Rightarrow> Address \<Rightarrow> u32 \<Rightarrow> u32" where
  "client_seed E time0 ip tid = ucast (ucast time0 + std_hash E ip) + tid"

text \<open>The counter is incremented before and after it is used.\<close>

definition get_request_id :: "'a client_scheme \<Rightarrow> string \<times> 'a client_scheme" where
  "get_request_id c =
     (let r = c_rid c + 1;
          r = (if r mod 10000 = 0 then 0 else r)
      in (ut_ip (ut c) @ '':'' @ to_string (ut_tid (ut c)) @ ''_'' @ to_string r, c\<lparr>c_rid := r + 1\<rparr>))"

definition client_rand :: "env \<Rightarrow> 'a client_scheme \<Rightarrow> u32 \<times> 'a client_scheme" where
  "client_rand E c = (let (sd, r) = rand_r E (c_seed c) in (r, c\<lparr>c_seed := sd\<rparr>))"

definition get_routing_thread :: "env \<Rightarrow> 'a client_scheme \<Rightarrow> fault + (Address \<times> 'a client_scheme)" where
  "get_routing_thread E c =
     (if routing_threads c = [] then Inl Division_by_zero
      else let (r, c) = client_rand E c
           in Inr (urt_key_address_connect_address (routing_threads c ! (unat r mod length (routing_threads c))), c))"

definition pick_worker :: "env \<Rightarrow> Address fset \<Rightarrow> 'a client_scheme \<Rightarrow> Address \<times> 'a client_scheme" where
  "pick_worker E local_cache c =
     (if local_cache = {||} then ([], c)
      else let (r, c) = client_rand E c; as = fs_elems local_cache in (as ! (unat r mod length as), c))"

definition invalidate_cache_for_key :: "Key \<Rightarrow> KeyTuple \<Rightarrow> 'a client_scheme \<Rightarrow> 'a client_scheme" where
  "invalidate_cache_for_key key tuple c =
     c\<lparr>key_address_cache := fmupd key (fold finsert (t_addresses tuple) {||}) (fmdrop key (key_address_cache c))\<rparr>"

text \<open>The signature of an address is what follows the first colon.\<close>

definition address_signature :: "Address \<Rightarrow> fault + string" where
  "address_signature a = vec_at (split a CHR '':'') 1"

definition keys_with_signature :: "string \<Rightarrow> Key \<times> Address fset \<Rightarrow> Key fset \<Rightarrow> fault + Key fset" where
  "keys_with_signature signature = (\<lambda>(key, addresses) remove_set.
     for_each (\<lambda>a remove_set. bindr (address_signature a) (\<lambda>sig.
         Inr (if sig = signature then finsert key remove_set else remove_set)))
       (fs_elems addresses) remove_set)"

definition invalidate_cache_for_worker :: "Address \<Rightarrow> 'a client_scheme \<Rightarrow> fault + 'a client_scheme" where
  "invalidate_cache_for_worker worker c =
     bindr (address_signature worker) (\<lambda>signature.
     bindr (for_each (keys_with_signature signature) (fm_entries (key_address_cache c)) {||}) (\<lambda>remove_set.
       Inr (c\<lparr>key_address_cache := fold fmdrop (fs_elems remove_set) (key_address_cache c)\<rparr>)))"

section \<open>kvs\_client.hpp\<close>

record sync_client = client +
  address_events :: "KeyAddressResponse option list"
  response_events :: "KeyResponse option list"

definition new_sync_client ::
  "env \<Rightarrow> UserRoutingThread list \<Rightarrow> Address \<Rightarrow> u32 \<Rightarrow> u32 \<Rightarrow> KeyAddressResponse option list \<Rightarrow>
   KeyResponse option list \<Rightarrow> sync_client" where
  "new_sync_client E routing ip tid time0 aevs revs =
     \<lparr>ut = make_UserThread ip tid, routing_threads = routing, c_rid = 0, c_seed = client_seed E time0 ip tid,
      key_address_cache = fmempty, c_out = [], address_events = aevs, response_events = revs\<rparr>"

definition bad_response :: KeyResponse where
  "bad_response = empty_response\<lparr>r_response_id := Some ''NULL_ERROR''\<rparr>"

definition resp_id :: "KeyResponse \<Rightarrow> string" where
  "resp_id r = from_option [] (r_response_id r)"

definition is_error_response :: "KeyResponse \<Rightarrow> bool" where
  "is_error_response r \<longleftrightarrow> resp_id r = resp_id bad_response"

definition empty_address_response :: KeyAddressResponse where
  "empty_address_response = \<lparr>ar_addresses = [], ar_error = 0, ar_response_id = None\<rparr>"

definition addr_resp_id :: "KeyAddressResponse \<Rightarrow> string" where
  "addr_resp_id r = from_option [] (ar_response_id r)"

lemma receive_consumes:
  "receive f evs ids rs n = Some (ok, ids', rs', rest) \<Longrightarrow> length rest < length evs"
proof (induction evs arbitrary: ids rs n)
  case (Cons ev evs)
  then show ?case
    by (cases ev) (auto simp: Let_def split: if_split_asm dest!: Cons.IH)
qed simp

lemma make_request_consumes:
  "make_request f e q i evs = Some (q', r, ok, rest) \<Longrightarrow> length rest < length evs"
  by (auto simp: make_request_def split: option.splits dest: receive_consumes)

text \<open>The query is repeated while the routing tier answers with an error.\<close>

function query_loop :: "env \<Rightarrow> KeyAddressRequest \<Rightarrow> sync_client \<Rightarrow> fault + (KeyAddressResponse option \<times> sync_client)" where
  "query_loop E request c =
     (case get_routing_thread E c of
        Inl e \<Rightarrow> Inl e
      | Inr (rt_thread, c1) \<Rightarrow>
          (case make_request addr_resp_id empty_address_response request (from_option [] (aq_request_id request))
              (address_events c1) of
             None \<Rightarrow> Inl Diverges
           | Some (sent, response, succeed, rest) \<Rightarrow>
               let c2 = c_send rt_thread (Msg_address_request sent) (c1\<lparr>address_events := rest\<rparr>)
               in if \<not> succeed then Inr (None, c2)
                  else if ar_error response = 0 then Inr (Some response, c2)
                  else query_loop E request c2))"
  by auto
termination
  by (relation "measure (\<lambda>(E, request, c). length (address_events c))")
    (auto simp: get_routing_thread_def client_rand_def Let_def c_send_def split: if_splits prod.splits
      dest: make_request_consumes)

declare query_loop.simps [simp del]

definition query_routing :: "env \<Rightarrow> Key \<Rightarrow> sync_client \<Rightarrow> fault + (Address fset \<times> sync_client)" where
  "query_routing E key c =
     (let (req_id, c) = get_request_id c;
          request = \<lparr>aq_response_address = ut_key_address_connect_address (ut c), aq_keys = [key], aq_request_id = Some req_id\<rparr>
      in bindr (query_loop E request c) (\<lambda>(response, c).
         case response of
           None \<Rightarrow> Inr ({||}, c)
         | Some r \<Rightarrow> bindr (vec_at (ar_addresses r) 0) (\<lambda>a. Inr (fold finsert (ka_ips a) {||}, c))))"

definition get_all_worker_threads :: "env \<Rightarrow> Key \<Rightarrow> sync_client \<Rightarrow> fault + (Address fset \<times> sync_client)" where
  "get_all_worker_threads E key c =
     (if fm_at {||} (key_address_cache c) key = {||}
      then bindr (query_routing E key c) (\<lambda>(addresses, c).
           if addresses = {||} then Inr ({||}, c)
           else Inr (addresses, c\<lparr>key_address_cache := fmupd key addresses (key_address_cache c)\<rparr>))
      else Inr (fm_at {||} (key_address_cache c) key, c))"

definition get_worker_thread :: "env \<Rightarrow> Key \<Rightarrow> sync_client \<Rightarrow> fault + (Address \<times> sync_client)" where
  "get_worker_thread E key c =
     bindr (get_all_worker_threads E key c) (\<lambda>(local_cache, c). Inr (pick_worker E local_cache c))"

definition prepare_data_request :: "Key \<Rightarrow> sync_client \<Rightarrow> KeyRequest \<times> sync_client" where
  "prepare_data_request key c =
     (let (req_id, c) = get_request_id c;
          c = c\<lparr>key_address_cache := fm_touch {||} key (key_address_cache c)\<rparr>
      in (empty_request\<lparr>q_request_id := Some req_id, q_response_address := Some (ut_response_connect_address (ut c)),
            q_tuples := [empty_tuple\<lparr>t_key := key, t_address_cache_size :=
               Some (of_nat (fcard (fm_at {||} (key_address_cache c) key)))\<rparr>]\<rparr>, c))"

definition check_tuple :: "KeyTuple \<Rightarrow> sync_client \<Rightarrow> bool \<times> sync_client" where
  "check_tuple tuple c =
     (if t_err tuple = 2 then (True, invalidate_cache_for_key (t_key tuple) tuple c)
      else let c = (if from_option False (t_invalidate tuple) then invalidate_cache_for_key (t_key tuple) tuple c else c)
           in (t_err tuple \<noteq> 0, c))"

text \<open>
  The result of the inner call is not used when a tuple has an error: the first response is
  returned.
\<close>

function try_request :: "env \<Rightarrow> KeyRequest \<Rightarrow> u32 \<Rightarrow> sync_client \<Rightarrow> fault + (KeyResponse \<times> sync_client)" where
  "try_request E request trial_limit c =
     (if trial_limit = 0 then Inr (bad_response, c)
      else let (req_id, c) = get_request_id c;
               request = request\<lparr>q_request_id := Some req_id\<rparr>
           in bindr (vec_at (q_tuples request) 0) (\<lambda>tuple.
              bindr (get_worker_thread E (t_key tuple) c) (\<lambda>(worker, c).
                if worker = [] then Inr (bad_response, c)
                else case make_request resp_id empty_response request req_id (response_events c) of
                       None \<Rightarrow> Inl Diverges
                     | Some (sent, response, succeed, rest) \<Rightarrow>
                         let c = c_send worker (Msg_request sent) (c\<lparr>response_events := rest\<rparr>)
                         in if \<not> succeed
                            then bindr (invalidate_cache_for_worker worker c) (\<lambda>c.
                                 try_request E request (trial_limit - 1) c)
                            else bindr (vec_at (r_tuples response) 0) (\<lambda>rtuple.
                                 let (again, c) = check_tuple rtuple c
                                 in if again
                                    then bindr (try_request E request (trial_limit - 1) c)
                                           (\<lambda>(_, c). Inr (response, c))
                                    else Inr (response, c)))))"
  by auto
termination
  by (relation "measure (\<lambda>(E, request, n, c). unat n)") (auto simp: unat_minus_one unat_gt_0)

declare try_request.simps [simp del]

text \<open>One request to every worker, under a fresh id each.\<close>

definition send_to_all ::
  "Address list \<Rightarrow> KeyRequest \<times> string fset \<times> sync_client \<Rightarrow> KeyRequest \<times> string fset \<times> sync_client" where
  "send_to_all workers x =
     fold (\<lambda>worker (request, request_ids, c).
        let (rid_str, c) = get_request_id c;
            request = request\<lparr>q_request_id := Some rid_str\<rparr>
        in (request, finsert rid_str request_ids, c_send worker (Msg_request request) c)) workers x"

fun check_responses :: "KeyResponse list \<Rightarrow> sync_client \<Rightarrow> fault + (bool \<times> sync_client)" where
  "check_responses [] c = Inr (False, c)"
| "check_responses (response # responses) c =
     bindr (vec_at (r_tuples response) 0) (\<lambda>tuple.
       let (again, c) = check_tuple tuple c
       in if again then Inr (True, c) else check_responses responses c)"

function try_multi_request :: "env \<Rightarrow> KeyRequest \<Rightarrow> u32 \<Rightarrow> sync_client \<Rightarrow> fault + (KeyResponse list \<times> sync_client)" where
  "try_multi_request E request trial_limit c =
     (if trial_limit = 0 then Inr ([], c)
      else bindr (vec_at (q_tuples request) 0) (\<lambda>tuple.
           bindr (get_all_worker_threads E (t_key tuple) c) (\<lambda>(workers, c).
             if workers = {||} then Inr ([], c)
             else let (request, request_ids, c) = send_to_all (fs_elems workers) (request, {||}, c)
                  in case receive resp_id (response_events c) request_ids [] (of_nat (fcard request_ids)) of
                       None \<Rightarrow> Inl Diverges
                     | Some (succeed, _, responses, rest) \<Rightarrow>
                         let c = c\<lparr>response_events := rest\<rparr>
                         in if \<not> succeed
                            then bindr (for_each invalidate_cache_for_worker (fs_elems workers) c) (\<lambda>c.
                                 try_multi_request E request (trial_limit - 1) c)
                            else bindr (check_responses responses c) (\<lambda>(again, c).
                                 if again then try_multi_request E request (trial_limit - 1) c
                                 else Inr (responses, c)))))"
  by auto
termination
  by (relation "measure (\<lambda>(E, request, n, c). unat n)") (auto simp: unat_minus_one unat_gt_0)

declare try_multi_request.simps [simp del]

text \<open>The body that the overloads of \<open>put\<close> share, for the lattice type and the serialized value.\<close>

definition put_value ::
  "env \<Rightarrow> LatticeType \<Rightarrow> string \<Rightarrow> Key \<Rightarrow> u32 \<Rightarrow> sync_client \<Rightarrow> fault + (bool \<times> sync_client)" where
  "put_value E lattice_type payload key trial_limit c =
     (let (request, c) = prepare_data_request key c;
          request = request\<lparr>q_type := PUT, q_tuples := map (\<lambda>t. t\<lparr>t_lattice_type := Some lattice_type,
            t_payload := Some payload\<rparr>) (q_tuples request)\<rparr>
      in bindr (try_request E request trial_limit c) (\<lambda>(response, c). Inr (\<not> is_error_response response, c)))"

definition put_lww :: "env \<Rightarrow> Key \<Rightarrow> TimestampValuePair \<Rightarrow> u32 \<Rightarrow> sync_client \<Rightarrow> fault + (bool \<times> sync_client)" where
  "put_lww E key v = put_value E LWW (serialize_lww E v) key"

definition put_set :: "env \<Rightarrow> Key \<Rightarrow> string fset \<Rightarrow> u32 \<Rightarrow> sync_client \<Rightarrow> fault + (bool \<times> sync_client)" where
  "put_set E key v = put_value E SET (serialize_set E v) key"

definition put_ordered_set :: "env \<Rightarrow> Key \<Rightarrow> string fset \<Rightarrow> u32 \<Rightarrow> sync_client \<Rightarrow> fault + (bool \<times> sync_client)" where
  "put_ordered_set E key v = put_value E ORDERED_SET (serialize_ordered_set E v) key"

definition put_all_value ::
  "env \<Rightarrow> LatticeType \<Rightarrow> string \<Rightarrow> Key \<Rightarrow> u32 \<Rightarrow> sync_client \<Rightarrow> fault + (bool \<times> sync_client)" where
  "put_all_value E lattice_type payload key trial_limit c =
     (let (request, c) = prepare_data_request key c;
          request = request\<lparr>q_type := PUT, q_tuples := map (\<lambda>t. t\<lparr>t_lattice_type := Some lattice_type,
            t_payload := Some payload\<rparr>) (q_tuples request)\<rparr>
      in bindr (try_multi_request E request trial_limit c) (\<lambda>(responses, c). Inr (responses \<noteq> [], c)))"

definition put_all_lww :: "env \<Rightarrow> Key \<Rightarrow> TimestampValuePair \<Rightarrow> u32 \<Rightarrow> sync_client \<Rightarrow> fault + (bool \<times> sync_client)" where
  "put_all_lww E key v = put_all_value E LWW (serialize_lww E v) key"

definition put_all_set :: "env \<Rightarrow> Key \<Rightarrow> string fset \<Rightarrow> u32 \<Rightarrow> sync_client \<Rightarrow> fault + (bool \<times> sync_client)" where
  "put_all_set E key v = put_all_value E SET (serialize_set E v) key"

definition put_all_ordered_set :: "env \<Rightarrow> Key \<Rightarrow> string fset \<Rightarrow> u32 \<Rightarrow> sync_client \<Rightarrow> fault + (bool \<times> sync_client)" where
  "put_all_ordered_set E key v = put_all_value E ORDERED_SET (serialize_ordered_set E v) key"

text \<open>
  The body of the \<open>get\<close> methods: \<open>timeout\<close> and \<open>missing\<close> are returned on an error response and on a
  missing key, \<open>decode\<close> reads the payload.
\<close>

definition get_value ::
  "env \<Rightarrow> 'v \<Rightarrow> 'v \<Rightarrow> (string \<Rightarrow> 'v) \<Rightarrow> Key \<Rightarrow> u32 \<Rightarrow> sync_client \<Rightarrow> fault + ('v \<times> sync_client)" where
  "get_value E timeout missing decode key trial_limit c =
     (let (request, c) = prepare_data_request key c
      in bindr (try_request E (request\<lparr>q_type := GET\<rparr>) trial_limit c) (\<lambda>(response, c).
         if is_error_response response then Inr (timeout, c)
         else bindr (vec_at (r_tuples response) 0) (\<lambda>rtuple.
              Inr (if t_err rtuple = 1 then missing else decode (t_value rtuple), c))))"

definition get_lww :: "env \<Rightarrow> Key \<Rightarrow> u32 \<Rightarrow> sync_client \<Rightarrow> fault + (TimestampValuePair \<times> sync_client)" where
  "get_lww E = get_value E
     \<lparr>timestamp = 0, tvp_value = ''ERROR: Timeout -- connection could not be established!''\<rparr>
     \<lparr>timestamp = 0, tvp_value = ''ERROR: Key does not exist!''\<rparr> (deserialize_lww E)"

definition get_set :: "env \<Rightarrow> Key \<Rightarrow> u32 \<Rightarrow> sync_client \<Rightarrow> fault + (string fset \<times> sync_client)" where
  "get_set E = get_value E {||} {||} (deserialize_set E)"

definition get_ordered_set :: "env \<Rightarrow> Key \<Rightarrow> u32 \<Rightarrow> sync_client \<Rightarrow> fault + (string fset \<times> sync_client)" where
  "get_ordered_set E = get_value E {||} {||} (deserialize_ordered_set E)"

text \<open>The loop over the responses of a \<open>get_all\<close>: a replica without the key empties the result.\<close>

fun decode_all :: "(string \<Rightarrow> 'v) \<Rightarrow> KeyResponse list \<Rightarrow> 'v list \<Rightarrow> fault + 'v list" where
  "decode_all decode [] result = Inr result"
| "decode_all decode (response # responses) result =
     bindr (vec_at (r_tuples response) 0) (\<lambda>tuple.
       if t_err tuple = 1 then Inr [] else decode_all decode responses (result @ [decode (t_value tuple)]))"

definition get_all_values ::
  "env \<Rightarrow> (string \<Rightarrow> 'v) \<Rightarrow> Key \<Rightarrow> u32 \<Rightarrow> sync_client \<Rightarrow> fault + ('v list \<times> sync_client)" where
  "get_all_values E decode key trial_limit c =
     (let (request, c) = prepare_data_request key c
      in bindr (try_multi_request E (request\<lparr>q_type := GET\<rparr>) trial_limit c) (\<lambda>(responses, c).
         bindr (decode_all decode responses []) (\<lambda>result. Inr (result, c))))"

definition get_all_lww :: "env \<Rightarrow> Key \<Rightarrow> u32 \<Rightarrow> sync_client \<Rightarrow> fault + (TimestampValuePair list \<times> sync_client)" where
  "get_all_lww E = get_all_values E (deserialize_lww E)"

definition get_set_all :: "env \<Rightarrow> Key \<Rightarrow> u32 \<Rightarrow> sync_client \<Rightarrow> fault + (string fset list \<times> sync_client)" where
  "get_set_all E = get_all_values E (deserialize_set E)"

definition get_ordered_set_all :: "env \<Rightarrow> Key \<Rightarrow> u32 \<Rightarrow> sync_client \<Rightarrow> fault + (string fset list \<times> sync_client)" where
  "get_ordered_set_all E = get_all_values E (deserialize_ordered_set E)"

definition clear_cache :: "'a client_scheme \<Rightarrow> 'a client_scheme" where
  "clear_cache c = c\<lparr>key_address_cache := fmempty\<rparr>"

section \<open>kvs\_async\_client.hpp\<close>

record AsyncPending =
  ap_tp :: int
  ap_worker_addr :: Address
  ap_request :: KeyRequest

record async_client = client +
  timeout_ms :: u32
  pending_request_map :: "(Key, int \<times> KeyRequest list) fmap"
  pending_get_response_map :: "(Key, AsyncPending) fmap"
  pending_put_response_map :: "(Key, (string, AsyncPending) fmap) fmap"
  a_clock :: "nat \<Rightarrow> int"
  a_ticks :: nat

definition new_async_client ::
  "env \<Rightarrow> UserRoutingThread list \<Rightarrow> Address \<Rightarrow> u32 \<Rightarrow> u32 \<Rightarrow> u32 \<Rightarrow> (nat \<Rightarrow> int) \<Rightarrow> async_client" where
  "new_async_client E routing ip tid timeout time0 clk =
     \<lparr>ut = make_UserThread ip tid, routing_threads = routing, c_rid = 0, c_seed = client_seed E time0 ip tid,
      key_address_cache = fmempty, c_out = [], timeout_ms = timeout, pending_request_map = fmempty,
      pending_get_response_map = fmempty, pending_put_response_map = fmempty, a_clock = clk, a_ticks = 0\<rparr>"

definition a_now :: "async_client \<Rightarrow> int \<times> async_client" where
  "a_now c = (a_clock c (a_ticks c), c\<lparr>a_ticks := Suc (a_ticks c)\<rparr>)"

definition query_routing_async :: "env \<Rightarrow> Key \<Rightarrow> async_client \<Rightarrow> fault + async_client" where
  "query_routing_async E key c =
     (let (req_id, c) = get_request_id c;
          request = \<lparr>aq_response_address = ut_key_address_connect_address (ut c), aq_keys = [key], aq_request_id = Some req_id\<rparr>
      in bindr (get_routing_thread E c) (\<lambda>(rt_thread, c). Inr (c_send rt_thread (Msg_address_request request) c)))"

definition async_worker_threads :: "env \<Rightarrow> Key \<Rightarrow> async_client \<Rightarrow> fault + (Address fset \<times> async_client)" where
  "async_worker_threads E key c =
     (if fm_at {||} (key_address_cache c) key = {||}
      then if fm_contains (pending_request_map c) key then Inr ({||}, c)
           else bindr (query_routing_async E key c) (\<lambda>c. Inr ({||}, c))
      else Inr (fm_at {||} (key_address_cache c) key, c))"

definition async_worker_thread :: "env \<Rightarrow> Key \<Rightarrow> async_client \<Rightarrow> fault + (Address \<times> async_client)" where
  "async_worker_thread E key c =
     bindr (async_worker_threads E key c) (\<lambda>(local_cache, c). Inr (pick_worker E local_cache c))"

definition async_prepare :: "Key \<Rightarrow> async_client \<Rightarrow> KeyRequest \<times> async_client" where
  "async_prepare key c =
     (let (req_id, c) = get_request_id c
      in (empty_request\<lparr>q_request_id := Some req_id, q_response_address := Some (ut_response_connect_address (ut c)),
            q_tuples := [empty_tuple\<lparr>t_key := key\<rparr>]\<rparr>, c))"

text \<open>
  \<open>try_request\<close> changes the request it is given: the first tuple gets the size of the address cache.
  The flag of the result is False when no worker is known and the request waits for an address.
\<close>

definition q_id :: "KeyRequest \<Rightarrow> string" where
  "q_id q = from_option [] (q_request_id q)"

definition remember_get :: "Key \<Rightarrow> Address \<Rightarrow> KeyRequest \<Rightarrow> async_client \<Rightarrow> async_client" where
  "remember_get key worker request c =
     (let c = (if fm_contains (pending_get_response_map c) key then c
               else let (now, c) = a_now c
                    in c\<lparr>pending_get_response_map := fmupd key
                          \<lparr>ap_tp = now, ap_worker_addr = [], ap_request = request\<rparr> (pending_get_response_map c)\<rparr>)
      in c\<lparr>pending_get_response_map := fmmap_keys (\<lambda>k p. if k = key then p\<lparr>ap_worker_addr := worker\<rparr> else p)
            (pending_get_response_map c)\<rparr>)"

definition remember_put :: "Key \<Rightarrow> Address \<Rightarrow> KeyRequest \<Rightarrow> async_client \<Rightarrow> async_client" where
  "remember_put key worker request c =
     (let m = fm_at fmempty (pending_put_response_map c) key;
          (m, c) = (if fm_contains m (q_id request) then (m, c)
               else let (now, c) = a_now c
                    in (fmupd (q_id request) \<lparr>ap_tp = now, ap_worker_addr = [], ap_request = request\<rparr> m, c));
          m = fmmap_keys (\<lambda>k p. if k = q_id request then p\<lparr>ap_worker_addr := worker\<rparr> else p) m
      in c\<lparr>pending_put_response_map := fmupd key m (pending_put_response_map c)\<rparr>)"

definition async_try_request :: "env \<Rightarrow> KeyRequest \<Rightarrow> async_client \<Rightarrow> fault + (bool \<times> KeyRequest \<times> async_client)" where
  "async_try_request E request c =
     bindr (vec_at (q_tuples request) 0) (\<lambda>tuple.
       let key = t_key tuple
       in bindr (async_worker_thread E key c) (\<lambda>(worker, c).
          if worker = []
          then let (now, c) = (if fm_contains (pending_request_map c) key then (0, c) else a_now c)
               in Inr (False, request, c\<lparr>pending_request_map := fm_modify (now, []) key
                    (\<lambda>(tp, reqs). (tp, reqs @ [request])) (pending_request_map c)\<rparr>)
          else let request = request\<lparr>q_tuples := (q_tuples request)[0 := tuple\<lparr>t_address_cache_size :=
                     Some (of_nat (fcard (fm_at {||} (key_address_cache c) key)))\<rparr>]\<rparr>;
                   c = c_send worker (Msg_request request) c
               in Inr (True, request,
                    if q_type request = GET then remember_get key worker request c
                    else remember_put key worker request c)))"

definition put_async :: "env \<Rightarrow> Key \<Rightarrow> string \<Rightarrow> LatticeType \<Rightarrow> async_client \<Rightarrow> fault + (string \<times> async_client)" where
  "put_async E key payload lattice_type c =
     (let (request, c) = async_prepare key c;
          request = request\<lparr>q_type := PUT, q_tuples := map (\<lambda>t. t\<lparr>t_lattice_type := Some lattice_type,
            t_payload := Some payload\<rparr>) (q_tuples request)\<rparr>
      in bindr (async_try_request E request c) (\<lambda>(_, request, c). Inr (q_id request, c)))"

definition get_async :: "env \<Rightarrow> Key \<Rightarrow> async_client \<Rightarrow> fault + async_client" where
  "get_async E key c =
     (if fm_contains (pending_get_response_map c) key then Inr c
      else let (request, c) = async_prepare key c
           in bindr (async_try_request E (request\<lparr>q_type := GET\<rparr>) c) (\<lambda>(_, _, c). Inr c))"

definition async_check_tuple :: "KeyTuple \<Rightarrow> async_client \<Rightarrow> bool \<times> async_client" where
  "async_check_tuple tuple c =
     (if t_err tuple = 2 then (True, invalidate_cache_for_key (t_key tuple) tuple c)
      else (False, if from_option False (t_invalidate tuple) then invalidate_cache_for_key (t_key tuple) tuple c else c))"

definition generate_bad_response :: "KeyRequest \<Rightarrow> fault + KeyResponse" where
  "generate_bad_response req =
     bindr (vec_at (q_tuples req) 0) (\<lambda>tuple.
       let tp = empty_tuple\<lparr>t_key := t_key tuple\<rparr>;
           tp = (if q_type req = PUT then tp\<lparr>t_lattice_type := Some (t_lattice tuple), t_payload := Some (t_value tuple)\<rparr> else tp)
       in Inr \<lparr>r_type = q_type req, r_tuples = [tp], r_response_id = Some (q_id req), r_error = Some 0\<rparr>)"

text \<open>
  An answer of the routing tier. The requests that wait for the key are issued in a loop over their
  list; one that finds no worker is appended to that same list, which invalidates the loop.
\<close>

definition handle_address :: "env \<Rightarrow> KeyAddressResponse \<Rightarrow> async_client \<Rightarrow> fault + async_client" where
  "handle_address E response c =
     bindr (vec_at (ar_addresses response) 0) (\<lambda>address.
       let key = ka_key address
       in case fmlookup (pending_request_map c) key of
            None \<Rightarrow> Inr c
          | Some (tp, reqs) \<Rightarrow>
              if ar_error response = 1
              then let (now, c) = a_now c
                   in query_routing_async E key (c\<lparr>pending_request_map := fmupd key (now, reqs) (pending_request_map c)\<rparr>)
              else let c = (if ka_ips address = [] then c
                       else c\<lparr>key_address_cache := fm_modify {||} key (fold finsert (ka_ips address)) (key_address_cache c)\<rparr>)
                   in bindr (for_each (\<lambda>req c. bindr (async_try_request E req c) (\<lambda>(sent, _, c).
                          if sent then Inr c else Inl Invalid_iterator)) reqs c) (\<lambda>c.
                      Inr (c\<lparr>pending_request_map := fmdrop key (pending_request_map c)\<rparr>)))"

definition handle_get_response ::
  "env \<Rightarrow> KeyResponse \<Rightarrow> KeyTuple \<Rightarrow> async_client \<Rightarrow> fault + (KeyResponse list \<times> async_client)" where
  "handle_get_response E response tuple c =
     (let key = t_key tuple
      in case fmlookup (pending_get_response_map c) key of
           None \<Rightarrow> Inr ([], c)
         | Some p \<Rightarrow>
             let (again, c) = async_check_tuple tuple c
             in if again
                then let (now, c) = a_now c;
                         c = c\<lparr>pending_get_response_map := fmupd key (p\<lparr>ap_tp := now\<rparr>) (pending_get_response_map c)\<rparr>
                     in bindr (async_try_request E (ap_request p) c) (\<lambda>(_, request, c).
                        Inr ([], c\<lparr>pending_get_response_map := fmmap_keys
                              (\<lambda>k q. if k = key then q\<lparr>ap_request := request\<rparr> else q) (pending_get_response_map c)\<rparr>))
                else Inr ([response], c\<lparr>pending_get_response_map := fmdrop key (pending_get_response_map c)\<rparr>))"

definition handle_put_response ::
  "env \<Rightarrow> KeyResponse \<Rightarrow> KeyTuple \<Rightarrow> async_client \<Rightarrow> fault + (KeyResponse list \<times> async_client)" where
  "handle_put_response E response tuple c =
     (let key = t_key tuple; rid = from_option [] (r_response_id response);
          m = fm_at fmempty (pending_put_response_map c) key
      in case fmlookup m rid of
           None \<Rightarrow> Inr ([], c)
         | Some p \<Rightarrow>
             let (again, c) = async_check_tuple tuple c
             in if again
                then let (now, c) = a_now c;
                         c = c\<lparr>pending_put_response_map := fmupd key (fmupd rid (p\<lparr>ap_tp := now\<rparr>) m) (pending_put_response_map c)\<rparr>
                     in bindr (async_try_request E (ap_request p) c) (\<lambda>(_, request, c).
                        Inr ([], c\<lparr>pending_put_response_map := fm_modify fmempty key (fmmap_keys
                              (\<lambda>k q. if k = rid then q\<lparr>ap_request := request\<rparr> else q)) (pending_put_response_map c)\<rparr>))
                else let m = fmdrop rid m
                     in Inr ([response], c\<lparr>pending_put_response_map :=
                          if m = fmempty then fmdrop key (pending_put_response_map c)
                          else fmupd key m (pending_put_response_map c)\<rparr>))"

definition handle_response :: "env \<Rightarrow> KeyResponse \<Rightarrow> async_client \<Rightarrow> fault + (KeyResponse list \<times> async_client)" where
  "handle_response E response c =
     bindr (vec_at (r_tuples response) 0) (\<lambda>tuple.
       if r_type response = GET then handle_get_response E response tuple c
       else handle_put_response E response tuple c)"

text \<open>Whether a pending entry of time \<open>tp\<close> has timed out; every check reads the clock.\<close>

definition timed_out :: "int \<Rightarrow> async_client \<Rightarrow> bool \<times> async_client" where
  "timed_out tp c = (let (now, c) = a_now c in (uint (timeout_ms c) < (now - tp) sdiv 1000000, c))"

type_synonym gc_state = "KeyResponse list \<times> async_client"

definition gc_address :: "Key \<times> int \<times> KeyRequest list \<Rightarrow> Key list \<times> gc_state \<Rightarrow> fault + (Key list \<times> gc_state)" where
  "gc_address = (\<lambda>(key, tp, reqs) (gone, result, c).
     let (out, c) = timed_out tp c
     in if out
        then bindr (for_each (\<lambda>req result. bindr (generate_bad_response req) (\<lambda>r. Inr (result @ [r]))) reqs result)
               (\<lambda>result. Inr (gone @ [key], result, c))
        else Inr (gone, result, c))"

definition gc_get :: "Key \<times> AsyncPending \<Rightarrow> Key list \<times> gc_state \<Rightarrow> fault + (Key list \<times> gc_state)" where
  "gc_get = (\<lambda>(key, p) (gone, result, c).
     let (out, c) = timed_out (ap_tp p) c
     in if out
        then bindr (generate_bad_response (ap_request p)) (\<lambda>r.
             bindr (invalidate_cache_for_worker (ap_worker_addr p) c) (\<lambda>c. Inr (gone @ [key], result @ [r], c)))
        else Inr (gone, result, c))"

definition gc_put ::
  "(Key \<times> string) \<times> AsyncPending \<Rightarrow> (Key \<times> string) list \<times> gc_state \<Rightarrow> fault + ((Key \<times> string) list \<times> gc_state)" where
  "gc_put = (\<lambda>((key, rid), p) (gone, result, c).
     let (out, c) = timed_out (ap_tp p) c
     in if out
        then bindr (generate_bad_response (ap_request p)) (\<lambda>r.
             bindr (invalidate_cache_for_worker (ap_worker_addr p) c) (\<lambda>c. Inr (gone @ [(key, rid)], result @ [r], c)))
        else Inr (gone, result, c))"

definition pending_puts :: "async_client \<Rightarrow> ((Key \<times> string) \<times> AsyncPending) list" where
  "pending_puts c = concat (map (\<lambda>(key, m). map (\<lambda>(rid, p). ((key, rid), p)) (fm_entries m))
     (fm_entries (pending_put_response_map c)))"

definition collect_garbage :: "gc_state \<Rightarrow> fault + gc_state" where
  "collect_garbage = (\<lambda>(result, c).
     bindr (for_each gc_address (fm_entries (pending_request_map c)) ([], result, c)) (\<lambda>(gone, result, c).
     let c = c\<lparr>pending_request_map := fold fmdrop gone (pending_request_map c)\<rparr>
     in bindr (for_each gc_get (fm_entries (pending_get_response_map c)) ([], result, c)) (\<lambda>(gone, result, c).
     let c = c\<lparr>pending_get_response_map := fold fmdrop gone (pending_get_response_map c)\<rparr>
     in bindr (for_each gc_put (pending_puts c) ([], result, c)) (\<lambda>(gone, result, c).
        Inr (result, c\<lparr>pending_put_response_map :=
          fold (\<lambda>(key, rid). fm_modify fmempty key (fmdrop rid)) gone (pending_put_response_map c)\<rparr>)))))"

definition receive_async ::
  "env \<Rightarrow> KeyAddressResponse option \<Rightarrow> KeyResponse option \<Rightarrow> async_client \<Rightarrow> fault + (KeyResponse list \<times> async_client)" where
  "receive_async E address response c =
     bindr (case address of None \<Rightarrow> Inr c | Some a \<Rightarrow> handle_address E a c) (\<lambda>c.
     bindr (case response of None \<Rightarrow> Inr ([], c) | Some r \<Rightarrow> handle_response E r c) (\<lambda>(result, c).
       collect_garbage (result, c)))"

end
