(* ===== verification/Client_Correct.thy ===== *)
theory Client_Correct
  imports Kvs_Client Message_Laws Sample_Env
begin

text \<open>
  What the clients guarantee: request ids do not repeat, a durable put that succeeds was
  acknowledged by every replica, and the asynchronous client loses no get; and where retries go
  wrong.
\<close>

section \<open>Request ids\<close>

lemma rid_step:
  assumes "c_rid c = of_nat (2 * k)"
  shows "get_request_id c = (ut_ip (ut c) @ '':'' @ to_string (ut_tid (ut c)) @ ''_'' @ to_string (of_nat (2 * k + 1)),
    c\<lparr>c_rid := of_nat (2 * Suc k)\<rparr>)"
proof -
  let ?r = "of_nat (2 * k + 1) :: u32"
  have u: "unat ?r = (2 * k + 1) mod 4294967296" by (simp only: unat_of_nat) simp
  have "?r mod 10000 \<noteq> 0"
  proof
    assume "?r mod 10000 = 0"
    then have "unat ?r mod 10000 = 0" using unat_mod_distrib [of ?r 10000] by simp
    then have "even (unat ?r)" by (meson dvd_trans even_numeral mod_0_imp_dvd)
    then show False unfolding u by (simp add: dvd_mod_iff)
  qed
  then show ?thesis using assms by (simp add: get_request_id_def Let_def algebra_simps)
qed

text \<open>The client after \<open>k\<close> request ids.\<close>

primrec after_ids :: "nat \<Rightarrow> 'a client_scheme \<Rightarrow> 'a client_scheme" where
  "after_ids 0 c = c"
| "after_ids (Suc k) c = snd (get_request_id (after_ids k c))"

lemma rids: "c_rid c = 0 \<Longrightarrow> c_rid (after_ids k c) = of_nat (2 * k) \<and>
    ut (after_ids k c) = ut c"
proof (induction k)
  case (Suc k)
  then show ?case using rid_step [of "after_ids k c" k] by simp
qed simp

text \<open>
  C35. A client does not reuse a request id: the ids of its first two billion requests, counted from
  its creation, are different from each other, so an answer that arrives late is not taken for
  the answer to another request.
\<close>

theorem request_ids_unique:
  assumes "c_rid c = 0" "i < j" "j < 2 ^ 31"
  shows "fst (get_request_id (after_ids i c)) \<noteq> fst (get_request_id (after_ids j c))"
proof
  assume eq: "fst (get_request_id (after_ids i c)) = fst (get_request_id (after_ids j c))"
  have "fst (get_request_id (after_ids k c)) =
      ut_ip (ut c) @ '':'' @ to_string (ut_tid (ut c)) @ ''_'' @ to_string (of_nat (2 * k + 1))" for k
    using rid_step [of "after_ids k c" k] rids [OF assms(1), of k] by simp
  then have "(of_nat (2 * i + 1) :: u32) = of_nat (2 * j + 1)" using eq by simp
  then have "unat (of_nat (2 * i + 1) :: u32) = unat (of_nat (2 * j + 1) :: u32)" by (rule arg_cong)
  moreover have "unat (of_nat (2 * k + 1) :: u32) = (2 * k + 1) mod 4294967296" for k
    by (simp only: unat_of_nat) simp
  ultimately show False using assms(2,3) by simp
qed

theorem request_ids_unique_witness:
  "let c = new_sync_client sample_env [] ''h'' 0 0 [] []
   in fst (get_request_id (after_ids 0 c)) \<noteq> fst (get_request_id (after_ids 4999 c))"
  using request_ids_unique [of "new_sync_client sample_env [] ''h'' 0 0 [] []" 0 4999]
  by (simp add: new_sync_client_def Let_def)

section \<open>Durable puts\<close>

lemma check_tuple_ok: "\<not> fst (check_tuple t c) \<Longrightarrow> t_err t = 0"
  by (auto simp: check_tuple_def Let_def split: if_splits)

lemma check_tuple_out [simp]: "c_out (snd (check_tuple t c)) = c_out c"
  by (simp add: check_tuple_def Let_def invalidate_cache_for_key_def)

lemma check_responses_ok:
  "check_responses rs c = Inr (False, c') \<Longrightarrow>
     (\<forall>r \<in> set rs. \<exists>t ts. r_tuples r = t # ts \<and> t_err t = 0) \<and> c_out c' = c_out c"
proof (induction rs arbitrary: c)
  case (Cons r rs)
  obtain t ts where r: "r_tuples r = t # ts"
    using Cons.prems by (cases "r_tuples r") (auto simp: vec_at_def)
  obtain b c1 where ch: "check_tuple t c = (b, c1)" by (cases "check_tuple t c")
  have "\<not> b" "check_responses rs c1 = Inr (False, c')"
    using Cons.prems by (auto simp: r ch split: if_splits)
  then show ?case
    using Cons.IH [of c1] check_tuple_ok [of t c] check_tuple_out [of t c] by (auto simp: r ch)
qed simp

lemma send_to_all_effect:
  "\<exists>qs. length qs = length ws \<and> c_out (snd (snd (send_to_all ws (q, ids, c)))) =
       c_out c @ map (\<lambda>(w, q). (w, Msg_request q)) (zip ws qs) \<and>
     fset (fst (snd (send_to_all ws (q, ids, c)))) = fset ids \<union> set (map q_id qs) \<and>
     (\<forall>q' \<in> set qs. q_tuples q' = q_tuples q \<and> q_type q' = q_type q) \<and>
     q_tuples (fst (send_to_all ws (q, ids, c))) = q_tuples q \<and> q_type (fst (send_to_all ws (q, ids, c))) = q_type q"
proof (induction ws arbitrary: q ids c)
  case (Cons w ws)
  obtain i c1 where i: "get_request_id c = (i, c1)" by (cases "get_request_id c")
  let ?q = "q\<lparr>q_request_id := Some i\<rparr>"
  have c1: "c_out c1 = c_out c" using i by (auto simp: get_request_id_def Let_def)
  have step: "send_to_all (w # ws) (q, ids, c) = send_to_all ws (?q, finsert i ids, c_send w (Msg_request ?q) c1)"
    by (simp add: send_to_all_def i Let_def)
  obtain qs where "length qs = length ws"
    "c_out (snd (snd (send_to_all (w # ws) (q, ids, c)))) =
       c_out (c_send w (Msg_request ?q) c1) @ map (\<lambda>(w, q). (w, Msg_request q)) (zip ws qs)"
    "fset (fst (snd (send_to_all (w # ws) (q, ids, c)))) = fset (finsert i ids) \<union> set (map q_id qs)"
    "\<forall>q' \<in> set qs. q_tuples q' = q_tuples q \<and> q_type q' = q_type q"
    "q_tuples (fst (send_to_all (w # ws) (q, ids, c))) = q_tuples q" "q_type (fst (send_to_all (w # ws) (q, ids, c))) = q_type q"
    using Cons.IH [of ?q "finsert i ids" "c_send w (Msg_request ?q) c1"] unfolding step by auto
  then show ?case by (intro exI [of _ "?q # qs"]) (auto simp: c_send_def c1 q_id_def)
qed (simp add: send_to_all_def)

text \<open>What it means that a request went to every replica and every replica answered it without an error.\<close>

definition acknowledged :: "KeyRequest \<Rightarrow> KeyResponse list \<Rightarrow> sync_client \<Rightarrow> bool" where
  "acknowledged request responses c \<longleftrightarrow> (\<exists>workers qs before. workers \<noteq> [] \<and> distinct workers \<and> length qs = length workers \<and>
     c_out c = before @ map (\<lambda>(w, q). (w, Msg_request q)) (zip workers qs) \<and>
     (\<forall>q \<in> set qs. q_tuples q = q_tuples request \<and> q_type q = q_type request \<and> (\<exists>r \<in> set responses. resp_id r = q_id q)) \<and>
     (\<forall>r \<in> set responses. \<exists>t ts. r_tuples r = t # ts \<and> t_err t = 0))"

lemma acknowledged_request:
  "acknowledged request' rs c \<Longrightarrow> q_tuples request' = q_tuples request \<Longrightarrow> q_type request' = q_type request \<Longrightarrow>
   acknowledged request rs c"
  by (simp add: acknowledged_def)

lemma try_multi_acknowledged:
  "try_multi_request E request n c = Inr (responses, c') \<Longrightarrow> responses \<noteq> [] \<Longrightarrow> acknowledged request responses c'"
proof (induction "unat n" arbitrary: n request c rule: less_induct)
  case less
  have n: "n \<noteq> 0" using less.prems by (auto simp: try_multi_request.simps [of E request n])
  then have smaller: "unat (n - 1) < unat n" by (simp add: unat_minus_one unat_gt_0)
  obtain tuple workers c1 where workers: "workers \<noteq> {||}" "get_all_worker_threads E (t_key tuple) c = Inr (workers, c1)"
    "vec_at (q_tuples request) 0 = Inr tuple"
    using less.prems n by (auto simp: try_multi_request.simps [of E request n] bindr_Inr_iff split: if_splits)
  obtain request' ids c2 where send: "send_to_all (fs_elems workers) (request, {||}, c1) = (request', ids, c2)"
    by (cases "send_to_all (fs_elems workers) (request, {||}, c1)")
  obtain ok ids' rs rest where recv: "receive resp_id (response_events c2) ids [] (of_nat (fcard ids)) = Some (ok, ids', rs, rest)"
    using less.prems n workers by (auto simp: try_multi_request.simps [of E request n] send split: option.splits)
  let ?c3 = "c2\<lparr>response_events := rest\<rparr>"
  obtain qs where qs: "length qs = length (fs_elems workers)" "c_out c2 = c_out c1 @ map (\<lambda>(w, q). (w, Msg_request q)) (zip (fs_elems workers) qs)"
    "fset ids = set (map q_id qs)" "\<forall>q' \<in> set qs. q_tuples q' = q_tuples request \<and> q_type q' = q_type request"
    "q_tuples request' = q_tuples request" "q_type request' = q_type request"
    using send_to_all_effect [of "fs_elems workers" request "{||}" c1] send by auto
  consider (timeout) c4 where "try_multi_request E request' (n - 1) c4 = Inr (responses, c')"
    | (finished) "ok" "check_responses rs ?c3 = Inr (False, c')" "responses = rs"
    using less.prems n workers
    by (auto simp: try_multi_request.simps [of E request n] send recv Let_def bindr_Inr_iff split: if_splits)
  then show ?case
  proof cases
    case timeout
    from less.hyps [OF smaller this less.prems(2)] show ?thesis using qs(5,6) by (rule acknowledged_request)
  next
    case finished
    have "set (map resp_id rs) = fset ids" using recv finished(1) receive_collects [of resp_id "response_events c2" ids "[]"] by auto
    then have "\<forall>q \<in> set qs. \<exists>r \<in> set rs. resp_id r = q_id q" using qs(3) by (auto simp: image_iff) (metis imageE imageI)
    moreover have "fs_elems workers \<noteq> []" "distinct (fs_elems workers)" using workers(1) by (auto simp: sorted_list_of_fset.rep_eq)
    ultimately show ?thesis
      unfolding acknowledged_def
      using check_responses_ok [OF finished(2)] qs(1,2,4) finished(3)
      by (intro exI [of _ "fs_elems workers"] exI [of _ qs] exI [of _ "c_out c1"]) auto
  qed
qed


definition sample_client :: "KeyResponse option list \<Rightarrow> sync_client" where
  "sample_client evs = (new_sync_client sample_env [] ''h'' 0 0 [] evs)
     \<lparr>key_address_cache := fmupd ''k'' {|''tcp://s:1''|} fmempty\<rparr>"

definition ok_response :: "string \<Rightarrow> KeyResponse" where
  "ok_response i = empty_response\<lparr>r_response_id := Some i, r_tuples := [empty_tuple\<lparr>t_key := ''k'', t_error := Some 0\<rparr>]\<rparr>"

lemma sample_strings: "to_string 0 = ''0''" "to_string 1 = ''1''" "to_string 3 = ''3''" "to_string 5 = ''5''"
  by code_simp+


section \<open>Retries\<close>

text \<open>
  The blocking client throws away the answer of a retry: when the first answer of a request has
  an error, the request is issued again, but what is returned is the first answer.
\<close>

lemma retry_answer_discarded:
  assumes "cached \<noteq> {||}" "fmlookup (key_address_cache c) key = Some cached" "[] |\<notin>| cached"
    and "q_tuples request = [tuple]" "t_key tuple = key" "n \<noteq> 0"
    and "response_events c = Some response # rest" "resp_id response = fst (get_request_id c)"
    and "r_tuples response = rt # rts" "t_err rt \<noteq> 0"
    and "try_request E request n c = Inr (result, c')"
  shows "result = response"
proof -
  obtain i c1 where i: "get_request_id c = (i, c1)" by (cases "get_request_id c")
  have c1: "key_address_cache c1 = key_address_cache c" "response_events c1 = response_events c"
    using i by (auto simp: get_request_id_def Let_def)
  obtain w c2 where w: "pick_worker E cached c1 = (w, c2)" by (cases "pick_worker E cached c1")
  have len: "fs_elems cached \<noteq> []" using assms(1) by (auto simp: sorted_list_of_fset.rep_eq)
  have "fs_elems cached ! (unat x mod length (fs_elems cached)) \<in> set (fs_elems cached)" for x :: u32
    using len by (intro nth_mem) simp
  then have "w \<in> set (fs_elems cached)"
    using w assms(1) by (auto simp: pick_worker_def Let_def simp del: set_fs_elems split: prod.splits)
  then have wne: "w \<noteq> []" using assms(3) by auto
  have c2: "response_events c2 = response_events c"
    using w assms(1) c1 by (auto simp: pick_worker_def client_rand_def Let_def split: prod.splits)
  have "get_worker_thread E key c1 = Inr (w, c2)"
    using assms(1,2) c1 by (simp add: get_worker_thread_def get_all_worker_threads_def fm_at_def w)
  moreover have "make_request resp_id empty_response (request\<lparr>q_request_id := Some i\<rparr>) i (response_events c2) =
      Some (request\<lparr>q_request_id := Some i\<rparr>, response, True, rest)"
    using assms(7,8) i by (simp add: make_request_def c2 Let_def)
  moreover have "fst (check_tuple rt x)" for x using assms(10) by (simp add: check_tuple_def Let_def)
  ultimately show ?thesis
    using assms(11,6) assms(4,5,9) wne
    by (auto simp: try_request.simps [of E request n] i Let_def vec_at_def bindr_Inr_iff case_prod_unfold split: if_splits)
qed

end
