(* ===== verification/Async_Interface.thy ===== *)
theory Async_Interface
  imports Kvs_Client
begin

text \<open>
  The contract of the abstract class \<open>KvsAsyncClientInterface\<close> (include/kvs\_async\_client.hpp), which the
  caches rely on: a get that was issued is waited for until a response for its key is handed out.
\<close>

definition answered :: "Key \<Rightarrow> KeyResponse list \<Rightarrow> bool" where
  "answered key result \<longleftrightarrow> (\<exists>r t ts. r \<in> set result \<and> r_type r = GET \<and> r_tuples r = t # ts \<and> t_key t = key)"

lemma answered_mono: "answered key result \<Longrightarrow> set result \<subseteq> set result' \<Longrightarrow> answered key result'"
  by (auto simp: answered_def)

text \<open>The calls a user makes; a receive takes what the sockets have and hands out responses.\<close>

datatype 'i async_call = Call_put Key string LatticeType | Call_get Key | Call_receive 'i

fun do_call ::
  "(Key \<Rightarrow> 'c \<Rightarrow> fault + 'c) \<Rightarrow> (Key \<Rightarrow> string \<Rightarrow> LatticeType \<Rightarrow> 'c \<Rightarrow> fault + (string \<times> 'c)) \<Rightarrow>
   ('i \<Rightarrow> 'c \<Rightarrow> fault + (KeyResponse list \<times> 'c)) \<Rightarrow> 'i async_call \<Rightarrow> KeyResponse list \<times> 'c \<Rightarrow> fault + (KeyResponse list \<times> 'c)"
where
  "do_call get put recv (Call_put key payload t) (rs, c) = bindr (put key payload t c) (\<lambda>(_, c). Inr (rs, c))"
| "do_call get put recv (Call_get key) (rs, c) = bindr (get key c) (\<lambda>c. Inr (rs, c))"
| "do_call get put recv (Call_receive i) (rs, c) = bindr (recv i c) (\<lambda>(result, c). Inr (rs @ result, c))"

locale async_contract =
  fixes ok :: "'c \<Rightarrow> bool" and waits :: "Key \<Rightarrow> 'c \<Rightarrow> bool"
    and get :: "Key \<Rightarrow> 'c \<Rightarrow> fault + 'c"
    and put :: "Key \<Rightarrow> string \<Rightarrow> LatticeType \<Rightarrow> 'c \<Rightarrow> fault + (string \<times> 'c)"
    and recv :: "'i \<Rightarrow> 'c \<Rightarrow> fault + (KeyResponse list \<times> 'c)"
  assumes get_waits: "get key c = Inr c' \<Longrightarrow> ok c \<Longrightarrow> ok c' \<and> waits key c' \<and> (waits k c \<longrightarrow> waits k c')"
    and put_waits: "put key payload t c = Inr (rid, c') \<Longrightarrow> ok c \<Longrightarrow> ok c' \<and> (waits k c \<longrightarrow> waits k c')"
    and receive_waits: "recv i c = Inr (rs, c') \<Longrightarrow> ok c \<Longrightarrow> ok c' \<and> (waits k c \<longrightarrow> waits k c' \<or> answered k rs)"
begin

lemma call_keeps:
  assumes "do_call get put recv call (rs, c) = Inr (rs', c')" "ok c"
  shows "ok c' \<and> (waits k c \<or> answered k rs \<longrightarrow> waits k c' \<or> answered k rs')"
proof (cases call)
  case (Call_receive i)
  then obtain result where "recv i c = Inr (result, c')" "rs' = rs @ result"
    using assms(1) by (auto simp: bindr_Inr_iff)
  then show ?thesis
    using receive_waits [of i c result c' k] assms(2) by (auto intro: answered_mono)
qed (use assms put_waits get_waits in \<open>auto simp: bindr_Inr_iff\<close>)

lemma calls_keep:
  assumes "for_each (do_call get put recv) calls (rs, c) = Inr (rs', c')" "ok c"
  shows "ok c' \<and> (waits k c \<or> answered k rs \<longrightarrow> waits k c' \<or> answered k rs')"
  using for_each_invariant [OF assms(1), where P = "\<lambda>(rs1, c1). ok c1 \<and>
      (waits k c \<or> answered k rs \<longrightarrow> waits k c1 \<or> answered k rs1)"] assms(2)
  by (auto dest: call_keeps)

lemma get_never_lost:
  assumes "for_each (do_call get put recv) (before @ Call_get key # after) ([], c) = Inr (rs, c')" "ok c"
  shows "waits key c' \<or> answered key rs"
proof -
  obtain rs1 c1 c2 where 1: "for_each (do_call get put recv) before ([], c) = Inr (rs1, c1)"
    and 2: "get key c1 = Inr c2" and 3: "for_each (do_call get put recv) after (rs1, c2) = Inr (rs, c')"
    using assms(1) by (auto simp: for_each_append bindr_Inr_iff)
  have "ok c1" using calls_keep [OF 1 assms(2)] by simp
  then show ?thesis using get_waits [OF 2] calls_keep [OF 3, of key] by simp
qed

end

end
