(* ===== verification/Async_Correct.thy ===== *)
theory Async_Correct
  imports Async_Interface Sample_Env
begin

text \<open>
  The asynchronous client loses no get: once issued, a get is outstanding until the client hands out
  a response for it, be it the server's or one that reports a timeout.
\<close>

section \<open>Well-formed pending requests\<close>

definition for_key :: "Key \<Rightarrow> KeyRequest \<Rightarrow> bool" where
  "for_key key q \<longleftrightarrow> map t_key (q_tuples q) = [key]"

definition async_ok :: "async_client \<Rightarrow> bool" where
  "async_ok c \<longleftrightarrow>
     (\<forall>key tp reqs. fmlookup (pending_request_map c) key = Some (tp, reqs) \<longrightarrow> list_all (for_key key) reqs) \<and>
     (\<forall>key p. fmlookup (pending_get_response_map c) key = Some p \<longrightarrow>
        for_key key (ap_request p) \<and> q_type (ap_request p) = GET) \<and>
     (\<forall>key m i p. fmlookup (pending_put_response_map c) key = Some m \<longrightarrow> fmlookup m i = Some p \<longrightarrow>
        for_key key (ap_request p) \<and> q_type (ap_request p) = PUT)"

definition waits_get :: "Key \<Rightarrow> async_client \<Rightarrow> bool" where
  "waits_get key c \<longleftrightarrow> (\<exists>tp reqs. fmlookup (pending_request_map c) key = Some (tp, reqs) \<and> list_ex (\<lambda>q. q_type q = GET) reqs)"

definition outstanding :: "Key \<Rightarrow> async_client \<Rightarrow> bool" where
  "outstanding key c \<longleftrightarrow> fm_contains (pending_get_response_map c) key \<or> waits_get key c"

text \<open>The parts of the client that the invariant looks at.\<close>

definition pendings :: "async_client \<Rightarrow> (Key, int \<times> KeyRequest list) fmap \<times> (Key, AsyncPending) fmap \<times>
    (Key, (string, AsyncPending) fmap) fmap" where
  "pendings c = (pending_request_map c, pending_get_response_map c, pending_put_response_map c)"

lemma pendings_cong:
  assumes "pendings c' = pendings c"
  shows "async_ok c' = async_ok c" "outstanding key c' = outstanding key c" "pending_request_map c' = pending_request_map c"
    "pending_get_response_map c' = pending_get_response_map c" "pending_put_response_map c' = pending_put_response_map c"
  using assms by (simp_all add: pendings_def async_ok_def outstanding_def waits_get_def)

lemma pendings_simps [simp]:
  "pendings (snd (get_request_id c)) = pendings c" "pendings (snd (client_rand E c)) = pendings c"
  "pendings (c_send a m c) = pendings c" "pendings (snd (a_now c)) = pendings c"
  "pendings (c\<lparr>key_address_cache := ca\<rparr>) = pendings c" "pendings (invalidate_cache_for_key k t c) = pendings c"
  "pendings (snd (pick_worker E s c)) = pendings c" "pendings (snd (async_check_tuple t c)) = pendings c"
  "pendings (snd (timed_out tp c)) = pendings c"
  by (simp_all add: pendings_def get_request_id_def client_rand_def c_send_def a_now_def invalidate_cache_for_key_def
      pick_worker_def async_check_tuple_def timed_out_def Let_def split: prod.splits)

lemma pendings_routing: "get_routing_thread E c = Inr (a, c') \<Longrightarrow> pendings c' = pendings c"
  by (auto simp: get_routing_thread_def case_prod_unfold Let_def split: if_splits)

lemma pendings_query: "query_routing_async E key c = Inr c' \<Longrightarrow> pendings c' = pendings c"
  by (auto simp: query_routing_async_def case_prod_unfold Let_def bindr_Inr_iff dest!: pendings_routing)

lemma pendings_worker: "async_worker_thread E key c = Inr (w, c') \<Longrightarrow> pendings c' = pendings c"
proof -
  assume "async_worker_thread E key c = Inr (w, c')"
  then obtain lc c1 where "async_worker_threads E key c = Inr (lc, c1)" "pick_worker E lc c1 = (w, c')"
    by (auto simp: async_worker_thread_def bindr_Inr_iff)
  then show ?thesis
    using pendings_simps(7) [of E lc c1]
    by (auto simp: async_worker_threads_def bindr_Inr_iff split: if_splits dest!: pendings_query)
qed

lemma pendings_invalidate: "invalidate_cache_for_worker w c = Inr c' \<Longrightarrow> pendings c' = pendings c"
  by (auto simp: invalidate_cache_for_worker_def bindr_Inr_iff)

section \<open>Issuing a request\<close>

lemma remember_get_effect:
  assumes "async_ok c" "for_key key request" "q_type request = GET"
  shows "async_ok (remember_get key w request c)" "outstanding key (remember_get key w request c)"
    "outstanding k c \<Longrightarrow> outstanding k (remember_get key w request c)"
    "fm_contains (pending_get_response_map (remember_get key w request c)) key"
    "pending_request_map (remember_get key w request c) = pending_request_map c"
    "fm_contains (pending_get_response_map c) k \<Longrightarrow> fm_contains (pending_get_response_map (remember_get key w request c)) k"
proof -
  define c1 where "c1 = (if fm_contains (pending_get_response_map c) key then c
     else (snd (a_now c))\<lparr>pending_get_response_map := fmupd key
        \<lparr>ap_tp = fst (a_now c), ap_worker_addr = [], ap_request = request\<rparr> (pending_get_response_map (snd (a_now c)))\<rparr>)"
  have r: "remember_get key w request c = c1\<lparr>pending_get_response_map :=
      fmmap_keys (\<lambda>k p. if k = key then p\<lparr>ap_worker_addr := w\<rparr> else p) (pending_get_response_map c1)\<rparr>"
    by (simp add: remember_get_def c1_def Let_def case_prod_unfold)
  have pm: "pending_request_map c1 = pending_request_map c" "pending_put_response_map c1 = pending_put_response_map c"
    "\<And>k. fmlookup (pending_get_response_map c1) k = (if k = key \<and> fmlookup (pending_get_response_map c) k = None
      then Some \<lparr>ap_tp = fst (a_now c), ap_worker_addr = [], ap_request = request\<rparr> else fmlookup (pending_get_response_map c) k)"
    by (auto simp: c1_def a_now_def)
  show "pending_request_map (remember_get key w request c) = pending_request_map c" by (simp add: r pm)
  show "async_ok (remember_get key w request c)"
    using assms pm by (auto simp: async_ok_def r fmlookup_fmmap_keys split: if_splits)
  show "fm_contains (pending_get_response_map (remember_get key w request c)) key"
    "fm_contains (pending_get_response_map c) k \<Longrightarrow> fm_contains (pending_get_response_map (remember_get key w request c)) k"
    using pm by (auto simp: r)
  then show "outstanding key (remember_get key w request c)"
    "outstanding k c \<Longrightarrow> outstanding k (remember_get key w request c)"
    using pm by (auto simp: outstanding_def waits_get_def r split: if_splits)
qed

lemma remember_put_effect:
  assumes "async_ok c" "for_key key request" "q_type request = PUT"
  shows "async_ok (remember_put key w request c)"
    "pending_request_map (remember_put key w request c) = pending_request_map c"
    "pending_get_response_map (remember_put key w request c) = pending_get_response_map c"
proof -
  define m where "m = fm_at fmempty (pending_put_response_map c) key"
  define m1 where "m1 = (if fm_contains m (q_id request) then m
    else fmupd (q_id request) \<lparr>ap_tp = fst (a_now c), ap_worker_addr = [], ap_request = request\<rparr> m)"
  define c1 where "c1 = (if fm_contains m (q_id request) then c else snd (a_now c))"
  have r: "remember_put key w request c = c1\<lparr>pending_put_response_map := fmupd key
      (fmmap_keys (\<lambda>k p. if k = q_id request then p\<lparr>ap_worker_addr := w\<rparr> else p) m1) (pending_put_response_map c1)\<rparr>"
    by (simp add: remember_put_def m_def m1_def c1_def Let_def case_prod_unfold)
  have c1: "pending_request_map c1 = pending_request_map c" "pending_get_response_map c1 = pending_get_response_map c"
    "pending_put_response_map c1 = pending_put_response_map c"
    by (simp_all add: c1_def a_now_def)
  show "pending_request_map (remember_put key w request c) = pending_request_map c"
    "pending_get_response_map (remember_put key w request c) = pending_get_response_map c"
    by (simp_all add: r c1)
  have m: "for_key key (ap_request p) \<and> q_type (ap_request p) = PUT" if "fmlookup m1 i = Some p" for i p
    using that assms by (auto simp: m1_def m_def fm_at_def async_ok_def split: if_splits option.splits)
  show "async_ok (remember_put key w request c)"
    using assms(1) m by (auto simp: async_ok_def r c1 split: if_splits)
qed

lemma async_try_effect:
  assumes "async_try_request E request c = Inr (sent, request', c')" "async_ok c" "for_key key request"
  shows "async_ok c'" "outstanding k c \<Longrightarrow> outstanding k c'" "q_type request = GET \<Longrightarrow> outstanding key c'"
    "for_key key request'" "q_type request' = q_type request"
    "fm_contains (pending_get_response_map c) k \<Longrightarrow> fm_contains (pending_get_response_map c') k"
    "sent \<Longrightarrow> q_type request = GET \<Longrightarrow> fm_contains (pending_get_response_map c') key"
    "sent \<Longrightarrow> pending_request_map c' = pending_request_map c"
proof -
  obtain tuple w c1 where tuple: "vec_at (q_tuples request) 0 = Inr tuple" and w: "async_worker_thread E (t_key tuple) c = Inr (w, c1)"
    using assms(1) by (auto simp: async_try_request_def Let_def bindr_Inr_iff)
  have key: "t_key tuple = key" "q_tuples request = [tuple]"
    using tuple assms(3) by (auto simp: for_key_def vec_at_def split: if_splits)
  have c1: "async_ok c1" "\<And>k. outstanding k c1 = outstanding k c" "pending_request_map c1 = pending_request_map c"
    "pending_get_response_map c1 = pending_get_response_map c"
    using pendings_cong [OF pendings_worker [OF w]] assms(2) by simp_all
  define rq where "rq = request\<lparr>q_tuples := (q_tuples request)[0 := tuple\<lparr>t_address_cache_size :=
    Some (of_nat (fcard (fm_at {||} (key_address_cache c1) key)))\<rparr>]\<rparr>"
  define c2 where "c2 = c_send w (Msg_request rq) c1"
  have rq: "for_key key rq" "q_type rq = q_type request" using key by (simp_all add: rq_def for_key_def)
  have c2: "async_ok c2" "\<And>k. outstanding k c2 = outstanding k c" "pending_request_map c2 = pending_request_map c"
    "pending_get_response_map c2 = pending_get_response_map c"
    using c1 pendings_cong [of c2 c1] by (simp_all add: c2_def)
  consider (wait) c3 t where "w = []" "\<not> sent" "request' = request" "pendings c3 = pendings c1"
      "c' = c3\<lparr>pending_request_map := fm_modify (t, []) key (\<lambda>(tp, reqs). (tp, reqs @ [request])) (pending_request_map c3)\<rparr>"
    | (get) "sent" "request' = rq" "q_type request = GET" "c' = remember_get key w rq c2"
    | (put) "sent" "request' = rq" "q_type request = PUT" "c' = remember_put key w rq c2"
  proof (cases "w = []")
    case True
    let ?p = "if fm_contains (pending_request_map c1) key then (0, c1) else a_now c1"
    show thesis
      by (rule wait [of "snd ?p" "fst ?p"])
        (use assms(1) tuple w key True in \<open>auto simp: async_try_request_def Let_def case_prod_unfold\<close>)
  next
    case False
    then show thesis
      using assms(1) tuple w key get put
      by (cases "q_type request") (auto simp: async_try_request_def Let_def rq_def c2_def)
  qed
  note cases = this
  have wait: "async_ok c' \<and> (outstanding k c \<longrightarrow> outstanding k c') \<and> (q_type request = GET \<longrightarrow> outstanding key c') \<and>
      pending_get_response_map c' = pending_get_response_map c"
    if "pendings c3 = pendings c1"
      "c' = c3\<lparr>pending_request_map := fm_modify (t, []) key (\<lambda>(tp, reqs). (tp, reqs @ [request])) (pending_request_map c3)\<rparr>" for c3 t
  proof -
    have c3: "pending_request_map c3 = pending_request_map c" "pending_get_response_map c3 = pending_get_response_map c" "async_ok c3"
      using pendings_cong [OF that(1)] c1 by simp_all
    then show ?thesis
      using assms(3) that(2)
      by (auto simp: async_ok_def outstanding_def waits_get_def fm_at_def split: option.splits if_splits)
  qed
  have "async_ok c' \<and> (outstanding k c \<longrightarrow> outstanding k c') \<and> (q_type request = GET \<longrightarrow> outstanding key c') \<and>
      for_key key request' \<and> q_type request' = q_type request \<and>
      (fm_contains (pending_get_response_map c) k \<longrightarrow> fm_contains (pending_get_response_map c') k) \<and>
      (sent \<longrightarrow> q_type request = GET \<longrightarrow> fm_contains (pending_get_response_map c') key) \<and>
      (sent \<longrightarrow> pending_request_map c' = pending_request_map c)"
  proof (rule cases)
    fix c3 t
    assume h: "\<not> sent" "request' = request" "pendings c3 = pendings c1"
      "c' = c3\<lparr>pending_request_map := fm_modify (t, []) key (\<lambda>(tp, reqs). (tp, reqs @ [request])) (pending_request_map c3)\<rparr>"
    show ?thesis using wait [OF h(3,4)] h(1,2) assms(3) by simp
  next
    assume h: "sent" "request' = rq" "q_type request = GET" "c' = remember_get key w rq c2"
    have g: "q_type rq = GET" using rq(2) h(3) by simp
    show ?thesis
      using remember_get_effect(1,2,4,5) [OF c2(1) rq(1) g, of w] remember_get_effect(3,6) [OF c2(1) rq(1) g, of k w] c2 rq
      unfolding h by simp
  next
    assume h: "sent" "request' = rq" "q_type request = PUT" "c' = remember_put key w rq c2"
    have g: "q_type rq = PUT" using rq(2) h(3) by simp
    have "outstanding k c' = outstanding k c"
      using remember_put_effect(2,3) [OF c2(1) rq(1) g, of w] c2(3,4) by (simp add: h(4) outstanding_def waits_get_def)
    then show ?thesis
      using remember_put_effect [OF c2(1) rq(1) g, of w] c2 rq h by simp
  qed
  then show "async_ok c'" "q_type request = GET \<Longrightarrow> outstanding key c'" "for_key key request'" "q_type request' = q_type request"
    "outstanding k c \<Longrightarrow> outstanding k c'"
    "fm_contains (pending_get_response_map c) k \<Longrightarrow> fm_contains (pending_get_response_map c') k"
    "sent \<Longrightarrow> q_type request = GET \<Longrightarrow> fm_contains (pending_get_response_map c') key"
    "sent \<Longrightarrow> pending_request_map c' = pending_request_map c"
    by blast+
qed

section \<open>Handling messages\<close>

lemma issue_all:
  assumes "for_each (\<lambda>req c. bindr (async_try_request E req c) (\<lambda>(sent, _, c).
      if sent then Inr c else Inl Invalid_iterator)) reqs c = Inr c'" "async_ok c" "list_all (for_key key) reqs"
  shows "async_ok c' \<and> pending_request_map c' = pending_request_map c \<and>
    (fm_contains (pending_get_response_map c) k \<longrightarrow> fm_contains (pending_get_response_map c') k) \<and>
    (list_ex (\<lambda>q. q_type q = GET) reqs \<longrightarrow> fm_contains (pending_get_response_map c') key)"
  using assms
proof (induction reqs arbitrary: c k)
  case (Cons q qs)
  obtain q' c1 where try_q: "async_try_request E q c = Inr (True, q', c1)" and
    rest: "for_each (\<lambda>req c. bindr (async_try_request E req c) (\<lambda>(sent, _, c).
      if sent then Inr c else Inl Invalid_iterator)) qs c1 = Inr c'"
    using Cons.prems(1) by (auto simp: bindr_Inr_iff split: if_splits)
  note e = async_try_effect [OF try_q Cons.prems(2), of key]
  show ?case
    using Cons.IH [OF rest, of k] Cons.IH [OF rest, of key] e Cons.prems(3) by auto
qed simp

lemma handle_address_effect:
  assumes "handle_address E r c = Inr c'" "async_ok c"
  shows "async_ok c' \<and> (outstanding k c \<longrightarrow> outstanding k c')"
proof -
  obtain address where address: "vec_at (ar_addresses r) 0 = Inr address" using assms(1) by (auto simp: handle_address_def bindr_Inr_iff)
  let ?key = "ka_key address"
  show ?thesis
  proof (cases "fmlookup (pending_request_map c) ?key")
    case None
    then show ?thesis using assms by (simp add: handle_address_def address Let_def)
  next
    case (Some w)
    obtain tp reqs where w: "w = (tp, reqs)" by (cases w)
    have reqs: "list_all (for_key ?key) reqs" using assms(2) Some w by (auto simp: async_ok_def)
    show ?thesis
    proof (cases "ar_error r = 1")
      case True
      let ?c = "(snd (a_now c))\<lparr>pending_request_map := fmupd ?key (fst (a_now c), reqs) (pending_request_map (snd (a_now c)))\<rparr>"
      have "query_routing_async E ?key ?c = Inr c'"
        using assms(1) Some w True by (simp add: handle_address_def address Let_def case_prod_unfold)
      from pendings_cong [OF pendings_query [OF this]] show ?thesis
        using assms(2) Some w reqs
        by (auto simp: async_ok_def outstanding_def waits_get_def a_now_def split: if_splits)
    next
      case False
      define c1 where "c1 = (if ka_ips address = [] then c
        else c\<lparr>key_address_cache := fm_modify {||} ?key (fold finsert (ka_ips address)) (key_address_cache c)\<rparr>)"
      have c1: "pendings c1 = pendings c" by (simp add: c1_def)
      obtain c2 where loop: "for_each (\<lambda>req c. bindr (async_try_request E req c) (\<lambda>(sent, _, c).
          if sent then Inr c else Inl Invalid_iterator)) reqs c1 = Inr c2"
        and c': "c' = c2\<lparr>pending_request_map := fmdrop ?key (pending_request_map c2)\<rparr>"
        using assms(1) Some w False by (auto simp: handle_address_def address Let_def bindr_Inr_iff c1_def)
      have ok1: "async_ok c1" using pendings_cong(1) [OF c1] assms(2) by simp
      note e = issue_all [OF loop ok1 reqs]
      have "outstanding k c'" if "outstanding k c"
        using that e [of k] Some w pendings_cong [OF c1]
        by (cases "k = ?key") (auto simp: outstanding_def waits_get_def c')
      then show ?thesis using e by (auto simp: async_ok_def c' split: if_splits)
    qed
  qed
qed

lemma get_response_effect:
  assumes "handle_get_response E r tuple c = Inr (result, c')" "async_ok c" "r_tuples r = tuple # ts" "r_type r = GET"
  shows "async_ok c' \<and> (outstanding k c \<longrightarrow> outstanding k c' \<or> answered k result)"
proof (cases "fmlookup (pending_get_response_map c) (t_key tuple)")
  case None
  then show ?thesis using assms by (auto simp: handle_get_response_def Let_def)
next
  case (Some p)
  let ?key = "t_key tuple"
  obtain again c1 where ch: "async_check_tuple tuple c = (again, c1)" by (cases "async_check_tuple tuple c")
  have c1: "pendings c1 = pendings c" using pendings_simps(8) [of tuple c] ch by simp
  show ?thesis
  proof (cases again)
    case False
    then have "result = [r]" "c' = c1\<lparr>pending_get_response_map := fmdrop ?key (pending_get_response_map c1)\<rparr>"
      using assms(1) Some ch by (simp_all add: handle_get_response_def Let_def)
    then show ?thesis
      using assms(2-4) pendings_cong [OF c1]
      by (auto simp: async_ok_def outstanding_def waits_get_def answered_def split: if_splits)
  next
    case True
    define c2 where "c2 = (snd (a_now c1))\<lparr>pending_get_response_map :=
      fmupd ?key (p\<lparr>ap_tp := fst (a_now c1)\<rparr>) (pending_get_response_map (snd (a_now c1)))\<rparr>"
    have p: "for_key ?key (ap_request p)" "q_type (ap_request p) = GET" using assms(2) Some by (auto simp: async_ok_def)
    have ok2: "async_ok c2" and out2: "outstanding k c \<Longrightarrow> outstanding k c2"
      using assms(2) p pendings_cong [OF c1]
      by (auto simp: c2_def async_ok_def outstanding_def waits_get_def a_now_def split: if_splits)
    obtain sent q c3 where tr: "async_try_request E (ap_request p) c2 = Inr (sent, q, c3)" and "result = []"
      and c': "c' = c3\<lparr>pending_get_response_map := fmmap_keys (\<lambda>k x. if k = ?key then x\<lparr>ap_request := q\<rparr> else x) (pending_get_response_map c3)\<rparr>"
      using assms(1) Some ch True
      by (auto simp: handle_get_response_def Let_def a_now_def bindr_Inr_iff c2_def)
    note e = async_try_effect [OF tr ok2 p(1)]
    show ?thesis
      using e(1,4,5) e(2) [of k] out2 p(2)
      by (auto simp: c' async_ok_def outstanding_def waits_get_def split: if_splits)
  qed
qed

lemma put_response_effect:
  assumes "handle_put_response E r tuple c = Inr (result, c')" "async_ok c"
  shows "async_ok c' \<and> (outstanding k c \<longrightarrow> outstanding k c')"
proof -
  let ?key = "t_key tuple" and ?rid = "from_option [] (r_response_id r)"
  define m where "m = fm_at fmempty (pending_put_response_map c) ?key"
  have m: "for_key ?key (ap_request p) \<and> q_type (ap_request p) = PUT" if "fmlookup m i = Some p" for i p
    using that assms(2) by (auto simp: m_def fm_at_def async_ok_def split: option.splits)
  show ?thesis
  proof (cases "fmlookup m ?rid")
    case None
    then show ?thesis using assms by (auto simp: handle_put_response_def Let_def m_def)
  next
    case (Some p)
    obtain again c1 where ch: "async_check_tuple tuple c = (again, c1)" by (cases "async_check_tuple tuple c")
    have c1: "pendings c1 = pendings c" using pendings_simps(8) [of tuple c] ch by simp
    show ?thesis
    proof (cases again)
      case False
      then have "c' = c1\<lparr>pending_put_response_map := if fmdrop ?rid m = fmempty then fmdrop ?key (pending_put_response_map c1)
          else fmupd ?key (fmdrop ?rid m) (pending_put_response_map c1)\<rparr>"
        using assms(1) Some ch by (auto simp: handle_put_response_def Let_def m_def)
      then show ?thesis
        using assms(2) m pendings_cong [OF c1]
        by (auto simp: async_ok_def outstanding_def waits_get_def split: if_splits)
    next
      case True
      define c2 where "c2 = (snd (a_now c1))\<lparr>pending_put_response_map :=
        fmupd ?key (fmupd ?rid (p\<lparr>ap_tp := fst (a_now c1)\<rparr>) m) (pending_put_response_map (snd (a_now c1)))\<rparr>"
      have p: "for_key ?key (ap_request p)" "q_type (ap_request p) = PUT" using m Some by auto
      have ok2: "async_ok c2" and out2: "outstanding k c2 = outstanding k c"
        using assms(2) p m pendings_cong [OF c1]
        by (auto simp: c2_def async_ok_def outstanding_def waits_get_def a_now_def split: if_splits)
      obtain sent q c3 where tr: "async_try_request E (ap_request p) c2 = Inr (sent, q, c3)"
        and c': "c' = c3\<lparr>pending_put_response_map := fm_modify fmempty ?key
            (fmmap_keys (\<lambda>k x. if k = ?rid then x\<lparr>ap_request := q\<rparr> else x)) (pending_put_response_map c3)\<rparr>"
        using assms(1) Some ch True
        by (auto simp: handle_put_response_def Let_def a_now_def bindr_Inr_iff c2_def m_def)
      note e = async_try_effect [OF tr ok2 p(1)]
      have "for_key ?key (ap_request x) \<and> q_type (ap_request x) = PUT"
        if "fmlookup (fm_at fmempty (pending_put_response_map c3) ?key) i = Some x" for i x
        using that e(1) by (auto simp: fm_at_def async_ok_def split: option.splits)
      then show ?thesis
        using e(1,4,5) e(2) [of k] out2 p(2)
        by (auto simp: c' async_ok_def outstanding_def waits_get_def split: if_splits)
    qed
  qed
qed

lemma response_effect:
  assumes "handle_response E r c = Inr (result, c')" "async_ok c"
  shows "async_ok c' \<and> (outstanding k c \<longrightarrow> outstanding k c' \<or> answered k result)"
proof -
  obtain tuple ts where r: "r_tuples r = tuple # ts"
    using assms(1) by (cases "r_tuples r") (auto simp: handle_response_def vec_at_def)
  show ?thesis
    using assms get_response_effect [of E r tuple c result c' ts k] put_response_effect [of E r tuple c result c' k] r
    by (auto simp: handle_response_def split: if_splits)
qed

section \<open>Garbage collection\<close>

lemma bad_response_key:
  "generate_bad_response q = Inr r \<Longrightarrow> for_key key q \<Longrightarrow> q_type q = GET \<Longrightarrow> answered key [r]"
  by (auto simp: generate_bad_response_def vec_at_def for_key_def answered_def Let_def split: if_splits)

lemma bad_responses:
  assumes "for_each (\<lambda>req result. bindr (generate_bad_response req) (\<lambda>r. Inr (result @ [r]))) reqs result = Inr result'"
    and "list_all (for_key key) reqs"
  shows "set result \<subseteq> set result' \<and> (list_ex (\<lambda>q. q_type q = GET) reqs \<longrightarrow> answered key result')"
  using assms
proof (induction reqs arbitrary: result)
  case (Cons q qs)
  then obtain r where r: "generate_bad_response q = Inr r"
    and rest: "for_each (\<lambda>req result. bindr (generate_bad_response req) (\<lambda>r. Inr (result @ [r]))) qs (result @ [r]) = Inr result'"
    by (auto simp: bindr_Inr_iff)
  show ?case
    using Cons.IH [OF rest] Cons.prems(2) bad_response_key [OF r, of key] answered_mono [of key "[r]" result'] by auto
qed simp

lemma gc_address_effect:
  assumes "for_each gc_address (fm_entries (pending_request_map c)) ([], result, c) = Inr (gone, result', c')" "async_ok c"
  shows "pendings c' = pendings c \<and> set result \<subseteq> set result' \<and> (\<forall>key \<in> set gone. waits_get key c \<longrightarrow> answered key result')"
proof -
  let ?P = "\<lambda>(gone, result', c'). pendings c' = pendings c \<and> set result \<subseteq> set result' \<and>
    (\<forall>key \<in> set gone. waits_get key c \<longrightarrow> answered key result')"
  have step: "?P (gone2, result2, c2)" if mem: "(key, tp, reqs) \<in> set (fm_entries (pending_request_map c))"
    and P: "?P (gone1, result1, c1)"
    and step: "gc_address (key, tp, reqs) (gone1, result1, c1) = Inr (gone2, result2, c2)"
    for key tp reqs gone1 result1 c1 gone2 result2 c2
  proof -
  have look: "fmlookup (pending_request_map c) key = Some (tp, reqs)" using mem by (simp add: set_fm_entries)
  then have reqs: "list_all (for_key key) reqs" using assms(2) by (auto simp: async_ok_def)
  show ?thesis
  proof (cases "fst (timed_out tp c1)")
    case True
    then have "for_each (\<lambda>req result. bindr (generate_bad_response req) (\<lambda>r. Inr (result @ [r]))) reqs result1 = Inr result2"
      "gone2 = gone1 @ [key]" "c2 = snd (timed_out tp c1)"
      using step by (auto simp: gc_address_def Let_def case_prod_unfold bindr_Inr_iff)
    then show ?thesis
      using bad_responses [OF _ reqs, of result1 result2] P look
      by (auto simp: waits_get_def intro: answered_mono)
  next
    case False
    then show ?thesis using step P by (auto simp: gc_address_def Let_def case_prod_unfold)
  qed
  qed
  have "?P (gone, result', c')"
  proof (rule for_each_invariant [OF assms(1), where P = ?P])
    fix x s s'
    assume h: "x \<in> set (fm_entries (pending_request_map c))" "?P s" "gc_address x s = Inr s'"
    obtain key tp reqs where x: "x = (key, tp, reqs)" by (cases x)
    obtain g1 r1 c1 where s: "s = (g1, r1, c1)" by (cases s)
    obtain g2 r2 c2 where s': "s' = (g2, r2, c2)" by (cases s')
    show "?P s'" using step [of key tp reqs g1 r1 c1 g2 r2 c2] h unfolding x s s' by blast
  qed simp
  then show ?thesis by simp
qed

lemma gc_get_effect:
  assumes "for_each gc_get (fm_entries (pending_get_response_map c)) ([], result, c) = Inr (gone, result', c')" "async_ok c"
  shows "pendings c' = pendings c \<and> set result \<subseteq> set result' \<and> (\<forall>key \<in> set gone. answered key result')"
proof -
  let ?P = "\<lambda>(gone, result', c'). pendings c' = pendings c \<and> set result \<subseteq> set result' \<and> (\<forall>key \<in> set gone. answered key result')"
  have step: "?P (gone2, result2, c2)" if mem: "(key, p) \<in> set (fm_entries (pending_get_response_map c))"
    and P: "?P (gone1, result1, c1)"
    and step: "gc_get (key, p) (gone1, result1, c1) = Inr (gone2, result2, c2)"
    for key p gone1 result1 c1 gone2 result2 c2
  proof -
  have p: "for_key key (ap_request p)" "q_type (ap_request p) = GET"
    using mem assms(2) by (auto simp: async_ok_def set_fm_entries)
  show ?thesis
  proof (cases "fst (timed_out (ap_tp p) c1)")
    case True
    then obtain r where r: "generate_bad_response (ap_request p) = Inr r" "result2 = result1 @ [r]" "gone2 = gone1 @ [key]"
      "invalidate_cache_for_worker (ap_worker_addr p) (snd (timed_out (ap_tp p) c1)) = Inr c2"
      using step by (auto simp: gc_get_def Let_def case_prod_unfold bindr_Inr_iff)
    then show ?thesis
      using P bad_response_key [OF r(1) p] pendings_invalidate [OF r(4)] answered_mono [of _ _ result2] by auto
  next
    case False
    then show ?thesis using step P by (auto simp: gc_get_def Let_def case_prod_unfold)
  qed
  qed
  have "?P (gone, result', c')"
  proof (rule for_each_invariant [OF assms(1), where P = ?P])
    fix x s s'
    assume h: "x \<in> set (fm_entries (pending_get_response_map c))" "?P s" "gc_get x s = Inr s'"
    obtain key p where x: "x = (key, p)" by (cases x)
    obtain g1 r1 c1 where s: "s = (g1, r1, c1)" by (cases s)
    obtain g2 r2 c2 where s': "s' = (g2, r2, c2)" by (cases s')
    show "?P s'" using step [of key p g1 r1 c1 g2 r2 c2] h unfolding x s s' by blast
  qed simp
  then show ?thesis by simp
qed

lemma gc_put_effect:
  assumes "for_each gc_put xs ([], result, c) = Inr (gone, result', c')"
  shows "pendings c' = pendings c \<and> set result \<subseteq> set result'"
proof -
  have step: "pendings (snd (snd s')) = pendings (snd (snd s)) \<and> set (fst (snd s)) \<subseteq> set (fst (snd s'))"
    if "gc_put x s = Inr s'" for x s s'
    using that by (cases x; cases s)
      (auto simp: gc_put_def Let_def case_prod_unfold bindr_Inr_iff split: if_splits dest!: pendings_invalidate)
  show ?thesis
    using for_each_invariant [OF assms, where P = "\<lambda>s. pendings (snd (snd s)) = pendings c \<and> set result \<subseteq> set (fst (snd s))"] step
    by fastforce
qed

lemma fold_put_drop:
  assumes "fmlookup (fold (\<lambda>(key, rid). fm_modify fmempty key (fmdrop rid)) g M) key = Some m" "fmlookup m i = Some p"
  shows "\<exists>m0. fmlookup M key = Some m0 \<and> fmlookup m0 i = Some p"
  using assms
proof (induction g arbitrary: M)
  case (Cons a g)
  obtain key' rid where a: "a = (key', rid)" by (cases a)
  from Cons obtain m0 where "fmlookup (fm_modify fmempty key' (fmdrop rid) M) key = Some m0" "fmlookup m0 i = Some p"
    unfolding a by (simp only: fold_simps prod.case) blast
  then show ?case by (auto simp: fm_at_def split: if_splits option.splits)
qed simp

lemma collect_garbage_effect:
  assumes "collect_garbage (result, c) = Inr (result', c')" "async_ok c"
  shows "async_ok c' \<and> set result \<subseteq> set result' \<and> (outstanding k c \<longrightarrow> outstanding k c' \<or> answered k result')"
proof -
  obtain g1 r1 c1 g2 r2 c3 g3 c5 where
    1: "for_each gc_address (fm_entries (pending_request_map c)) ([], result, c) = Inr (g1, r1, c1)" and
    2: "for_each gc_get (fm_entries (pending_get_response_map (c1\<lparr>pending_request_map := fold fmdrop g1 (pending_request_map c1)\<rparr>)))
      ([], r1, c1\<lparr>pending_request_map := fold fmdrop g1 (pending_request_map c1)\<rparr>) = Inr (g2, r2, c3)" and
    3: "for_each gc_put (pending_puts (c3\<lparr>pending_get_response_map := fold fmdrop g2 (pending_get_response_map c3)\<rparr>))
      ([], r2, c3\<lparr>pending_get_response_map := fold fmdrop g2 (pending_get_response_map c3)\<rparr>) = Inr (g3, result', c5)" and
    c': "c' = c5\<lparr>pending_put_response_map := fold (\<lambda>(key, rid). fm_modify fmempty key (fmdrop rid)) g3 (pending_put_response_map c5)\<rparr>"
    using assms(1) by (auto simp: collect_garbage_def Let_def bindr_Inr_iff)
  define c2 where "c2 = c1\<lparr>pending_request_map := fold fmdrop g1 (pending_request_map c1)\<rparr>"
  define c4 where "c4 = c3\<lparr>pending_get_response_map := fold fmdrop g2 (pending_get_response_map c3)\<rparr>"
  note e1 = gc_address_effect [OF 1 assms(2)]
  note p1 = pendings_cong [OF conjunct1 [OF e1]]
  have ok2: "async_ok c2" and m2: "\<And>k. fmlookup (pending_request_map c2) k = (if k \<in> set g1 then None else fmlookup (pending_request_map c) k)"
    "pending_get_response_map c2 = pending_get_response_map c" "pending_put_response_map c2 = pending_put_response_map c"
    using p1 assms(2) by (auto simp: c2_def async_ok_def fmlookup_fold_drop split: if_splits)
  note e2 = gc_get_effect [OF 2 [folded c2_def] ok2]
  note p2 = pendings_cong [OF conjunct1 [OF e2]]
  have ok4: "async_ok c4" and m4: "\<And>k. fmlookup (pending_get_response_map c4) k = (if k \<in> set g2 then None else fmlookup (pending_get_response_map c) k)"
    "pending_request_map c4 = pending_request_map c2"
    using p2 ok2 m2 by (auto simp: c4_def async_ok_def fmlookup_fold_drop split: if_splits)
  note e3 = gc_put_effect [OF 3 [folded c4_def]]
  note p3 = pendings_cong [OF conjunct1 [OF e3]]
  have puts: "\<exists>m0. fmlookup (pending_put_response_map c5) key = Some m0 \<and> fmlookup m0 i = Some p"
    if "fmlookup (fold (\<lambda>(key, rid). fm_modify fmempty key (fmdrop rid)) g3 (pending_put_response_map c5)) key = Some m"
      "fmlookup m i = Some p" for key m i p
    by (rule fold_put_drop [OF that])
  have "async_ok c'" using p3 ok4 puts by (fastforce simp: c' async_ok_def)
  moreover have "outstanding k c' \<or> answered k result'" if "outstanding k c"
  proof -
    have "waits_get k c2 \<or> answered k result'" if "waits_get k c"
      using that e1 e2 e3 m2(1) answered_mono [of k r1 result'] by (auto simp: waits_get_def split: if_splits)
    moreover have "fm_contains (pending_get_response_map c4) k \<or> answered k result'" if "fm_contains (pending_get_response_map c) k"
      using that e2 e3 m4(1) answered_mono [of k r2 result'] by auto
    ultimately show ?thesis
      using that p3 m4(2) by (auto simp: outstanding_def waits_get_def c')
  qed
  ultimately show ?thesis using e1 e2 e3 by auto
qed

section \<open>No get is lost\<close>

lemma receive_effect:
  assumes "receive_async E a r c = Inr (result, c')" "async_ok c"
  shows "async_ok c' \<and> (outstanding k c \<longrightarrow> outstanding k c' \<or> answered k result)"
proof -
  obtain c1 where 1: "(case a of None \<Rightarrow> Inr c | Some a \<Rightarrow> handle_address E a c) = Inr c1"
    using assms(1) by (auto simp: receive_async_def bindr_Inr_iff)
  obtain r1 c2 where 2: "(case r of None \<Rightarrow> Inr ([], c1) | Some r \<Rightarrow> handle_response E r c1) = Inr (r1, c2)"
    and 3: "collect_garbage (r1, c2) = Inr (result, c')"
    using assms(1) 1 by (auto simp: receive_async_def bindr_Inr_iff)
  have e1: "async_ok c1 \<and> (outstanding k c \<longrightarrow> outstanding k c1)"
    using 1 assms(2) handle_address_effect by (cases a) auto
  have e2: "async_ok c2 \<and> (outstanding k c1 \<longrightarrow> outstanding k c2 \<or> answered k r1)"
    using 2 e1 response_effect by (cases r) auto
  show ?thesis
    using e1 e2 collect_garbage_effect [OF 3, of k] answered_mono [of k r1 result] by auto
qed

lemma prepare_effect:
  assumes "async_prepare key c = (q, c1)"
  shows "for_key key q" "pendings c1 = pendings c"
  using assms pendings_simps(1) [of c] by (auto simp: async_prepare_def for_key_def Let_def case_prod_unfold)

lemma put_effect:
  assumes "put_async E key payload t c = Inr (i, c')" "async_ok c"
  shows "async_ok c' \<and> (outstanding k c \<longrightarrow> outstanding k c')"
proof -
  obtain q c1 where q: "async_prepare key c = (q, c1)" by (cases "async_prepare key c")
  let ?q = "q\<lparr>q_type := PUT, q_tuples := map (\<lambda>x. x\<lparr>t_lattice_type := Some t, t_payload := Some payload\<rparr>) (q_tuples q)\<rparr>"
  obtain sent q' where tr: "async_try_request E ?q c1 = Inr (sent, q', c')"
    using assms(1) by (auto simp: put_async_def q Let_def bindr_Inr_iff)
  have "for_key key ?q" using prepare_effect(1) [OF q] by (simp add: for_key_def comp_def)
  from async_try_effect(1) [OF tr _ this] async_try_effect(2) [OF tr _ this, of k] show ?thesis
    using pendings_cong [OF prepare_effect(2) [OF q]] assms(2) by simp
qed

lemma get_effect:
  assumes "get_async E key c = Inr c'" "async_ok c"
  shows "async_ok c' \<and> outstanding key c' \<and> (outstanding k c \<longrightarrow> outstanding k c')"
proof (cases "fm_contains (pending_get_response_map c) key")
  case True
  then show ?thesis using assms by (auto simp: get_async_def outstanding_def)
next
  case False
  obtain q c1 where q: "async_prepare key c = (q, c1)" by (cases "async_prepare key c")
  obtain sent q' where tr: "async_try_request E (q\<lparr>q_type := GET\<rparr>) c1 = Inr (sent, q', c')"
    using assms(1) False by (auto simp: get_async_def q bindr_Inr_iff)
  have k: "for_key key (q\<lparr>q_type := GET\<rparr>)" using prepare_effect(1) [OF q] by (simp add: for_key_def)
  from async_try_effect(1,3) [OF tr _ k] async_try_effect(2) [OF tr _ k, of k] show ?thesis
    using pendings_cong [OF prepare_effect(2) [OF q]] assms(2) by simp
qed

interpretation kvs_client: async_contract async_ok outstanding "get_async E" "put_async E" "\<lambda>(a, r). receive_async E a r" for E
  by unfold_locales (use get_effect put_effect receive_effect in \<open>auto split: prod.splits\<close>)

lemma new_async_ok [simp]: "async_ok (new_async_client E routing ip tid timeout time0 clk)"
  by (simp add: async_ok_def new_async_client_def)

text \<open>The definitions that evaluate a fresh client on a concrete input.\<close>

lemmas eval_async_client = put_async_def get_async_def async_prepare_def get_request_id_def async_try_request_def vec_at_def
  async_worker_thread_def async_worker_threads_def query_routing_async_def get_routing_thread_def client_rand_def
  pick_worker_def fm_modify_def fm_at_def c_send_def case_prod_unfold empty_tuple_def empty_request_def Let_def
  new_async_client_def a_now_def receive_async_def collect_garbage_def gc_address_def timed_out_def pending_puts_def
  generate_bad_response_def

text \<open>
  C33. The asynchronous client loses no get: at any time after a get was issued, whatever other calls
  were made and whatever messages arrived in whatever order, either the get is still outstanding
  or the client has handed out a response for its key.
\<close>

theorem async_get_never_lost:
  assumes "for_each (do_call (get_async E) (put_async E) (\<lambda>(a, r). receive_async E a r)) (before @ Call_get key # after)
    ([], new_async_client E routing ip tid timeout time0 clk) = Inr (rs, c)"
  shows "outstanding key c \<or> answered key rs"
  using kvs_client.get_never_lost [OF assms] by simp

theorem async_get_never_lost_witness:
  "\<exists>rs c. for_each (do_call (get_async sample_env) (put_async sample_env) (\<lambda>(a, r). receive_async sample_env a r)) ([] @ Call_get ''k'' # [Call_receive (None, None)])
       ([], new_async_client sample_env [make_UserRoutingThread ''r'' 0] ''h'' 0 10000 0 (\<lambda>n. int n * 1000000000000)) = Inr (rs, c) \<and>
     (outstanding ''k'' c \<or> answered ''k'' rs)"
proof -
  have "\<exists>rs c. for_each (do_call (get_async sample_env) (put_async sample_env) (\<lambda>(a, r). receive_async sample_env a r)) ([] @ Call_get ''k'' # [Call_receive (None, None)])
       ([], new_async_client sample_env [make_UserRoutingThread ''r'' 0] ''h'' 0 10000 0 (\<lambda>n. int n * 1000000000000)) = Inr (rs, c)"
    by (simp add: eval_async_client)
  then obtain rs c where run: "for_each (do_call (get_async sample_env) (put_async sample_env) (\<lambda>(a, r). receive_async sample_env a r)) ([] @ Call_get ''k'' # [Call_receive (None, None)])
      ([], new_async_client sample_env [make_UserRoutingThread ''r'' 0] ''h'' 0 10000 0 (\<lambda>n. int n * 1000000000000)) = Inr (rs, c)"
    by blast
  from async_get_never_lost [OF run] run show ?thesis by blast
qed

end
