(* ===== verification/Clock_Order.thy ===== *)
theory Clock_Order
  imports Fluent_Lattices "HOL-Library.Product_Lexorder"
begin

text \<open>
  Containers that are keyed by vector clocks. The causal cache keeps unordered maps and sets of
  vector clocks; a loop over one of them runs over its elements in ascending order, for which
  finite maps are ordered by the lists of their entries. The second part compares clocks the
  way the cache does and shows that there are finitely many clocks below a given one, which
  is why its recursions end.
\<close>

section \<open>A linear order on finite maps\<close>

lemma fm_entries_inject: "fm_entries m = fm_entries n \<longleftrightarrow> m = n"
  by (metis fmlookup_inject map_of_fm_entries)

instantiation fmap :: (linorder, linorder) linorder
begin

definition less_eq_fmap :: "('a, 'b) fmap \<Rightarrow> ('a, 'b) fmap \<Rightarrow> bool" where
  "less_eq_fmap m n \<longleftrightarrow> fm_entries m \<le> fm_entries n"

definition less_fmap :: "('a, 'b) fmap \<Rightarrow> ('a, 'b) fmap \<Rightarrow> bool" where
  "less_fmap m n \<longleftrightarrow> fm_entries m < fm_entries n"

instance
  by standard (auto simp: less_eq_fmap_def less_fmap_def fm_entries_inject less_le)

end

section \<open>Comparing clocks\<close>

lemma vc_le_merge_iff: "vc_merge a b = a \<longleftrightarrow> vc_le b a" "a = vc_merge a b \<longleftrightarrow> vc_le b a"
  using vc_le_iff' [of b a] by auto

lemma vc_le_empty [simp]: "vc_le fmempty a" "vc_le a fmempty \<longleftrightarrow> a = fmempty"
  by (simp_all add: vc_le_iff)

text \<open>The least upper bound of a list of clocks.\<close>

definition vc_sup :: "VectorClock list \<Rightarrow> VectorClock" where
  "vc_sup vcs = fold vc_merge vcs fmempty"

lemma fold_vc_merge_le: "vc_le (fold vc_merge vcs b) c \<longleftrightarrow> vc_le b c \<and> (\<forall>v \<in> set vcs. vc_le v c)"
proof (induction vcs arbitrary: b)
  case Nil
  show ?case by simp
next
  case (Cons v vcs)
  have "vc_le (vc_merge v b) c \<longleftrightarrow> vc_le v c \<and> vc_le b c"
    using vc_merge_least vc_le_merge vc_le_trans by blast
  then show ?case using Cons.IH by auto
qed

lemma vc_sup_le: "vc_le (vc_sup vcs) c \<longleftrightarrow> (\<forall>v \<in> set vcs. vc_le v c)"
  by (simp add: vc_sup_def fold_vc_merge_le)

lemma vc_sup_upper: "v \<in> set vcs \<Longrightarrow> vc_le v (vc_sup vcs)"
  using vc_sup_le [of vcs "vc_sup vcs"] by simp

lemma finite_clocks_below: "finite {v. vc_le v b}"
proof -
  let ?D = "fset (fmdom b)"
  have "finite {m :: string \<Rightarrow> u32 option. dom m \<subseteq> ?D}"
  proof -
    have "{m :: string \<Rightarrow> u32 option. dom m \<subseteq> ?D} = (\<Union>A \<in> Pow ?D. {m. dom m = A \<and> ran m \<subseteq> UNIV})"
      by auto
    also have "finite \<dots>"
      by (intro finite_UN_I finite_set_of_finite_maps) (auto intro: finite_subset)
    finally show ?thesis .
  qed
  moreover have "fmlookup ` {v. vc_le v b} \<subseteq> {m. dom m \<subseteq> ?D}"
    by (auto simp: vc_le_def fmpred_iff split: option.splits dest: fmdomI)
  ultimately have "finite (fmlookup ` {v. vc_le v b})" by (rule finite_subset [rotated])
  then show ?thesis by (rule finite_imageD) (simp add: inj_on_def fmlookup_inject)
qed

end
