(* ===== verification/Causal_Cache.thy ===== *)
theory Causal_Cache
  imports Kvs_Client Clock_Order
begin

text \<open>
  The causal cache of functions/cache: its messages (include/proto/functions.proto), its state, the
  dependency check, the merge into the causal cut and the answers to clients
  (causal\_cache\_utils.cpp). Versions are shared through pointers and never changed once shared,
  so a pointer is the version it points to; reading a missing key through \<open>operator[]\<close> gives a null
  pointer, and using it is the fault \<open>Null_pointer\<close>. The asynchronous client is part of the state.

  Two functions of the source are recursive. They are written with the stack of what is still to
  be visited as an argument; \<open>recursive_dependency_check_Cons\<close> and \<open>save_versions_Cons\<close> give the form
  of the source back.
\<close>

section \<open>functions.proto\<close>

datatype ConsistencyType = NORMAL | SINGLE | CROSS

record CausalTuple =
  ct_key :: Key
  ct_error :: "u32 option"
  ct_payload :: "string option"

record VersionedKey =
  vk_key :: Key
  vk_vector_clock :: VectorClock

record CausalRequest =
  cq_consistency :: ConsistencyType
  cq_id :: string
  cq_tuples :: "CausalTuple list"
  cq_future_read_set :: "Key list"
  cq_versioned_key_locations :: "(Address, VersionedKey list) fmap"
  cq_response_address :: "Address option"

record CausalResponse =
  cs_tuples :: "CausalTuple list"
  cs_versioned_key_query_addr :: "Address option"
  cs_versioned_keys :: "VersionedKey list"

record VersionedKeyRequest =
  vq_id :: string
  vq_response_address :: Address
  vq_keys :: "Key list"

record VersionedKeyResponse =
  vr_id :: string
  vr_tuples :: "CausalTuple list"

datatype cache_message =
    Causal_response CausalResponse
  | Versioned_request VersionedKeyRequest
  | Versioned_response VersionedKeyResponse

definition cq_addr :: "CausalRequest \<Rightarrow> Address" where
  "cq_addr q = from_option [] (cq_response_address q)"

section \<open>State\<close>

type_synonym StoreType = "(Key, CrossCausalPayload) fmap"
type_synonym InPreparationType = "(Key, Address fset \<times> StoreType) fmap"
type_synonym VersionStoreType = "(string, StoreType) fmap"

record PendingClientMetadata =
  pm_client_id :: string
  pm_read_set :: "Key fset"
  pm_to_cover_set :: "Key fset"
  pm_prior_causal_chains :: "(Address, (Key, VectorClock) fmap) fmap"
  pm_future_read_set :: "Key fset"
  pm_remote_read_set :: "Key fset"
  pm_dne_set :: "Key fset"
  pm_serialized_local_payload :: "(Key, string) fmap"
  pm_serialized_remote_payload :: "(Key, string) fmap"

definition empty_metadata :: PendingClientMetadata where
  "empty_metadata = \<lparr>pm_client_id = [], pm_read_set = {||}, pm_to_cover_set = {||}, pm_prior_causal_chains = fmempty,
     pm_future_read_set = {||}, pm_remote_read_set = {||}, pm_dne_set = {||},
     pm_serialized_local_payload = fmempty, pm_serialized_remote_payload = fmempty\<rparr>"

record causal_cache =
  cct :: CausalCacheThread
  cache_key_set :: "Key fset"
  unmerged_store :: StoreType
  in_preparation :: InPreparationType
  causal_cut_store :: StoreType
  version_store :: VersionStoreType
  to_fetch_map :: "(Key, Key fset) fmap"
  cover_map :: "(Key, (VectorClock, Key fset) fmap) fmap"
  single_callback_map :: "(Key, Address fset) fmap"
  pending_single_metadata :: "(Address, PendingClientMetadata) fmap"
  pending_cross_metadata :: "(Address, PendingClientMetadata) fmap"
  client_id_to_address_map :: "(string, Address fset) fmap"
  request_id_to_address_map :: "(string, Address) fmap"
  kvs :: async_client
  cache_out :: "(Address \<times> cache_message) list"
  report_start :: int
  migrate_start :: int

definition cache_send :: "Address \<Rightarrow> cache_message \<Rightarrow> causal_cache \<Rightarrow> causal_cache" where
  "cache_send addr msg s = s\<lparr>cache_out := cache_out s @ [(addr, msg)]\<rparr>"

definition cache_get_async :: "env \<Rightarrow> Key \<Rightarrow> causal_cache \<Rightarrow> fault + causal_cache" where
  "cache_get_async E key s = bindr (get_async E key (kvs s)) (\<lambda>c. Inr (s\<lparr>kvs := c\<rparr>))"

text \<open>\<open>*store[key]\<close> and \<open>store.at(key)\<close>.\<close>

definition store_deref :: "StoreType \<Rightarrow> Key \<Rightarrow> fault + CrossCausalPayload" where
  "store_deref store key = (case fmlookup store key of None \<Rightarrow> Inl Null_pointer | Some l \<Rightarrow> Inr l)"

definition store_at :: "StoreType \<Rightarrow> Key \<Rightarrow> fault + CrossCausalPayload" where
  "store_at store key = (case fmlookup store key of None \<Rightarrow> Inl Out_of_range | Some l \<Rightarrow> Inr l)"

section \<open>Comparing and merging versions\<close>

definition kCausalGreaterOrEqual :: u32 where
  "kCausalGreaterOrEqual = 0"

definition kCausalLess :: u32 where
  "kCausalLess = 1"

definition kCausalConcurrent :: u32 where
  "kCausalConcurrent = 2"

definition vector_clock_comparison :: "VectorClock \<Rightarrow> VectorClock \<Rightarrow> u32" where
  "vector_clock_comparison lhs rhs =
     (let lhs_prev_vc = lhs;
          lhs_vc = vc_merge lhs rhs
      in if lhs_prev_vc = lhs_vc then kCausalGreaterOrEqual
         else if lhs_vc = rhs then kCausalLess
         else kCausalConcurrent)"

definition causal_comparison :: "CrossCausalPayload \<Rightarrow> CrossCausalPayload \<Rightarrow> u32" where
  "causal_comparison lhs rhs =
     (let lhs_prev_vc = cc_vector_clock lhs;
          rhs_vc = cc_vector_clock rhs;
          lhs_vc = vc_merge lhs_prev_vc rhs_vc
      in if lhs_prev_vc = lhs_vc then kCausalGreaterOrEqual
         else if lhs_vc = rhs_vc then kCausalLess
         else kCausalConcurrent)"

definition causal_merge :: "CrossCausalPayload \<Rightarrow> CrossCausalPayload \<Rightarrow> CrossCausalPayload" where
  "causal_merge lhs rhs =
     (let comp_result = causal_comparison lhs rhs
      in if comp_result = kCausalGreaterOrEqual then lhs
         else if comp_result = kCausalLess then rhs
         else cross_causal_do_merge (cross_causal_do_merge cc_default lhs) rhs)"

definition find_lattice_from_in_preparation ::
  "InPreparationType \<Rightarrow> Key \<Rightarrow> VectorClock \<Rightarrow> CrossCausalPayload option" where
  "find_lattice_from_in_preparation preparation key vc =
     map_option snd (List.find (\<lambda>(k, l). k = key \<and> vector_clock_comparison (cc_vector_clock l) vc = kCausalGreaterOrEqual)
       (concat (map (\<lambda>(head, addrs, chain). fm_entries chain) (fm_entries preparation))))"

definition populate_in_preparation ::
  "Key \<Rightarrow> Key \<Rightarrow> CrossCausalPayload \<Rightarrow> InPreparationType \<Rightarrow> bool \<times> InPreparationType" where
  "populate_in_preparation head_key dep_key lattice preparation =
     (let (addrs, chain) = fm_at ({||}, fmempty) preparation head_key
      in case fmlookup chain dep_key of
           None \<Rightarrow> (True, fmupd head_key (addrs, fmupd dep_key lattice chain) preparation)
         | Some old \<Rightarrow>
             let comp_result = causal_comparison old lattice
             in if comp_result = kCausalLess
                then (True, fmupd head_key (addrs, fmupd dep_key lattice chain) preparation)
                else if comp_result = kCausalConcurrent
                then (True, fmupd head_key (addrs, fmupd dep_key (causal_merge old lattice) chain) preparation)
                else (False, preparation))"

text \<open>\<open>in_preparation[head].second[key] = lattice\<close>\<close>

definition chain_put :: "Key \<Rightarrow> Key \<Rightarrow> CrossCausalPayload \<Rightarrow> causal_cache \<Rightarrow> causal_cache" where
  "chain_put head_key key lattice s =
     s\<lparr>in_preparation := fm_modify ({||}, fmempty) head_key (\<lambda>(addrs, chain). (addrs, fmupd key lattice chain))
        (in_preparation s)\<rparr>"

section \<open>The dependency check\<close>

definition clock_covered :: "StoreType \<Rightarrow> Key \<Rightarrow> VectorClock \<Rightarrow> bool" where
  "clock_covered store key vc =
     (case fmlookup store key of
        None \<Rightarrow> False
      | Some l \<Rightarrow> vector_clock_comparison (cc_vector_clock l) vc = kCausalGreaterOrEqual)"

text \<open>Use a version for a dependency of a head key; a version that is new has to be checked itself.\<close>

definition use_lattice ::
  "Key \<Rightarrow> Key \<Rightarrow> CrossCausalPayload \<Rightarrow> causal_cache \<Rightarrow> (Key \<times> VectorClock) list \<times> causal_cache" where
  "use_lattice head_key dep_key lattice s =
     (let (fresh, preparation) = populate_in_preparation head_key dep_key lattice (in_preparation s)
      in (if fresh then fm_entries (cc_dependency lattice) else [], s\<lparr>in_preparation := preparation\<rparr>))"

definition fetch_dependency :: "env \<Rightarrow> Key \<Rightarrow> Key \<Rightarrow> VectorClock \<Rightarrow> causal_cache \<Rightarrow> fault + causal_cache" where
  "fetch_dependency E head_key dep_key vc s =
     cache_get_async E dep_key
       (s\<lparr>to_fetch_map := fm_modify {||} head_key (finsert dep_key) (to_fetch_map s),
          cover_map := fm_modify fmempty dep_key (fm_modify {||} vc (finsert head_key)) (cover_map s)\<rparr>)"

text \<open>One dependency: the result names the dependencies that a recursive call would visit now.\<close>

definition check_dependency ::
  "env \<Rightarrow> Key \<Rightarrow> Key \<times> VectorClock \<Rightarrow> causal_cache \<Rightarrow> fault + ((Key \<times> VectorClock) list \<times> causal_cache)" where
  "check_dependency E head_key = (\<lambda>(dep_key, vc) s.
     if clock_covered (causal_cut_store s) dep_key vc then Inr ([], s)
     else case find_lattice_from_in_preparation (in_preparation s) dep_key vc of
            Some target \<Rightarrow> Inr (use_lattice head_key dep_key target s)
          | None \<Rightarrow>
              if clock_covered (unmerged_store s) dep_key vc
              then bindr (store_at (unmerged_store s) dep_key) (\<lambda>l. Inr (use_lattice head_key dep_key l s))
              else bindr (fetch_dependency E head_key dep_key vc s) (\<lambda>s. Inr ([], s)))"

subsection \<open>Why it ends\<close>

text \<open>
  What can still be added to the chain of a head key: keys and clocks that are below what the cache
  holds for the key, and that the chain does not have yet. Every recursive call adds one.
\<close>

definition chain :: "causal_cache \<Rightarrow> Key \<Rightarrow> StoreType" where
  "chain s head_key = snd (fm_at ({||}, fmempty) (in_preparation s) head_key)"

definition clk :: "StoreType \<Rightarrow> Key \<Rightarrow> VectorClock" where
  "clk store key = (case fmlookup store key of None \<Rightarrow> fmempty | Some l \<Rightarrow> cc_vector_clock l)"

definition held_clocks :: "causal_cache \<Rightarrow> Key \<Rightarrow> VectorClock list" where
  "held_clocks s key =
     clk (unmerged_store s) key # map (\<lambda>(head_key, _). clk (chain s head_key) key) (fm_entries (in_preparation s))"

definition held_keys :: "causal_cache \<Rightarrow> Key set" where
  "held_keys s = fset (fmdom (unmerged_store s)) \<union>
     (\<Union>(head_key, _) \<in> set (fm_entries (in_preparation s)). fset (fmdom (chain s head_key)))"

definition still_missing :: "Key \<Rightarrow> causal_cache \<Rightarrow> (Key \<times> VectorClock) set" where
  "still_missing head_key s = {(key, vc). key \<in> held_keys s \<and> vc_le vc (vc_sup (held_clocks s key)) \<and>
     \<not> (fm_contains (chain s head_key) key \<and> vc_le vc (clk (chain s head_key) key))}"

lemma vector_clock_comparison_cases:
  "vector_clock_comparison a b = kCausalGreaterOrEqual \<longleftrightarrow> vc_le b a"
  "vector_clock_comparison a b = kCausalLess \<longleftrightarrow> vc_le a b \<and> \<not> vc_le b a"
  "vector_clock_comparison a b = kCausalConcurrent \<longleftrightarrow> \<not> vc_le a b \<and> \<not> vc_le b a"
  by (simp_all add: vector_clock_comparison_def Let_def vc_le_merge_iff vc_le_iff [of a b]
      kCausalGreaterOrEqual_def kCausalLess_def kCausalConcurrent_def)

lemma causal_comparison_clocks:
  "causal_comparison l r = vector_clock_comparison (cc_vector_clock l) (cc_vector_clock r)"
  by (simp add: causal_comparison_def vector_clock_comparison_def Let_def)

lemmas comparison_cases = causal_comparison_clocks vector_clock_comparison_cases

lemma clock_covered_iff: "clock_covered store key vc \<longleftrightarrow> fm_contains store key \<and> vc_le vc (clk store key)"
  by (auto simp: clock_covered_def clk_def comparison_cases split: option.splits)

lemma chain_fm_at: "fm_at ({||}, fmempty) (in_preparation s) head_key = (addrs, ch) \<Longrightarrow> chain s head_key = ch"
  by (simp add: chain_def)

lemma finite_held_keys: "finite (held_keys s)"
  by (auto simp: held_keys_def)

lemma finite_still_missing: "finite (still_missing head_key s)"
proof (rule finite_subset)
  show "still_missing head_key s \<subseteq> Sigma (held_keys s) (\<lambda>key. {vc. vc_le vc (vc_sup (held_clocks s key))})"
    by (auto simp: still_missing_def)
  show "finite (Sigma (held_keys s) (\<lambda>key. {vc. vc_le vc (vc_sup (held_clocks s key))}))"
    by (intro finite_SigmaI finite_held_keys finite_clocks_below)
qed

lemma held_keys_iff: "key \<in> held_keys s \<longleftrightarrow> fm_contains (unmerged_store s) key \<or> (\<exists>h. fm_contains (chain s h) key)"
proof -
  have "(\<exists>e. (h, e) \<in> set (fm_entries (in_preparation s)))" if "fm_contains (chain s h) key" for h
    using that by (auto simp: chain_def fm_at_def set_fm_entries split: option.splits)
  then show ?thesis
    unfolding held_keys_def by (fastforce simp: fmlookup_dom_iff)
qed

lemma held_clocks_le:
  "vc_le (vc_sup (held_clocks s key)) b \<longleftrightarrow> vc_le (clk (unmerged_store s) key) b \<and> (\<forall>h. vc_le (clk (chain s h) key) b)"
proof -
  have "vc_le (clk (chain s h) key) b \<or> (\<exists>e. (h, e) \<in> set (fm_entries (in_preparation s)))" for h
    by (auto simp: chain_def fm_at_def clk_def set_fm_entries split: option.splits)
  then show ?thesis
    unfolding held_clocks_def vc_sup_le by fastforce
qed

lemma held_clocks_upper: "vc_le (clk (unmerged_store s) key) (vc_sup (held_clocks s key))"
  "vc_le (clk (chain s h) key) (vc_sup (held_clocks s key))"
  using held_clocks_le [of s key "vc_sup (held_clocks s key)"] by simp_all

lemma causal_merge_clock [simp]: "cc_vector_clock (causal_merge l r) = vc_merge (cc_vector_clock l) (cc_vector_clock r)"
proof -
  have "vc_merge (cc_vector_clock l) (cc_vector_clock r) = cc_vector_clock l" if "vc_le (cc_vector_clock r) (cc_vector_clock l)"
    using that by (simp add: vc_le_iff')
  then show ?thesis
    by (auto simp: causal_merge_def Let_def comparison_cases vc_le_iff [of "cc_vector_clock l"]
        cross_causal_do_merge_def cc_default_def)
qed

text \<open>What using a version does to the chains.\<close>

lemma use_lattice_effect:
  assumes "use_lattice h d l s = (ds, s')"
  obtains (kept) "s' = s" "ds = []" "fm_contains (chain s h) d" "vc_le (cc_vector_clock l) (clk (chain s h) d)"
  | (added) addrs l' where "s' = s\<lparr>in_preparation := fmupd h (addrs, fmupd d l' (chain s h)) (in_preparation s)\<rparr>"
      "ds = fm_entries (cc_dependency l)" "fm_contains (chain s h) d \<longrightarrow> \<not> vc_le (cc_vector_clock l) (clk (chain s h) d)"
      "l' = (case fmlookup (chain s h) d of None \<Rightarrow> l | Some old \<Rightarrow> causal_merge old l)"
      "addrs = fst (fm_at ({||}, fmempty) (in_preparation s) h)"
proof -
  obtain addrs ch where p: "fm_at ({||}, fmempty) (in_preparation s) h = (addrs, ch)" by fastforce
  note ch = chain_fm_at [OF p]
  show ?thesis
  proof (cases "fmlookup ch d")
    case None
    then show ?thesis
      using assms by (intro added [of addrs l]) (auto simp: use_lattice_def populate_in_preparation_def p ch)
  next
    case (Some old)
    then have clk: "clk (chain s h) d = cc_vector_clock old" by (simp add: clk_def ch)
    show ?thesis
    proof (cases "vc_le (cc_vector_clock l) (cc_vector_clock old)")
      case True
      then show ?thesis
        using assms Some clk ch by (intro kept)
          (simp_all add: use_lattice_def populate_in_preparation_def p comparison_cases)
    next
      case False
      then have "s' = s\<lparr>in_preparation := fmupd h (addrs, fmupd d (causal_merge old l) ch) (in_preparation s)\<rparr> \<and>
          ds = fm_entries (cc_dependency l)"
        using assms Some by (cases "vc_le (cc_vector_clock old) (cc_vector_clock l)")
          (auto simp: use_lattice_def populate_in_preparation_def p comparison_cases causal_merge_def)
      then show ?thesis
        using False Some clk by (intro added [of addrs "causal_merge old l"]) (simp_all add: ch p)
    qed
  qed
qed

lemma chain_upd [simp]:
  "chain (s\<lparr>in_preparation := fmupd h (addrs, ch) m\<rparr>) h' = (if h' = h then ch else chain (s\<lparr>in_preparation := m\<rparr>) h')"
  by (simp add: chain_def)

lemma chain_frame [simp]:
  "chain (s\<lparr>to_fetch_map := x\<rparr>) = chain s" "chain (s\<lparr>cover_map := y\<rparr>) = chain s" "chain (s\<lparr>kvs := c\<rparr>) = chain s"
  by (simp_all add: chain_def fun_eq_iff)

lemma chain_same [simp]: "chain (s\<lparr>in_preparation := in_preparation s\<rparr>) = chain s"
  by (simp add: chain_def fun_eq_iff)

lemma use_lattice_clocks:
  assumes "use_lattice h d l s = (ds, s')"
  shows "clk (chain s' h') key =
      (if h' = h \<and> key = d then vc_merge (clk (chain s h) d) (cc_vector_clock l) else clk (chain s h') key)"
    and "fmlookup (chain s' h') key = None \<longleftrightarrow> \<not> (h' = h \<and> key = d) \<and> fmlookup (chain s h') key = None"
    and "unmerged_store s' = unmerged_store s"
  using assms by (cases rule: use_lattice_effect;
      auto simp: clk_def vc_le_iff' split: option.splits)+

lemma use_lattice_missing:
  assumes u: "use_lattice h d l s = (ds, s')" and d: "d \<in> held_keys s"
    and l: "vc_le (cc_vector_clock l) (vc_sup (held_clocks s d))"
  shows "ds = [] \<and> s' = s \<or> still_missing h s' \<subset> still_missing h s"
  using u
proof (cases rule: use_lattice_effect)
  case kept
  then show ?thesis by simp
next
  case (added addrs l')
  note c = use_lattice_clocks [OF u]
  have keys: "held_keys s' = held_keys s"
    using d c by (auto simp: held_keys_iff)
  have sup: "vc_le (vc_sup (held_clocks s' key)) (vc_sup (held_clocks s key))" for key
    using held_clocks_upper(1) [of s key] held_clocks_upper(2) [of s _ key] l by (auto simp: held_clocks_le c intro: vc_merge_least)
  have sub: "still_missing h s' \<subseteq> still_missing h s"
    using vc_le_trans [OF _ sup] vc_le_trans [OF _ vc_le_merge(1)] by (auto simp: still_missing_def keys c split: if_splits)
  have mem: "(d, clk (chain s' h) d) \<in> still_missing h s"
    using d l held_clocks_upper(2) [of s h d] added(3) vc_le_trans [OF vc_le_merge(2)]
    by (auto simp: still_missing_def c intro: vc_merge_least)
  have "(d, clk (chain s' h) d) \<notin> still_missing h s'"
    by (simp add: still_missing_def c)
  then show ?thesis using sub mem by blast
qed

lemma find_SomeD: "List.find P xs = Some x \<Longrightarrow> x \<in> set xs \<and> P x"
  by (induction xs) (auto split: if_splits)

lemma find_lattice_Some:
  assumes "find_lattice_from_in_preparation (in_preparation s) d vc = Some l"
  shows "(\<exists>h. fmlookup (chain s h) d = Some l) \<and> vc_le vc (cc_vector_clock l)"
proof -
  obtain x where "List.find (\<lambda>(k, l). k = d \<and> vector_clock_comparison (cc_vector_clock l) vc = kCausalGreaterOrEqual)
      (concat (map (\<lambda>(head, addrs, chain). fm_entries chain) (fm_entries (in_preparation s)))) = Some x" "l = snd x"
    using assms by (auto simp: find_lattice_from_in_preparation_def)
  then have "fst x = d \<and> vc_le vc (cc_vector_clock l)"
    "x \<in> set (concat (map (\<lambda>(head, addrs, chain). fm_entries chain) (fm_entries (in_preparation s))))"
    by (auto dest!: find_SomeD simp: comparison_cases)
  moreover then obtain h as ch where "(h, as, ch) \<in> set (fm_entries (in_preparation s))" "x \<in> set (fm_entries ch)"
    by auto
  moreover then have "chain s h = ch" by (simp add: chain_def set_fm_entries fm_at_Some)
  ultimately show ?thesis using \<open>l = snd x\<close> set_fm_entries [of "fst x" "snd x" ch] by auto
qed

lemma check_dependency_cases:
  assumes "check_dependency E h (d, vc) s = Inr (ds, s')"
  obtains (cut) "ds = []" "s' = s" "clock_covered (causal_cut_store s) d vc"
  | (held) l where "use_lattice h d l s = (ds, s')" "vc_le vc (cc_vector_clock l)"
      "fmlookup (unmerged_store s) d = Some l \<or> (\<exists>h0. fmlookup (chain s h0) d = Some l)"
  | (fetch) c where "ds = []" "\<not> clock_covered (causal_cut_store s) d vc" "\<not> clock_covered (unmerged_store s) d vc"
      "s' = s\<lparr>to_fetch_map := fm_modify {||} h (finsert d) (to_fetch_map s),
         cover_map := fm_modify fmempty d (fm_modify {||} vc (finsert h)) (cover_map s), kvs := c\<rparr>"
proof (cases "clock_covered (causal_cut_store s) d vc")
  case True
  then show ?thesis using assms by (intro cut) (auto simp: check_dependency_def)
next
  case no_cut: False
  show ?thesis
  proof (cases "find_lattice_from_in_preparation (in_preparation s) d vc")
    case (Some l)
    then show ?thesis
      using find_lattice_Some [OF Some] assms no_cut by (intro held [of l]) (auto simp: check_dependency_def)
  next
    case None
    show ?thesis
    proof (cases "clock_covered (unmerged_store s) d vc")
      case True
      then obtain l where "fmlookup (unmerged_store s) d = Some l" "vc_le vc (cc_vector_clock l)"
        by (auto simp: clock_covered_iff clk_def)
      then show ?thesis
        using assms no_cut None True by (intro held [of l]) (auto simp: check_dependency_def store_at_def)
    next
      case False
      then show ?thesis
        using assms no_cut None fetch
        by (auto simp: check_dependency_def fetch_dependency_def cache_get_async_def bindr_Inr_iff)
    qed
  qed
qed

lemma check_dependency_missing:
  assumes "check_dependency E h x s = Inr (ds, s')"
  shows "ds = [] \<and> still_missing h s' = still_missing h s \<or> still_missing h s' \<subset> still_missing h s"
proof -
  obtain d vc where x: "x = (d, vc)" by (cases x)
  show ?thesis
    using assms [unfolded x]
  proof (cases rule: check_dependency_cases)
    case cut
    then show ?thesis by simp
  next
    case (held l)
    have "d \<in> held_keys s" "vc_le (cc_vector_clock l) (vc_sup (held_clocks s d))"
      using held(3) held_clocks_upper(1) [of s d] held_clocks_upper(2) [of s _ d] by (auto simp: held_keys_iff clk_def)
        (metis option.simps(5))
    from use_lattice_missing [OF held(1) this] show ?thesis by auto
  next
    case (fetch c)
    then show ?thesis by (simp add: still_missing_def held_keys_iff held_clocks_def)
  qed
qed

lemma bindr_cong [fundef_cong]:
  "r = r' \<Longrightarrow> (\<And>x. r' = Inr x \<Longrightarrow> f x = f' x) \<Longrightarrow> bindr r f = bindr r' f'"
  by (cases r') auto

function check_dependencies :: "env \<Rightarrow> Key \<Rightarrow> (Key \<times> VectorClock) list \<Rightarrow> causal_cache \<Rightarrow> fault + causal_cache" where
  "check_dependencies E head_key [] s = Inr s"
| "check_dependencies E head_key (x # rest) s =
     bindr (check_dependency E head_key x s) (\<lambda>(ds, s). check_dependencies E head_key (ds @ rest) s)"
  by pat_completeness auto
termination
proof (relation "inv_image (finite_psubset <*lex*> less_than) (\<lambda>(E, h, xs, s). (still_missing h s, length xs))")
  show "wf (inv_image (finite_psubset <*lex*> less_than)
      (\<lambda>(E :: env, h, xs :: (Key \<times> VectorClock) list, s). (still_missing h s, length xs)))"
    by (intro wf_inv_image wf_lex_prod wf_finite_psubset wf_less_than)
next
  fix E h x rest s y ds s'
  assume "check_dependency E h x s = Inr y" "(ds, s') = y"
  then have "ds = [] \<and> still_missing h s' = still_missing h s \<or> still_missing h s' \<subset> still_missing h s"
    by (intro check_dependency_missing) simp
  then show "((E, h, ds @ rest, s'), E, h, x # rest, s) \<in> inv_image (finite_psubset <*lex*> less_than)
      (\<lambda>(E, h, xs, s). (still_missing h s, length xs))"
    by (auto simp: finite_psubset_def finite_still_missing)
qed

definition recursive_dependency_check :: "env \<Rightarrow> Key \<Rightarrow> CrossCausalPayload \<Rightarrow> causal_cache \<Rightarrow> fault + causal_cache" where
  "recursive_dependency_check E head_key lattice s = check_dependencies E head_key (fm_entries (cc_dependency lattice)) s"

lemma check_dependencies_append:
  "check_dependencies E h (xs @ ys) s = bindr (check_dependencies E h xs s) (check_dependencies E h ys)"
proof (induction E h xs s rule: check_dependencies.induct)
  case (1 E h s)
  then show ?case by simp
next
  case (2 E h x rest s)
  show ?case
  proof (cases "check_dependency E h x s")
    case (Inl e)
    then show ?thesis by simp
  next
    case (Inr y)
    then show ?thesis using 2 [OF Inr] by (cases y) simp
  qed
qed

text \<open>The loop over the dependencies of a version, with the recursive calls of the source.\<close>

lemma recursive_dependency_check_Cons:
  "check_dependencies E h ((dep_key, vc) # rest) s =
     (if clock_covered (causal_cut_store s) dep_key vc then check_dependencies E h rest s
      else bindr
        (case find_lattice_from_in_preparation (in_preparation s) dep_key vc of
           Some target \<Rightarrow>
             (let (fresh, preparation) = populate_in_preparation h dep_key target (in_preparation s);
                  s = s\<lparr>in_preparation := preparation\<rparr>
              in if fresh then recursive_dependency_check E h target s else Inr s)
         | None \<Rightarrow>
             if clock_covered (unmerged_store s) dep_key vc
             then bindr (store_at (unmerged_store s) dep_key) (\<lambda>l.
                  let (fresh, preparation) = populate_in_preparation h dep_key l (in_preparation s);
                      s = s\<lparr>in_preparation := preparation\<rparr>
                  in if fresh then recursive_dependency_check E h l s else Inr s)
             else fetch_dependency E h dep_key vc s)
        (check_dependencies E h rest))"
  by (cases "store_at (unmerged_store s) dep_key")
    (simp_all add: check_dependency_def recursive_dependency_check_def use_lattice_def check_dependencies_append
      case_prod_unfold Let_def split: option.split)

section \<open>Keeping versions\<close>

definition find_address :: "Key \<Rightarrow> VectorClock \<Rightarrow> (Address, (Key, VectorClock) fmap) fmap \<Rightarrow> Address" where
  "find_address key vc prior_causal_chains =
     (case List.find (\<lambda>(addr, k, v). k = key \<and> vector_clock_comparison vc v = kCausalLess)
        (concat (map (\<lambda>(addr, m). map (Pair addr) (fm_entries m)) (fm_entries prior_causal_chains))) of
        Some (addr, _) \<Rightarrow> addr
      | None \<Rightarrow> [])"

function save_versions ::
  "string \<Rightarrow> StoreType \<Rightarrow> Key fset \<Rightarrow> Key list \<Rightarrow> Key fset \<times> VersionStoreType \<Rightarrow> fault + (Key fset \<times> VersionStoreType)" where
  "save_versions i ccs future_read_set [] x = Inr x"
| "save_versions i ccs future_read_set (key # rest) (observed_keys, versions) =
     (if key |\<in>| observed_keys then save_versions i ccs future_read_set rest (observed_keys, versions)
      else case fmlookup ccs key of
             None \<Rightarrow> Inl Out_of_range
           | Some l \<Rightarrow> save_versions i ccs future_read_set (map fst (fm_entries (cc_dependency l)) @ rest)
               (finsert key observed_keys,
                if key |\<in>| future_read_set then fm_modify fmempty i (fmupd key l) versions else versions))"
  by pat_completeness auto
termination
proof (relation "inv_image (finite_psubset <*lex*> less_than)
    (\<lambda>(i :: string, ccs :: StoreType, future :: Key fset, ks, observed, versions :: VersionStoreType).
       (fset (fmdom ccs) - fset observed, length ks))")
  show "wf (inv_image (finite_psubset <*lex*> less_than)
    (\<lambda>(i :: string, ccs :: StoreType, future :: Key fset, ks :: Key list, observed, versions :: VersionStoreType).
       (fset (fmdom ccs) - fset observed, length ks)))"
    by (intro wf_inv_image wf_lex_prod wf_finite_psubset wf_less_than)
qed (auto simp: finite_psubset_def dest: fmdomI)

declare save_versions.simps(2) [simp del]

lemma save_versions_append:
  "save_versions i ccs future (xs @ ys) x = bindr (save_versions i ccs future xs x) (save_versions i ccs future ys)"
proof (induction i ccs future xs x rule: save_versions.induct)
  case (1 i ccs future x)
  then show ?case by simp
next
  case (2 i ccs future key rest observed versions)
  then show ?case
    by (cases "key |\<in>| observed"; cases "fmlookup ccs key") (simp_all add: save_versions.simps(2))
qed

lemma save_versions_Cons:
  "save_versions i ccs future (key # rest) (observed, versions) =
     bindr (if key |\<in>| observed then Inr (observed, versions)
            else bindr (store_at ccs key) (\<lambda>l. save_versions i ccs future (map fst (fm_entries (cc_dependency l)))
              (finsert key observed, if key |\<in>| future then fm_modify fmempty i (fmupd key l) versions else versions)))
       (save_versions i ccs future rest)"
  by (cases "fmlookup ccs key") (simp_all add: save_versions.simps(2) store_at_def save_versions_append)

end
