(* ===== verification/Causal_Handlers.thy ===== *)
theory Causal_Handlers
  imports Causal_Cache
begin

text \<open>
  The causal cache, second part: what causal\_cache\_utils.cpp builds on the dependency check, the
  handlers of the requests of clients, other caches and the key-value store, and the loop of
  causal\_cache.cpp. A message arrives parsed.
\<close>

section \<open>Reading for a client\<close>

definition request_remote ::
  "CausalCacheThread \<Rightarrow> string \<Rightarrow> Key \<Rightarrow> Address \<Rightarrow> (Address, VersionedKeyRequest) fmap \<Rightarrow> (Address, VersionedKeyRequest) fmap" where
  "request_remote t client_id key remote_addr requests =
     fm_modify \<lparr>vq_id = client_id, vq_response_address = cct_causal_cache_versioned_key_response_connect_address t, vq_keys = []\<rparr>
       remote_addr (\<lambda>q. q\<lparr>vq_keys := vq_keys q @ [key]\<rparr>) requests"

type_synonym read_state = "bool \<times> (Address, VersionedKeyRequest) fmap \<times> PendingClientMetadata \<times> VersionStoreType"

definition read_key :: "env \<Rightarrow> causal_cache \<Rightarrow> Key \<Rightarrow> read_state \<Rightarrow> fault + read_state" where
  "read_key E s key = (\<lambda>(remote_request, requests, md, versions).
     let remote = (\<lambda>addr. (True, request_remote (cct s) (pm_client_id md) key addr requests,
                           md\<lparr>pm_remote_read_set := finsert key (pm_remote_read_set md)\<rparr>, versions))
     in if key |\<in>| pm_dne_set md
        then Inr (remote_request, requests,
                  md\<lparr>pm_serialized_local_payload := fmupd key [] (pm_serialized_local_payload md)\<rparr>, versions)
        else case fmlookup (causal_cut_store s) key of
               None \<Rightarrow> Inr (remote (find_address key fmempty (pm_prior_causal_chains md)))
             | Some l \<Rightarrow>
                 let remote_addr = find_address key (cc_vector_clock l) (pm_prior_causal_chains md)
                 in if remote_addr \<noteq> [] then Inr (remote remote_addr)
                    else bindr (save_versions (pm_client_id md) (causal_cut_store s) (pm_future_read_set md) [key] ({||}, versions))
                           (\<lambda>(_, versions). Inr (remote_request, requests,
                              md\<lparr>pm_serialized_local_payload :=
                                   fmupd key (serialize_cross_causal E l) (pm_serialized_local_payload md)\<rparr>, versions)))"

definition fire_remote_read_requests ::
  "env \<Rightarrow> PendingClientMetadata \<Rightarrow> causal_cache \<Rightarrow> fault + (bool \<times> PendingClientMetadata \<times> causal_cache)" where
  "fire_remote_read_requests E md s =
     bindr (for_each (read_key E s) (fs_elems (pm_read_set md)) (False, fmempty, md, version_store s))
       (\<lambda>(remote_request, requests, md, versions).
         Inr (remote_request, md,
              fold (\<lambda>(addr, q). cache_send addr (Versioned_request q)) (fm_entries requests) (s\<lparr>version_store := versions\<rparr>)))"

definition versioned_keys :: "StoreType \<Rightarrow> VersionedKey list" where
  "versioned_keys store = map (\<lambda>(key, l). \<lparr>vk_key = key,
     vk_vector_clock = fold (\<lambda>(client, version). fmupd client version) (fm_entries (cc_vector_clock l)) fmempty\<rparr>) (fm_entries store)"

definition cross_tuple :: "env \<Rightarrow> PendingClientMetadata \<Rightarrow> StoreType \<Rightarrow> Key \<Rightarrow> CausalTuple list \<Rightarrow> fault + CausalTuple list" where
  "cross_tuple E md store key tuples =
     (if key |\<in>| pm_dne_set md then Inr (tuples @ [\<lparr>ct_key = key, ct_error = Some 1, ct_payload = None\<rparr>])
      else bindr (store_at store key) (\<lambda>l.
           Inr (tuples @ [\<lparr>ct_key = key, ct_error = Some 0, ct_payload = Some (serialize_cross_causal E l)\<rparr>])))"

definition respond_to_client :: "env \<Rightarrow> Address \<Rightarrow> causal_cache \<Rightarrow> fault + causal_cache" where
  "respond_to_client E addr s =
     (let md = fm_at empty_metadata (pending_cross_metadata s) addr
      in bindr (for_each (cross_tuple E md (causal_cut_store s)) (fs_elems (pm_read_set md)) []) (\<lambda>tuples.
         let response = \<lparr>cs_tuples = tuples,
               cs_versioned_key_query_addr = Some (cct_causal_cache_versioned_key_request_connect_address (cct s)),
               cs_versioned_keys = (case fmlookup (version_store s) (pm_client_id md) of
                                      None \<Rightarrow> [] | Some store \<Rightarrow> versioned_keys store)\<rparr>
         in Inr ((cache_send addr (Causal_response response) s)
                  \<lparr>pending_cross_metadata := fmdrop addr (pending_cross_metadata s)\<rparr>)))"

text \<open>What is done once all keys of a client are covered.\<close>

definition answer_cross :: "env \<Rightarrow> Address \<Rightarrow> causal_cache \<Rightarrow> fault + causal_cache" where
  "answer_cross E addr s =
     bindr (fire_remote_read_requests E (fm_at empty_metadata (pending_cross_metadata s) addr) s) (\<lambda>(remote_request, md, s).
       let s = s\<lparr>pending_cross_metadata := fmupd addr md (pending_cross_metadata s)\<rparr>
       in if \<not> remote_request then respond_to_client E addr s
          else Inr (s\<lparr>client_id_to_address_map :=
                 fm_modify {||} (pm_client_id md) (finsert addr) (client_id_to_address_map s)\<rparr>))"

section \<open>The causal cut\<close>

text \<open>The three stores take in a version in the same way.\<close>

definition store_merge :: "Key \<Rightarrow> CrossCausalPayload \<Rightarrow> StoreType \<Rightarrow> StoreType" where
  "store_merge key lattice store =
     (case fmlookup store key of
        None \<Rightarrow> fmupd key lattice store
      | Some old \<Rightarrow>
          let comp_result = causal_comparison old lattice
          in if comp_result = kCausalLess then fmupd key lattice store
             else if comp_result = kCausalConcurrent then fmupd key (causal_merge old lattice) store
             else store)"

definition merge_version :: "Key \<times> CrossCausalPayload \<Rightarrow> bool \<times> StoreType \<Rightarrow> bool \<times> StoreType" where
  "merge_version = (\<lambda>(key, lattice) (key_dne, store).
     if vector_clock_comparison fmempty (cc_vector_clock lattice) = kCausalLess
     then (key_dne, store_merge key lattice store)
     else (True, store))"

definition notify_client :: "env \<Rightarrow> Key \<Rightarrow> bool \<Rightarrow> Address \<Rightarrow> causal_cache \<Rightarrow> fault + causal_cache" where
  "notify_client E key key_dne addr s =
     (case fmlookup (pending_cross_metadata s) addr of
        None \<Rightarrow> Inr s
      | Some md \<Rightarrow>
          let md = (if key_dne then md\<lparr>pm_dne_set := finsert key (pm_dne_set md)\<rparr> else md);
              md = md\<lparr>pm_to_cover_set := pm_to_cover_set md |-| {|key|}\<rparr>;
              s = s\<lparr>pending_cross_metadata := fmupd addr md (pending_cross_metadata s)\<rparr>
          in if pm_to_cover_set md = {||} then answer_cross E addr s else Inr s)"

definition merge_into_causal_cut :: "env \<Rightarrow> Key \<Rightarrow> causal_cache \<Rightarrow> fault + causal_cache" where
  "merge_into_causal_cut E key s =
     (let (addrs, ch) = fm_at ({||}, fmempty) (in_preparation s) key;
          (key_dne, store) = fold merge_version (fm_entries ch) (False, causal_cut_store s)
      in bindr (for_each (notify_client E key key_dne) (fs_elems addrs) (s\<lparr>causal_cut_store := store\<rparr>)) (\<lambda>s.
           Inr (s\<lparr>in_preparation := fmdrop key (in_preparation s)\<rparr>)))"

definition settle_head :: "env \<Rightarrow> Key \<Rightarrow> causal_cache \<Rightarrow> fault + causal_cache" where
  "settle_head E head_key s =
     (if fm_at {||} (to_fetch_map s) head_key = {||}
      then bindr (merge_into_causal_cut E head_key s) (\<lambda>s. Inr (s\<lparr>to_fetch_map := fmdrop head_key (to_fetch_map s)\<rparr>))
      else Inr s)"

section \<open>A version arrives\<close>

definition single_tuple :: "env \<Rightarrow> StoreType \<Rightarrow> Key \<Rightarrow> CausalTuple list \<Rightarrow> fault + CausalTuple list" where
  "single_tuple E store key tuples =
     bindr (store_deref store key) (\<lambda>l.
       Inr (tuples @ [if vector_clock_comparison fmempty (cc_vector_clock l) = kCausalGreaterOrEqual
                      then \<lparr>ct_key = key, ct_error = Some 1, ct_payload = None\<rparr>
                      else \<lparr>ct_key = key, ct_error = Some 0, ct_payload = Some (serialize_cross_causal E l)\<rparr>]))"

definition notify_single :: "env \<Rightarrow> Key \<Rightarrow> Address \<Rightarrow> causal_cache \<Rightarrow> fault + causal_cache" where
  "notify_single E key addr s =
     (let md = fm_at empty_metadata (pending_single_metadata s) addr;
          md = md\<lparr>pm_to_cover_set := pm_to_cover_set md |-| {|key|}\<rparr>;
          s = s\<lparr>pending_single_metadata := fmupd addr md (pending_single_metadata s)\<rparr>
      in if pm_to_cover_set md = {||}
         then bindr (for_each (single_tuple E (unmerged_store s)) (fs_elems (pm_read_set md)) []) (\<lambda>tuples.
              Inr ((cache_send addr (Causal_response \<lparr>cs_tuples = tuples, cs_versioned_key_query_addr = None,
                      cs_versioned_keys = []\<rparr>) s)
                   \<lparr>pending_single_metadata := fmdrop addr (pending_single_metadata s)\<rparr>))
         else Inr s)"

definition update_unmerged :: "env \<Rightarrow> Key \<Rightarrow> CrossCausalPayload \<Rightarrow> causal_cache \<Rightarrow> fault + causal_cache" where
  "update_unmerged E key lattice s =
     (let known = fm_contains (unmerged_store s) key;
          s = s\<lparr>unmerged_store := store_merge key lattice (unmerged_store s)\<rparr>
      in if known then Inr s
         else case fmlookup (single_callback_map s) key of
                None \<Rightarrow> Inr s
              | Some addrs \<Rightarrow> bindr (for_each (notify_single E key) (fs_elems addrs) s) (\<lambda>s.
                  Inr (s\<lparr>single_callback_map := fmdrop key (single_callback_map s)\<rparr>)))"

definition prepare_queried :: "env \<Rightarrow> Key \<Rightarrow> causal_cache \<Rightarrow> fault + causal_cache" where
  "prepare_queried E key s =
     (if fmlookup (to_fetch_map s) key = Some {||}
      then bindr (store_deref (unmerged_store s) key) (\<lambda>l.
           bindr (recursive_dependency_check E key l (chain_put key key l s)) (settle_head E key))
      else Inr s)"

type_synonym cover_state = "(VectorClock, Key fset) fmap \<times> Key fset \<times> Key fset \<times> causal_cache"

definition cover_head :: "Key \<Rightarrow> CrossCausalPayload \<Rightarrow> VectorClock \<Rightarrow> Key \<Rightarrow> cover_state \<Rightarrow> cover_state" where
  "cover_head key l vc head_key = (\<lambda>(to_remove, not_satisfied, may_be_satisfied, s).
     (fm_modify {||} vc (finsert head_key) to_remove, not_satisfied, finsert head_key may_be_satisfied,
      (chain_put head_key key l s)\<lparr>to_fetch_map := fm_touch {||} head_key (to_fetch_map s)\<rparr>))"

definition cover_clock :: "Key \<Rightarrow> VectorClock \<times> Key fset \<Rightarrow> cover_state \<Rightarrow> fault + cover_state" where
  "cover_clock key = (\<lambda>(vc, heads) (to_remove, not_satisfied, may_be_satisfied, s).
     bindr (store_at (unmerged_store s) key) (\<lambda>l.
       if vector_clock_comparison (cc_vector_clock l) vc = kCausalGreaterOrEqual
       then Inr (fold (cover_head key l vc) (fs_elems heads) (to_remove, not_satisfied, may_be_satisfied, s))
       else Inr (to_remove, fold finsert (fs_elems heads) not_satisfied, may_be_satisfied, s)))"

definition drop_fetched :: "Key \<Rightarrow> Key fset \<Rightarrow> Key \<Rightarrow> causal_cache \<Rightarrow> causal_cache" where
  "drop_fetched key not_satisfied head_key s =
     (if head_key |\<in>| not_satisfied then s
      else s\<lparr>to_fetch_map := fm_modify {||} head_key (\<lambda>ks. ks |-| {|key|}) (to_fetch_map s)\<rparr>)"

definition check_head :: "env \<Rightarrow> Key \<Rightarrow> Key \<Rightarrow> causal_cache \<Rightarrow> fault + causal_cache" where
  "check_head E key head_key s =
     bindr (store_deref (unmerged_store s) key) (\<lambda>l.
     bindr (recursive_dependency_check E head_key l s) (settle_head E head_key))"

definition remove_covered :: "env \<Rightarrow> Key \<Rightarrow> VectorClock \<times> Key fset \<Rightarrow> causal_cache \<Rightarrow> fault + causal_cache" where
  "remove_covered E key = (\<lambda>(vc, heads) s.
     for_each (check_head E key) (fs_elems heads)
       (s\<lparr>cover_map := fm_modify fmempty key (fmdrop vc) (cover_map s)\<rparr>))"

definition cover_dependencies :: "env \<Rightarrow> Key \<Rightarrow> causal_cache \<Rightarrow> fault + causal_cache" where
  "cover_dependencies E key s =
     (case fmlookup (cover_map s) key of
        None \<Rightarrow> Inr s
      | Some clocks \<Rightarrow>
          bindr (for_each (cover_clock key) (fm_entries clocks) (fmempty, {||}, {||}, s))
            (\<lambda>(to_remove, not_satisfied, may_be_satisfied, s).
          bindr (for_each (remove_covered E key) (fm_entries to_remove)
                  (fold (drop_fetched key not_satisfied) (fs_elems may_be_satisfied) s)) (\<lambda>s.
          if fm_at fmempty (cover_map s) key = fmempty
          then Inr (s\<lparr>cover_map := fmdrop key (cover_map s)\<rparr>)
          else cache_get_async E key s)))"

definition drop_missing :: "Key \<Rightarrow> causal_cache \<Rightarrow> fault + causal_cache" where
  "drop_missing key s =
     bindr (store_deref (unmerged_store s) key) (\<lambda>l.
       if vector_clock_comparison fmempty (cc_vector_clock l) = kCausalGreaterOrEqual
       then Inr (s\<lparr>unmerged_store := fmdrop key (unmerged_store s)\<rparr>)
       else Inr s)"

definition process_response :: "env \<Rightarrow> Key \<Rightarrow> CrossCausalPayload \<Rightarrow> causal_cache \<Rightarrow> fault + causal_cache" where
  "process_response E key lattice s =
     bindr (update_unmerged E key lattice s) (\<lambda>s.
     bindr (prepare_queried E key s) (\<lambda>s.
     bindr (cover_dependencies E key s) (\<lambda>s.
     drop_missing key s)))"

section \<open>Requests of clients\<close>

fun frontier_scan :: "VectorClock \<Rightarrow> VectorClock list \<Rightarrow> VectorClock fset \<Rightarrow> VectorClock fset option" where
  "frontier_scan vc [] to_remove = Some to_remove"
| "frontier_scan vc (frontier_vc # rest) to_remove =
     (if vector_clock_comparison frontier_vc vc = kCausalLess then frontier_scan vc rest (finsert frontier_vc to_remove)
      else if vector_clock_comparison frontier_vc vc = kCausalGreaterOrEqual then None
      else frontier_scan vc rest to_remove)"

definition populate_causal_frontier ::
  "Key \<Rightarrow> VectorClock \<Rightarrow> (Key, VectorClock fset) fmap \<Rightarrow> (Key, VectorClock fset) fmap" where
  "populate_causal_frontier key vc causal_frontier =
     (let clocks = fm_at {||} causal_frontier key
      in case frontier_scan vc (fs_elems clocks) {||} of
           None \<Rightarrow> fm_touch {||} key causal_frontier
         | Some to_remove \<Rightarrow> fmupd key (finsert vc (clocks |-| to_remove)) causal_frontier)"

definition clock_of :: "VersionedKey \<Rightarrow> VectorClock" where
  "clock_of vk = fold (\<lambda>(client, version). vc_insert client version) (fm_entries (vk_vector_clock vk)) fmempty"

definition request_frontier :: "CausalRequest \<Rightarrow> (Key, VectorClock fset) fmap" where
  "request_frontier request =
     fold (\<lambda>(addr, vks). fold (\<lambda>vk. populate_causal_frontier (vk_key vk) (clock_of vk)) vks)
       (fm_entries (cq_versioned_key_locations request)) fmempty"

definition prior_chains ::
  "(Key, VectorClock fset) fmap \<Rightarrow> CausalRequest \<Rightarrow> (Address, (Key, VectorClock) fmap) fmap \<Rightarrow> (Address, (Key, VectorClock) fmap) fmap" where
  "prior_chains causal_frontier request pcc =
     fold (\<lambda>(addr, vks). fold (\<lambda>vk pcc.
         if clock_of vk |\<in>| fm_at {||} causal_frontier (vk_key vk)
         then fm_modify fmempty addr (fmupd (vk_key vk) (clock_of vk)) pcc
         else pcc) vks)
       (fm_entries (cq_versioned_key_locations request)) pcc"

type_synonym tuple_state = "Key fset \<times> bool \<times> Key fset \<times> causal_cache"

definition single_read :: "env \<Rightarrow> Address \<Rightarrow> CausalTuple \<Rightarrow> tuple_state \<Rightarrow> fault + tuple_state" where
  "single_read E addr tuple = (\<lambda>(read_set, covered_locally, to_cover, s).
     let key = ct_key tuple;
         read_set = finsert key read_set;
         s = s\<lparr>cache_key_set := finsert key (cache_key_set s)\<rparr>
     in if fm_contains (unmerged_store s) key then Inr (read_set, covered_locally, to_cover, s)
        else bindr (cache_get_async E key
                 (s\<lparr>single_callback_map := fm_modify {||} key (finsert addr) (single_callback_map s)\<rparr>)) (\<lambda>s.
             Inr (read_set, False, finsert key to_cover, s)))"

definition single_request :: "env \<Rightarrow> CausalRequest \<Rightarrow> causal_cache \<Rightarrow> fault + causal_cache" where
  "single_request E request s =
     (let addr = cq_addr request
      in bindr (for_each (single_read E addr) (cq_tuples request) ({||}, True, {||}, s)) (\<lambda>(read_set, covered_locally, to_cover, s).
         if \<not> covered_locally
         then Inr (s\<lparr>pending_single_metadata := fmupd addr
                (empty_metadata\<lparr>pm_client_id := cq_id request, pm_read_set := read_set, pm_to_cover_set := to_cover\<rparr>)
                (pending_single_metadata s)\<rparr>)
         else bindr (for_each (\<lambda>key tuples. bindr (store_deref (unmerged_store s) key) (\<lambda>l.
                  Inr (tuples @ [\<lparr>ct_key = key, ct_error = None, ct_payload = Some (serialize_cross_causal E l)\<rparr>])))
                (fs_elems read_set) []) (\<lambda>tuples.
              Inr (cache_send addr (Causal_response \<lparr>cs_tuples = tuples, cs_versioned_key_query_addr = None,
                     cs_versioned_keys = []\<rparr>) s))))"

definition wait_for_key :: "Address \<Rightarrow> Key \<Rightarrow> causal_cache \<Rightarrow> causal_cache" where
  "wait_for_key addr key s =
     s\<lparr>in_preparation := fm_modify ({||}, fmempty) key (\<lambda>(addrs, ch). (finsert addr addrs, ch)) (in_preparation s)\<rparr>"

text \<open>A version of the key is at hand: prepare its chain; the flag says whether it is in the cut now.\<close>

definition prepare_held :: "env \<Rightarrow> Address \<Rightarrow> Key \<Rightarrow> CrossCausalPayload \<Rightarrow> causal_cache \<Rightarrow> fault + (bool \<times> causal_cache)" where
  "prepare_held E addr key lattice s =
     bindr (recursive_dependency_check E key lattice (chain_put key key lattice s)) (\<lambda>s.
       if fm_at {||} (to_fetch_map s) key = {||}
       then bindr (settle_head E key s) (\<lambda>s. Inr (True, s))
       else Inr (False, wait_for_key addr key s))"

definition cross_key :: "env \<Rightarrow> Address \<Rightarrow> Key \<Rightarrow> causal_cache \<Rightarrow> fault + (bool \<times> causal_cache)" where
  "cross_key E addr key s =
     (if fm_contains (in_preparation s) key then Inr (False, wait_for_key addr key s)
      else let s = s\<lparr>to_fetch_map := fmupd key {||} (to_fetch_map s)\<rparr>
           in case find_lattice_from_in_preparation (in_preparation s) key fmempty of
                Some lattice \<Rightarrow> prepare_held E addr key lattice s
              | None \<Rightarrow>
                  (case fmlookup (unmerged_store s) key of
                     Some lattice \<Rightarrow> prepare_held E addr key lattice s
                   | None \<Rightarrow> bindr (cache_get_async E key (wait_for_key addr key s)) (\<lambda>s. Inr (False, s))))"

definition cross_read :: "env \<Rightarrow> Address \<Rightarrow> (Key, VectorClock fset) fmap \<Rightarrow> CausalTuple \<Rightarrow> tuple_state \<Rightarrow> fault + tuple_state" where
  "cross_read E addr causal_frontier tuple = (\<lambda>(read_set, covered_locally, to_cover, s).
     let key = ct_key tuple;
         read_set = finsert key read_set;
         s = s\<lparr>cache_key_set := finsert key (cache_key_set s)\<rparr>
     in if fm_contains (causal_cut_store s) key \<or> fm_contains causal_frontier key
        then Inr (read_set, covered_locally, to_cover, s)
        else bindr (cross_key E addr key s) (\<lambda>(ready, s).
             if ready then Inr (read_set, covered_locally, to_cover, s)
             else Inr (read_set, False, finsert key to_cover, s)))"

definition begin_cross :: "CausalRequest \<Rightarrow> causal_cache \<Rightarrow> causal_cache" where
  "begin_cross request s =
     s\<lparr>pending_cross_metadata := fm_modify empty_metadata (cq_addr request) (\<lambda>md.
        md\<lparr>pm_prior_causal_chains := prior_chains (request_frontier request) request (pm_prior_causal_chains md),
           pm_client_id := cq_id request,
           pm_future_read_set := fold finsert (cq_future_read_set request) (pm_future_read_set md)\<rparr>)
        (pending_cross_metadata s)\<rparr>"

definition cross_request :: "env \<Rightarrow> CausalRequest \<Rightarrow> causal_cache \<Rightarrow> fault + causal_cache" where
  "cross_request E request s =
     (let addr = cq_addr request;
          causal_frontier = request_frontier request
      in bindr (for_each (cross_read E addr causal_frontier) (cq_tuples request) ({||}, True, {||}, begin_cross request s))
           (\<lambda>(read_set, covered_locally, to_cover, s).
           if \<not> covered_locally
           then Inr (s\<lparr>pending_cross_metadata := fm_modify empty_metadata addr
                  (\<lambda>md. md\<lparr>pm_read_set := read_set, pm_to_cover_set := to_cover\<rparr>) (pending_cross_metadata s)\<rparr>)
           else answer_cross E addr
                  (s\<lparr>pending_cross_metadata := fm_modify empty_metadata addr
                     (\<lambda>md. md\<lparr>pm_read_set := read_set\<rparr>) (pending_cross_metadata s)\<rparr>)))"

definition get_request_handler :: "env \<Rightarrow> CausalRequest \<Rightarrow> causal_cache \<Rightarrow> fault + causal_cache" where
  "get_request_handler E request s =
     (case cq_consistency request of
        SINGLE \<Rightarrow> single_request E request s
      | CROSS \<Rightarrow> cross_request E request s
      | NORMAL \<Rightarrow> Inr s)"

definition parse_lattice :: "env \<Rightarrow> string \<Rightarrow> CrossCausalPayload" where
  "parse_lattice E payload = to_cross_causal_payload (deserialize_cross_causal E payload)"

definition put_tuple :: "env \<Rightarrow> Address \<Rightarrow> CausalTuple \<Rightarrow> causal_cache \<Rightarrow> fault + causal_cache" where
  "put_tuple E addr tuple s =
     (let key = ct_key tuple;
          s = s\<lparr>unmerged_store := store_merge key (parse_lattice E (from_option [] (ct_payload tuple))) (unmerged_store s)\<rparr>
      in bindr (store_deref (unmerged_store s) key) (\<lambda>l.
         bindr (put_async E key (serialize_cross_causal E l) CROSSCAUSAL (kvs s)) (\<lambda>(req_id, c).
           Inr (s\<lparr>kvs := c, request_id_to_address_map := fmupd req_id addr (request_id_to_address_map s)\<rparr>))))"

definition put_request_handler :: "env \<Rightarrow> CausalRequest \<Rightarrow> causal_cache \<Rightarrow> fault + causal_cache" where
  "put_request_handler E request = for_each (put_tuple E (cq_addr request)) (cq_tuples request)"

section \<open>Answers of the key-value store\<close>

definition retry_put :: "env \<Rightarrow> Key \<Rightarrow> string \<Rightarrow> string \<Rightarrow> causal_cache \<Rightarrow> fault + causal_cache" where
  "retry_put E key payload response_id s =
     (case fmlookup (request_id_to_address_map s) response_id of
        None \<Rightarrow> Inr s
      | Some addr \<Rightarrow>
          bindr (put_async E key payload CROSSCAUSAL (kvs s)) (\<lambda>(new_req_id, c).
            Inr (s\<lparr>kvs := c, request_id_to_address_map :=
                     fmdrop response_id (fmupd new_req_id addr (request_id_to_address_map s))\<rparr>)))"

definition confirm_put :: "Key \<Rightarrow> string \<Rightarrow> causal_cache \<Rightarrow> causal_cache" where
  "confirm_put key response_id s =
     (case fmlookup (request_id_to_address_map s) response_id of
        None \<Rightarrow> s
      | Some addr \<Rightarrow>
          (cache_send addr (Causal_response \<lparr>cs_tuples = [\<lparr>ct_key = key, ct_error = None, ct_payload = None\<rparr>],
             cs_versioned_key_query_addr = None, cs_versioned_keys = []\<rparr>) s)
          \<lparr>request_id_to_address_map := fmdrop response_id (request_id_to_address_map s)\<rparr>)"

definition kvs_response_handler :: "env \<Rightarrow> KeyResponse \<Rightarrow> causal_cache \<Rightarrow> fault + causal_cache" where
  "kvs_response_handler E response s =
     bindr (vec_at (r_tuples response) 0) (\<lambda>tuple.
       let key = t_key tuple
       in if r_error response = Some 0
          then if r_type response = GET then cache_get_async E key s
               else retry_put E key (t_value tuple) (resp_id response) s
          else if r_type response = GET
          then process_response E key (if t_err tuple \<noteq> 1 then parse_lattice E (t_value tuple) else cc_default) s
          else Inr (confirm_put key (resp_id response) s))"

section \<open>Versions for other caches\<close>

definition versioned_key_request_handler :: "env \<Rightarrow> VersionedKeyRequest \<Rightarrow> causal_cache \<Rightarrow> causal_cache" where
  "versioned_key_request_handler E request s =
     (let tuples =
        (case fmlookup (version_store s) (vq_id request) of
           None \<Rightarrow> []
         | Some store \<Rightarrow>
             concat (map (\<lambda>key. case fmlookup store key of
                 None \<Rightarrow> []
               | Some l \<Rightarrow> [\<lparr>ct_key = key, ct_error = None, ct_payload = Some (serialize_cross_causal E l)\<rparr>]) (vq_keys request)))
      in cache_send (vq_response_address request) (Versioned_response \<lparr>vr_id = vq_id request, vr_tuples = tuples\<rparr>) s)"

definition take_remote :: "CausalTuple \<Rightarrow> PendingClientMetadata \<Rightarrow> PendingClientMetadata" where
  "take_remote tp md =
     (if ct_key tp |\<in>| pm_remote_read_set md
      then md\<lparr>pm_serialized_remote_payload := fmupd (ct_key tp) (from_option [] (ct_payload tp)) (pm_serialized_remote_payload md),
              pm_remote_read_set := pm_remote_read_set md |-| {|ct_key tp|}\<rparr>
      else md)"

definition remote_tuples :: "PendingClientMetadata \<Rightarrow> CausalTuple list" where
  "remote_tuples md =
     map (\<lambda>(key, payload). if key |\<in>| pm_dne_set md then \<lparr>ct_key = key, ct_error = Some 1, ct_payload = None\<rparr>
                           else \<lparr>ct_key = key, ct_error = Some 0, ct_payload = Some payload\<rparr>)
       (fm_entries (pm_serialized_local_payload md)) @
     map (\<lambda>(key, payload). \<lparr>ct_key = key, ct_error = None, ct_payload = Some payload\<rparr>)
       (fm_entries (pm_serialized_remote_payload md))"

definition finish_remote :: "VersionedKeyResponse \<Rightarrow> Address \<Rightarrow> Address fset \<times> causal_cache \<Rightarrow> Address fset \<times> causal_cache" where
  "finish_remote response addr = (\<lambda>(address_to_gc, s).
     case fmlookup (pending_cross_metadata s) addr of
       None \<Rightarrow> (address_to_gc, s)
     | Some md \<Rightarrow>
         let md = fold take_remote (vr_tuples response) md
         in if pm_remote_read_set md = {||}
            then let s = s\<lparr>version_store := fm_touch fmempty (pm_client_id md) (version_store s)\<rparr>
                 in (finsert addr address_to_gc,
                     (cache_send addr (Causal_response \<lparr>cs_tuples = remote_tuples md,
                        cs_versioned_key_query_addr = Some (cct_causal_cache_versioned_key_request_connect_address (cct s)),
                        cs_versioned_keys = versioned_keys (fm_at fmempty (version_store s) (pm_client_id md))\<rparr>) s)
                     \<lparr>pending_cross_metadata := fmdrop addr (pending_cross_metadata s)\<rparr>)
            else (address_to_gc, s\<lparr>pending_cross_metadata := fmupd addr md (pending_cross_metadata s)\<rparr>))"

definition versioned_key_response_handler :: "VersionedKeyResponse \<Rightarrow> causal_cache \<Rightarrow> causal_cache" where
  "versioned_key_response_handler response s =
     (case fmlookup (client_id_to_address_map s) (vr_id response) of
        None \<Rightarrow> s
      | Some addrs \<Rightarrow>
          let (address_to_gc, s) = fold (finish_remote response) (fs_elems addrs) ({||}, s);
              left = addrs |-| address_to_gc
          in s\<lparr>client_id_to_address_map :=
                 (if left = {||} then fmdrop (vr_id response) (client_id_to_address_map s)
                  else fmupd (vr_id response) left (client_id_to_address_map s))\<rparr>)"

section \<open>Migration and the loop\<close>

definition migrate_key :: "env \<Rightarrow> Key \<times> CrossCausalPayload \<Rightarrow> causal_cache \<Rightarrow> fault + causal_cache" where
  "migrate_key E = (\<lambda>(key, lattice) s.
     if (case fmlookup (causal_cut_store s) key of
           None \<Rightarrow> True
         | Some l \<Rightarrow> causal_comparison l lattice \<noteq> kCausalGreaterOrEqual) \<and>
        find_lattice_from_in_preparation (in_preparation s) key fmempty = None
     then bindr (recursive_dependency_check E key lattice
                  (chain_put key key lattice (s\<lparr>to_fetch_map := fmupd key {||} (to_fetch_map s)\<rparr>))) (settle_head E key)
     else Inr s)"

definition periodic_migration_handler :: "env \<Rightarrow> causal_cache \<Rightarrow> fault + causal_cache" where
  "periodic_migration_handler E s = for_each (migrate_key E) (fm_entries (unmerged_store s)) s"

definition kCausalCacheReportThreshold :: u32 where
  "kCausalCacheReportThreshold = 5"

definition kMigrateThreshold :: u32 where
  "kMigrateThreshold = 10"

definition cache_now :: "causal_cache \<Rightarrow> int \<times> causal_cache" where
  "cache_now s = (let (now, c) = a_now (kvs s) in (now, s\<lparr>kvs := c\<rparr>))"

definition new_causal_cache :: "Address \<Rightarrow> u32 \<Rightarrow> async_client \<Rightarrow> causal_cache" where
  "new_causal_cache ip thread_id c =
     (let (report, c) = a_now c;
          (_, c) = a_now c;
          (migrate, c) = a_now c;
          (_, c) = a_now c
      in \<lparr>cct = make_CausalCacheThread ip thread_id, cache_key_set = {||}, unmerged_store = fmempty, in_preparation = fmempty,
          causal_cut_store = fmempty, version_store = fmempty, to_fetch_map = fmempty, cover_map = fmempty,
          single_callback_map = fmempty, pending_single_metadata = fmempty, pending_cross_metadata = fmempty,
          client_id_to_address_map = fmempty, request_id_to_address_map = fmempty, kvs = c, cache_out = [],
          report_start = report, migrate_start = migrate\<rparr>)"

definition update_tuple :: "env \<Rightarrow> KeyTuple \<Rightarrow> causal_cache \<Rightarrow> fault + causal_cache" where
  "update_tuple E tuple s =
     (if t_key tuple |\<in>| cache_key_set s then process_response E (t_key tuple) (parse_lattice E (t_value tuple)) s
      else Inr s)"

definition report_keys :: "env \<Rightarrow> u64 \<Rightarrow> causal_cache \<Rightarrow> fault + causal_cache" where
  "report_keys E time s =
     (let serialized = ser_keyset E (map fst (fm_entries (unmerged_store s)))
      in bindr (generate_timestamp time (cct_tid (cct s))) (\<lambda>ts.
         bindr (put_async E (get_user_metadata_key (cct_ip (cct s)) cache_ip)
                  (serialize_lww E \<lparr>timestamp = ts, tvp_value = serialized\<rparr>) LWW (kvs s)) (\<lambda>(_, c).
           let (now, s) = cache_now (s\<lparr>kvs := c\<rparr>) in Inr (s\<lparr>report_start := now\<rparr>))))"

text \<open>
  One round of the loop: the message that each socket has, if any, and the time in milliseconds for
  the timestamp of a report.
\<close>

record cache_input =
  in_get :: "CausalRequest option"
  in_put :: "CausalRequest option"
  in_update :: "KeyRequest option"
  in_version_gc :: "string option"
  in_versioned_request :: "VersionedKeyRequest option"
  in_versioned_response :: "VersionedKeyResponse option"
  in_addresses :: "KeyAddressResponse option"
  in_kvs_response :: "KeyResponse option"
  in_time :: u64

definition cache_versions :: "env \<Rightarrow> cache_input \<Rightarrow> causal_cache \<Rightarrow> causal_cache" where
  "cache_versions E i s =
     (let s = (case in_version_gc i of None \<Rightarrow> s | Some client_id \<Rightarrow> s\<lparr>version_store := fmdrop client_id (version_store s)\<rparr>);
          s = (case in_versioned_request i of None \<Rightarrow> s | Some q \<Rightarrow> versioned_key_request_handler E q s)
      in case in_versioned_response i of None \<Rightarrow> s | Some q \<Rightarrow> versioned_key_response_handler q s)"

definition cache_requests :: "env \<Rightarrow> cache_input \<Rightarrow> causal_cache \<Rightarrow> fault + causal_cache" where
  "cache_requests E i s =
     bindr (case in_get i of None \<Rightarrow> Inr s | Some q \<Rightarrow> get_request_handler E q s) (\<lambda>s.
     bindr (case in_put i of None \<Rightarrow> Inr s | Some q \<Rightarrow> put_request_handler E q s) (\<lambda>s.
     bindr (case in_update i of None \<Rightarrow> Inr s | Some q \<Rightarrow> for_each (update_tuple E) (q_tuples q) s) (\<lambda>s.
     Inr (cache_versions E i s))))"

definition cache_responses :: "env \<Rightarrow> cache_input \<Rightarrow> causal_cache \<Rightarrow> fault + causal_cache" where
  "cache_responses E i s =
     bindr (receive_async E (in_addresses i) (in_kvs_response i) (kvs s)) (\<lambda>(responses, c).
       for_each (kvs_response_handler E) responses (s\<lparr>kvs := c\<rparr>))"

definition cache_report :: "env \<Rightarrow> u64 \<Rightarrow> causal_cache \<Rightarrow> fault + causal_cache" where
  "cache_report E time s =
     (let (report_end, s) = cache_now s
      in if uint kCausalCacheReportThreshold \<le> (report_end - report_start s) sdiv 1000000000 then report_keys E time s else Inr s)"

definition cache_migrate :: "env \<Rightarrow> causal_cache \<Rightarrow> fault + causal_cache" where
  "cache_migrate E s =
     (let (migrate_end, s) = cache_now s
      in if uint kMigrateThreshold \<le> (migrate_end - migrate_start s) sdiv 1000000000
         then bindr (periodic_migration_handler E s) (\<lambda>s. let (now, s) = cache_now s in Inr (s\<lparr>migrate_start := now\<rparr>))
         else Inr s)"

definition cache_round :: "env \<Rightarrow> cache_input \<Rightarrow> causal_cache \<Rightarrow> fault + causal_cache" where
  "cache_round E i s =
     bindr (cache_requests E i s) (\<lambda>s.
     bindr (cache_responses E i s) (\<lambda>s.
     bindr (cache_report E (in_time i) s) (\<lambda>s.
     cache_migrate E s)))"

end
