(* ===== verification/Causal_Laws.thy ===== *)
theory Causal_Laws
  imports Causal_Handlers
begin

text \<open>
  The invariant of the causal cache. A dependency of a version in the chain of a head key is covered
  by the causal cut, by the chain, or by clocks the head key still waits for; a version in the
  causal cut has all its dependencies in the cut. The invariant is stated over the parts of the
  state it depends on: the chains \<open>ch\<close>, the keys to fetch \<open>tf\<close>, the clocks waited for \<open>pd\<close>, the cut
  \<open>ccs\<close> and the unmerged store \<open>unm\<close>. It is relative to a set \<open>W\<close> of dependencies that are still to be
  checked and a set \<open>R\<close> of clocks whose arrival is being handled.
\<close>

section \<open>Dependencies of versions\<close>

definition dep_le :: "CrossCausalPayload \<Rightarrow> Key \<Rightarrow> VectorClock \<Rightarrow> bool" where
  "dep_le l d b \<longleftrightarrow> (\<forall>v. fmlookup (cc_dependency l) d = Some v \<longrightarrow> vc_le v b)"

definition deps_real :: "CrossCausalPayload \<Rightarrow> bool" where
  "deps_real l \<longleftrightarrow> (\<forall>d. fmlookup (cc_dependency l) d \<noteq> Some fmempty)"

lemma fmlookup_dep_merge:
  "fmlookup (dep_merge a b) k =
     (case fmlookup b k of None \<Rightarrow> fmlookup a k
      | Some v \<Rightarrow> Some (case fmlookup a k of Some v0 \<Rightarrow> vc_merge v0 v | None \<Rightarrow> v))"
  by (simp add: dep_merge_def fmlookup_map_do_merge)

lemma causal_merge_dependency:
  "cc_dependency (causal_merge l r) = cc_dependency l \<or> cc_dependency (causal_merge l r) = cc_dependency r \<or>
   cc_dependency (causal_merge l r) = dep_merge (cc_dependency l) (cc_dependency r)"
  by (auto simp: causal_merge_def cross_causal_do_merge_def cc_default_def Let_def)

lemma dep_le_merge: "dep_le l d b \<Longrightarrow> dep_le r d b \<Longrightarrow> dep_le (causal_merge l r) d b"
  using causal_merge_dependency [of l r]
  by (auto simp: dep_le_def fmlookup_dep_merge intro: vc_merge_least split: option.splits)

lemma vc_merge_eq_empty [simp]: "vc_merge a b = fmempty \<longleftrightarrow> a = fmempty \<and> b = fmempty"
  by (metis vc_le_empty(2) vc_le_merge vc_merge_empty(1))

lemma deps_real_merge: "deps_real l \<Longrightarrow> deps_real r \<Longrightarrow> deps_real (causal_merge l r)"
  using causal_merge_dependency [of l r]
  by (auto simp: deps_real_def fmlookup_dep_merge split: option.splits)

lemma dep_le_mono: "dep_le l d b \<Longrightarrow> vc_le b c \<Longrightarrow> dep_le l d c"
  by (auto simp: dep_le_def intro: vc_le_trans)

section \<open>Stores\<close>

lemma store_merge_lookup:
  "fmlookup (store_merge k l st) k' =
     (if k' = k then Some (case fmlookup st k of None \<Rightarrow> l | Some old \<Rightarrow> causal_merge old l) else fmlookup st k')"
  by (auto simp: store_merge_def Let_def comparison_cases causal_merge_def split: option.splits)

lemma clk_store_merge [simp]:
  "clk (store_merge k l st) k' = (if k' = k then vc_merge (clk st k) (cc_vector_clock l) else clk st k')"
  by (simp add: clk_def store_merge_lookup split: option.splits)

lemma clk_upd [simp]: "clk (fmupd k l st) k' = (if k' = k then cc_vector_clock l else clk st k')"
  by (simp add: clk_def)

lemma clk_empty [simp]: "clk fmempty k = fmempty"
  by (simp add: clk_def)

lemma clk_Some: "fmlookup st k = Some l \<Longrightarrow> clk st k = cc_vector_clock l"
  by (simp add: clk_def)

text \<open>Merging a chain into a store: clocks are joined, dependencies come from either side.\<close>

lemma merge_versions:
  assumes "fold merge_version es (dne, st) = (dne', st')" "distinct (map fst es)"
  shows "clk st' k = vc_merge (clk st k) (case map_of es k of None \<Rightarrow> fmempty | Some l \<Rightarrow> cc_vector_clock l)"
    and "fmlookup st' k = Some l' \<Longrightarrow> (\<And>l. fmlookup st k = Some l \<Longrightarrow> dep_le l d b) \<Longrightarrow>
      (\<And>l. map_of es k = Some l \<Longrightarrow> dep_le l d b) \<Longrightarrow> dep_le l' d b"
proof -
  have "clk st' k = vc_merge (clk st k) (case map_of es k of None \<Rightarrow> fmempty | Some l \<Rightarrow> cc_vector_clock l) \<and>
    (fmlookup st' k = Some l' \<longrightarrow> (\<forall>l. fmlookup st k = Some l \<longrightarrow> dep_le l d b) \<longrightarrow>
      (\<forall>l. map_of es k = Some l \<longrightarrow> dep_le l d b) \<longrightarrow> dep_le l' d b)"
    using assms
  proof (induction es arbitrary: dne st)
    case Nil
    then show ?case by simp
  next
    case (Cons e es)
    obtain k0 l0 where e: "e = (k0, l0)" by (cases e)
    obtain dne1 st1 where step: "merge_version e (dne, st) = (dne1, st1)" by fastforce
    have new: "map_of es k0 = None"
      using Cons.prems(2) by (simp add: e map_of_eq_None_iff)
    have clk1: "clk st1 k = (if k = k0 then vc_merge (clk st k) (cc_vector_clock l0) else clk st k)"
      using step by (auto simp: e merge_version_def comparison_cases split: if_splits)
    have dep1: "(\<forall>l. fmlookup st k = Some l \<longrightarrow> dep_le l d b) \<Longrightarrow> (k = k0 \<Longrightarrow> dep_le l0 d b) \<Longrightarrow>
        fmlookup st1 k = Some l1 \<Longrightarrow> dep_le l1 d b" for l1
      using step by (auto simp: e merge_version_def store_merge_lookup intro: dep_le_merge split: if_splits option.splits)
    have "fold merge_version es (dne1, st1) = (dne', st')" "distinct (map fst es)"
      using Cons.prems step by simp_all
    note ih = Cons.IH [OF this]
    show ?case
    proof (intro conjI impI)
      show "clk st' k = vc_merge (clk st k) (case map_of (e # es) k of None \<Rightarrow> fmempty | Some l \<Rightarrow> cc_vector_clock l)"
        unfolding conjunct1 [OF ih] clk1 using new by (auto simp: e)
      assume "fmlookup st' k = Some l'" and old: "\<forall>l. fmlookup st k = Some l \<longrightarrow> dep_le l d b"
        and es: "\<forall>l. map_of (e # es) k = Some l \<longrightarrow> dep_le l d b"
      have "\<forall>l. fmlookup st1 k = Some l \<longrightarrow> dep_le l d b"
        using dep1 [OF old] es by (auto simp: e)
      moreover have "\<forall>l. map_of es k = Some l \<longrightarrow> dep_le l d b"
        using es new by (auto simp: e split: if_splits)
      ultimately show "dep_le l' d b"
        using conjunct2 [OF ih] \<open>fmlookup st' k = Some l'\<close> by blast
    qed
  qed
  then show "clk st' k = vc_merge (clk st k) (case map_of es k of None \<Rightarrow> fmempty | Some l \<Rightarrow> cc_vector_clock l)"
    and "fmlookup st' k = Some l' \<Longrightarrow> (\<And>l. fmlookup st k = Some l \<Longrightarrow> dep_le l d b) \<Longrightarrow>
      (\<And>l. map_of es k = Some l \<Longrightarrow> dep_le l d b) \<Longrightarrow> dep_le l' d b"
    by auto
qed

section \<open>The invariant\<close>

type_synonym todo = "(Key \<times> Key \<times> VectorClock) set"

definition bounds ::
  "(Key \<Rightarrow> StoreType) \<Rightarrow> (Key \<Rightarrow> Key \<Rightarrow> VectorClock \<Rightarrow> bool) \<Rightarrow> StoreType \<Rightarrow> todo \<Rightarrow> Key \<Rightarrow> Key \<Rightarrow> VectorClock \<Rightarrow> bool" where
  "bounds ch pd ccs W h d b \<longleftrightarrow> vc_le (clk ccs d) b \<and> vc_le (clk (ch h) d) b \<and>
     (\<forall>v. pd h d v \<longrightarrow> vc_le v b) \<and> (\<forall>v. (h, d, v) \<in> W \<longrightarrow> vc_le v b)"

definition causal_inv ::
  "(Key \<Rightarrow> StoreType) \<Rightarrow> (Key \<Rightarrow> Key fset) \<Rightarrow> (Key \<Rightarrow> Key \<Rightarrow> VectorClock \<Rightarrow> bool) \<Rightarrow> StoreType \<Rightarrow> StoreType \<Rightarrow>
   todo \<Rightarrow> (Key \<times> VectorClock) set \<Rightarrow> bool" where
  "causal_inv ch tf pd ccs unm W R \<longleftrightarrow>
     (\<forall>h k l d b. fmlookup (ch h) k = Some l \<longrightarrow> bounds ch pd ccs W h d b \<longrightarrow> dep_le l d b) \<and>
     (\<forall>h d v. pd h d v \<longrightarrow> (d, v) \<notin> R \<longrightarrow> d |\<in>| tf h \<and> fm_contains (ch h) h) \<and>
     (\<forall>k l d. fmlookup ccs k = Some l \<longrightarrow> dep_le l d (clk ccs d)) \<and>
     (\<forall>h. ch h \<noteq> fmempty \<longrightarrow> fm_contains (ch h) h) \<and>
     (\<forall>h k. vc_le (clk (ch h) k) (clk unm k)) \<and>
     (\<forall>k l. fmlookup unm k = Some l \<longrightarrow> deps_real l) \<and>
     (\<forall>d v. (d, v) \<in> R \<longrightarrow> fm_contains unm d \<and> vc_le v (clk unm d) \<and>
        (\<forall>h. pd h d v \<longrightarrow> ch h = fmempty \<or> vc_le v (clk (ch h) d)))"

lemma causal_invI:
  assumes "\<And>h k l d b. fmlookup (ch h) k = Some l \<Longrightarrow> bounds ch pd ccs W h d b \<Longrightarrow> dep_le l d b"
    and "\<And>h d v. pd h d v \<Longrightarrow> (d, v) \<notin> R \<Longrightarrow> d |\<in>| tf h \<and> fm_contains (ch h) h"
    and "\<And>k l d. fmlookup ccs k = Some l \<Longrightarrow> dep_le l d (clk ccs d)"
    and "\<And>h. ch h \<noteq> fmempty \<Longrightarrow> fm_contains (ch h) h"
    and "\<And>h k. vc_le (clk (ch h) k) (clk unm k)"
    and "\<And>k l. fmlookup unm k = Some l \<Longrightarrow> deps_real l"
    and "\<And>d v. (d, v) \<in> R \<Longrightarrow> fm_contains unm d \<and> vc_le v (clk unm d)"
    and "\<And>d v h. (d, v) \<in> R \<Longrightarrow> pd h d v \<Longrightarrow> ch h = fmempty \<or> vc_le v (clk (ch h) d)"
  shows "causal_inv ch tf pd ccs unm W R"
  unfolding causal_inv_def apply (intro conjI allI impI)
  subgoal using assms(1) by blast
  subgoal using assms(2) by blast
  subgoal using assms(2) by blast
  subgoal using assms(3) by blast
  subgoal using assms(4) by blast
  subgoal using assms(5) by blast
  subgoal using assms(6) by blast
  subgoal using assms(7) by blast
  subgoal using assms(7) by blast
  subgoal using assms(8) by blast
  done

lemma causal_invD:
  assumes "causal_inv ch tf pd ccs unm W R"
  shows inv_chain: "\<And>h k l d b. fmlookup (ch h) k = Some l \<Longrightarrow> bounds ch pd ccs W h d b \<Longrightarrow> dep_le l d b"
    and inv_pending: "\<And>h d v. pd h d v \<Longrightarrow> (d, v) \<notin> R \<Longrightarrow> d |\<in>| tf h \<and> fm_contains (ch h) h"
    and inv_cut: "\<And>k l d. fmlookup ccs k = Some l \<Longrightarrow> dep_le l d (clk ccs d)"
    and inv_head: "\<And>h. ch h \<noteq> fmempty \<Longrightarrow> fm_contains (ch h) h"
    and inv_unmerged: "\<And>h k. vc_le (clk (ch h) k) (clk unm k)"
    and inv_real: "\<And>k l. fmlookup unm k = Some l \<Longrightarrow> deps_real l"
    and inv_held: "\<And>d v. (d, v) \<in> R \<Longrightarrow> fm_contains unm d \<and> vc_le v (clk unm d)"
    and inv_covered: "\<And>d v h. (d, v) \<in> R \<Longrightarrow> pd h d v \<Longrightarrow> ch h = fmempty \<or> vc_le v (clk (ch h) d)"
  using assms unfolding causal_inv_def by blast+

lemma bounds_antimono:
  assumes "bounds ch' pd' ccs' W' h d b"
    and "vc_le (clk ccs d) (clk ccs' d)" "vc_le (clk (ch h) d) (clk (ch' h) d)"
    and "\<And>v. pd h d v \<Longrightarrow> pd' h d v \<or> vc_le v (clk (ch' h) d)"
    and "\<And>v. (h, d, v) \<in> W \<Longrightarrow> (h, d, v) \<in> W' \<or> vc_le v (clk ccs' d) \<or> vc_le v (clk (ch' h) d) \<or> pd' h d v"
  shows "bounds ch pd ccs W h d b"
  using assms unfolding bounds_def by (meson vc_le_trans)

text \<open>Every step of the invariant grows what covers a dependency.\<close>

lemma causal_inv_cover:
  assumes inv: "causal_inv ch tf pd ccs unm W R"
    and W: "\<And>h d v. (h, d, v) \<in> W \<Longrightarrow> (h, d, v) \<in> W' \<or> vc_le v (clk ccs d) \<or> vc_le v (clk (ch h) d) \<or> pd h d v"
  shows "causal_inv ch tf pd ccs unm W' R"
proof (rule causal_invI)
  fix h k l d b
  assume l: "fmlookup (ch h) k = Some l" and "bounds ch pd ccs W' h d b"
  then have "bounds ch pd ccs W h d b" by - (rule bounds_antimono, assumption, use W in auto)
  with l show "dep_le l d b" by (rule inv_chain [OF inv])
qed (rule causal_invD [OF inv]; assumption)+

lemma inv_fetch:
  assumes inv: "causal_inv ch tf pd ccs unm W R"
    and h: "fm_contains (ch h) h" and new: "\<not> (fm_contains unm d \<and> vc_le vc (clk unm d))"
  shows "causal_inv ch (tf(h := finsert d (tf h))) (\<lambda>h' d' v. pd h' d' v \<or> h' = h \<and> d' = d \<and> v = vc) ccs unm W R"
proof -
  have no: "(d, vc) \<notin> R" using inv_held [OF inv] new by blast
  show ?thesis
  proof (rule causal_invI)
    fix h1 k l d1 b
    assume l: "fmlookup (ch h1) k = Some l"
      and "bounds ch (\<lambda>h' d' v. pd h' d' v \<or> h' = h \<and> d' = d \<and> v = vc) ccs W h1 d1 b"
    then have "bounds ch pd ccs W h1 d1 b" by - (rule bounds_antimono, assumption, auto)
    with l show "dep_le l d1 b" by (rule inv_chain [OF inv])
  next
    fix h1 d1 v assume "pd h1 d1 v \<or> h1 = h \<and> d1 = d \<and> v = vc" "(d1, v) \<notin> R"
    then show "d1 |\<in>| (tf(h := finsert d (tf h))) h1 \<and> fm_contains (ch h1) h1"
      using inv_pending [OF inv] h by auto
  next
    fix d1 v h1 assume "(d1, v) \<in> R" "pd h1 d1 v \<or> h1 = h \<and> d1 = d \<and> v = vc"
    then show "ch h1 = fmempty \<or> vc_le v (clk (ch h1) d1)"
      using inv_covered [OF inv] no by blast
  qed (rule causal_invD [OF inv]; assumption)+
qed

lemma inv_use:
  assumes inv: "causal_inv (chain s) tf pd ccs unm (insert (h, d, vc) W) R"
    and u: "use_lattice h d l s = (ds, s')" and vc: "vc_le vc (cc_vector_clock l)"
    and l: "vc_le (cc_vector_clock l) (clk unm d)" and h: "fm_contains (chain s h) h"
  shows "causal_inv (chain s') tf pd ccs unm (W \<union> {h} \<times> set ds) R"
proof -
  note c = use_lattice_clocks [OF u]
  have grow: "vc_le (clk (chain s h1) k) (clk (chain s' h1) k)" for h1 k
    by (simp add: c)
  have other: "chain s' h1 = chain s h1" if "h1 \<noteq> h" for h1
    using u that by (cases rule: use_lattice_effect) auto
  have contains: "fm_contains (chain s h1) k \<Longrightarrow> fm_contains (chain s' h1) k" for h1 k
    using c(2) [of h1 k] by simp
  show ?thesis
  proof (rule causal_invI)
    fix h1 k l1 d1 b
    assume l1: "fmlookup (chain s' h1) k = Some l1" and b: "bounds (chain s') pd ccs (W \<union> {h} \<times> set ds) h1 d1 b"
    have "bounds (chain s) pd ccs (insert (h, d, vc) W) h1 d1 b"
      using b by (rule bounds_antimono) (use grow vc in \<open>auto simp: c intro: vc_le_trans\<close>)
    note old = inv_chain [OF inv _ this]
    have new: "fm_entries (cc_dependency l) = ds \<Longrightarrow> h1 = h \<Longrightarrow> dep_le l d1 b"
      using b by (auto simp: dep_le_def bounds_def simp flip: set_fm_entries)
    from u show "dep_le l1 d1 b"
    proof (cases rule: use_lattice_effect)
      case kept
      then show ?thesis using old l1 by simp
    next
      case (added addrs l')
      then show ?thesis
        using old l1 new by (auto split: if_splits option.splits intro: dep_le_merge)
    qed
  next
    fix h1 d1 v assume "pd h1 d1 v" "(d1, v) \<notin> R"
    then show "d1 |\<in>| tf h1 \<and> fm_contains (chain s' h1) h1" using inv_pending [OF inv] contains by blast
  next
    fix h1 assume "chain s' h1 \<noteq> fmempty"
    then show "fm_contains (chain s' h1) h1" using inv_head [OF inv] h contains other by (cases "h1 = h") auto
  next
    fix h1 k show "vc_le (clk (chain s' h1) k) (clk unm k)"
      using inv_unmerged [OF inv] l by (auto simp: c intro: vc_merge_least)
  next
    fix d1 v h1 assume "(d1, v) \<in> R" "pd h1 d1 v"
    then have "chain s h1 = fmempty \<or> vc_le v (clk (chain s h1) d1)" by (rule inv_covered [OF inv])
    moreover have "chain s h1 = fmempty \<Longrightarrow> chain s' h1 = fmempty" using h other by (cases "h1 = h") auto
    ultimately show "chain s' h1 = fmempty \<or> vc_le v (clk (chain s' h1) d1)"
      using grow vc_le_trans by blast
  qed (rule causal_invD [OF inv]; assumption)+
qed

section \<open>The dependency check\<close>

definition waits :: "causal_cache \<Rightarrow> Key \<Rightarrow> Key \<Rightarrow> VectorClock \<Rightarrow> bool" where
  "waits s h d v \<longleftrightarrow> h |\<in>| fm_at {||} (fm_at fmempty (cover_map s) d) v"

definition fetching :: "causal_cache \<Rightarrow> Key \<Rightarrow> Key fset" where
  "fetching s h = fm_at {||} (to_fetch_map s) h"

abbreviation cache_inv :: "causal_cache \<Rightarrow> todo \<Rightarrow> (Key \<times> VectorClock) set \<Rightarrow> bool" where
  "cache_inv s \<equiv> causal_inv (chain s) (fetching s) (waits s) (causal_cut_store s) (unmerged_store s)"

definition covers :: "causal_cache \<Rightarrow> Key \<Rightarrow> Key \<Rightarrow> VectorClock \<Rightarrow> bool" where
  "covers s h d v \<longleftrightarrow> vc_le v (clk (causal_cut_store s) d) \<or> vc_le v (clk (chain s h) d) \<or> waits s h d v"

definition grows :: "Key \<Rightarrow> causal_cache \<Rightarrow> causal_cache \<Rightarrow> bool" where
  "grows h s s' \<longleftrightarrow> causal_cut_store s' = causal_cut_store s \<and> unmerged_store s' = unmerged_store s \<and>
     (\<forall>h1. h1 \<noteq> h \<longrightarrow> chain s' h1 = chain s h1) \<and>
     (\<forall>k. vc_le (clk (chain s h) k) (clk (chain s' h) k)) \<and>
     (\<forall>k. fm_contains (chain s h) k \<longrightarrow> fm_contains (chain s' h) k) \<and>
     (\<forall>d v. waits s h d v \<longrightarrow> waits s' h d v)"

lemma grows_refl [simp]: "grows h s s"
  by (simp add: grows_def)

lemma grows_trans: "grows h s s' \<Longrightarrow> grows h s' s'' \<Longrightarrow> grows h s s''"
  unfolding grows_def by (auto intro: vc_le_trans)

lemma covers_grows: "covers s h d v \<Longrightarrow> grows h s s' \<Longrightarrow> covers s' h d v"
  unfolding covers_def grows_def by (metis vc_le_trans)

lemma check_dependency_inv:
  assumes step: "check_dependency E h (d, vc) s = Inr (ds, s')" and h: "fm_contains (chain s h) h"
    and inv: "cache_inv s (insert (h, d, vc) W) R"
  shows "cache_inv s' (W \<union> {h} \<times> set ds) R \<and> grows h s s' \<and> covers s' h d vc"
  using step
proof (cases rule: check_dependency_cases)
  case cut
  have "cache_inv s W R"
    using cut(3) by (intro causal_inv_cover [OF inv]) (auto simp: clock_covered_iff)
  then show ?thesis using cut by (simp add: covers_def clock_covered_iff)
next
  case (held l)
  note c = use_lattice_clocks [OF held(1)]
  have frame: "causal_cut_store s' = causal_cut_store s" "waits s' = waits s" "fetching s' = fetching s"
    using held(1) by (cases rule: use_lattice_effect; simp add: waits_def fetching_def fun_eq_iff)+
  have "vc_le (cc_vector_clock l) (clk (unmerged_store s) d)"
    using held(3) inv_unmerged [OF inv, of _ d] by (metis clk_Some vc_le_refl)
  from inv_use [OF inv held(1,2) this h] have "cache_inv s' (W \<union> {h} \<times> set ds) R"
    by (simp add: frame c)
  moreover have "grows h s s'"
    using held(1) unfolding grows_def frame c by (cases rule: use_lattice_effect) (auto simp: clk_def)
  moreover have "covers s' h d vc"
    using held(2) vc_le_merge(2) vc_le_trans by (auto simp: covers_def c)
  ultimately show ?thesis by simp
next
  case (fetch c)
  have frame: "chain s' = chain s" "causal_cut_store s' = causal_cut_store s" "unmerged_store s' = unmerged_store s"
    "fetching s' = (fetching s)(h := finsert d (fetching s h))"
    "waits s' = (\<lambda>h' d' v. waits s h' d' v \<or> h' = h \<and> d' = d \<and> v = vc)"
    by (auto simp: fetch(4) fetching_def waits_def fun_eq_iff)
  have "cache_inv s' (insert (h, d, vc) W) R"
    unfolding frame using fetch(3) by (intro inv_fetch inv h) (simp add: clock_covered_iff)
  then have "cache_inv s' W R" by (rule causal_inv_cover) (auto simp: frame)
  then show ?thesis using fetch(1) by (auto simp: frame grows_def covers_def)
qed

lemma check_dependencies_inv:
  assumes "check_dependencies E h xs s = Inr s'" "fm_contains (chain s h) h" "cache_inv s (W \<union> {h} \<times> set xs) R"
  shows "cache_inv s' W R \<and> grows h s s' \<and> (\<forall>(d, v) \<in> set xs. covers s' h d v)"
  using assms
proof (induction E h xs s rule: check_dependencies.induct)
  case (1 E h s)
  then show ?case by simp
next
  case (2 E h x rest s)
  obtain d vc where x: "x = (d, vc)" by (cases x)
  obtain ds s1 where step: "check_dependency E h (d, vc) s = Inr (ds, s1)"
    and rest: "check_dependencies E h (ds @ rest) s1 = Inr s'"
    using "2.prems"(1) by (auto simp: x bindr_Inr_iff)
  have "cache_inv s (insert (h, d, vc) (W \<union> {h} \<times> set rest)) R"
    using "2.prems"(3) by (rule causal_inv_cover) (auto simp: x)
  note s1 = check_dependency_inv [OF step "2.prems"(2) this]
  have "cache_inv s1 (W \<union> {h} \<times> set (ds @ rest)) R"
    using conjunct1 [OF s1] by (rule causal_inv_cover) auto
  moreover have "fm_contains (chain s1 h) h" using s1 "2.prems"(2) by (auto simp: grows_def)
  ultimately have "cache_inv s' W R \<and> grows h s1 s' \<and> (\<forall>(d, v) \<in> set (ds @ rest). covers s' h d v)"
    using "2.IH" [OF step [folded x] refl rest] by blast
  then show ?case using s1 by (auto simp: x intro: grows_trans covers_grows)
qed

text \<open>When all dependencies are in the cut there is nothing to do.\<close>

lemma check_dependencies_done:
  assumes "\<And>d v. (d, v) \<in> set xs \<Longrightarrow> v \<noteq> fmempty \<and> vc_le v (clk (causal_cut_store s) d)"
  shows "check_dependencies E h xs s = Inr s"
  using assms
proof (induction xs)
  case (Cons x xs)
  obtain d v where x: "x = (d, v)" by (cases x)
  have "clock_covered (causal_cut_store s) d v"
    using Cons.prems [of d v] by (auto simp: x clock_covered_iff clk_def split: option.splits)
  moreover have "check_dependencies E h xs s = Inr s" by (rule Cons.IH, rule Cons.prems, simp)
  ultimately show ?case by (simp add: x check_dependency_def)
qed simp

section \<open>Merging into the cut\<close>

definition cache_view :: "causal_cache \<Rightarrow> StoreType \<times> InPreparationType \<times> StoreType \<times> (Key, Key fset) fmap \<times>
    (Key, (VectorClock, Key fset) fmap) fmap" where
  "cache_view s = (unmerged_store s, in_preparation s, causal_cut_store s, to_fetch_map s, cover_map s)"

lemma cache_view_eq:
  assumes "cache_view s' = cache_view s"
  shows "chain s' = chain s" "fetching s' = fetching s" "waits s' = waits s" "causal_cut_store s' = causal_cut_store s"
    "unmerged_store s' = unmerged_store s" "in_preparation s' = in_preparation s" "to_fetch_map s' = to_fetch_map s"
    "cover_map s' = cover_map s"
  using assms by (simp_all add: cache_view_def chain_def fetching_def waits_def fun_eq_iff)

lemma cache_view_frame [simp]:
  "cache_view (cache_send a m s) = cache_view s" "cache_view (s\<lparr>version_store := x1\<rparr>) = cache_view s"
  "cache_view (s\<lparr>pending_cross_metadata := x2\<rparr>) = cache_view s" "cache_view (s\<lparr>pending_single_metadata := x3\<rparr>) = cache_view s"
  "cache_view (s\<lparr>client_id_to_address_map := x4\<rparr>) = cache_view s" "cache_view (s\<lparr>request_id_to_address_map := x5\<rparr>) = cache_view s"
  "cache_view (s\<lparr>single_callback_map := x6\<rparr>) = cache_view s" "cache_view (s\<lparr>kvs := x7\<rparr>) = cache_view s"
  "cache_view (s\<lparr>cache_key_set := x8\<rparr>) = cache_view s" "cache_view (s\<lparr>report_start := x9\<rparr>) = cache_view s"
  "cache_view (s\<lparr>migrate_start := x10\<rparr>) = cache_view s"
  by (simp_all add: cache_view_def cache_send_def)

lemma fold_cache_send_view [simp]:
  "cache_view (fold (\<lambda>(addr, q). cache_send addr (f q)) xs s) = cache_view s"
  by (induction xs arbitrary: s) (auto simp: case_prod_unfold)

lemma answer_cross_view: "answer_cross E addr s = Inr s' \<Longrightarrow> cache_view s' = cache_view s"
  by (auto simp: answer_cross_def respond_to_client_def fire_remote_read_requests_def bindr_Inr_iff Let_def split: if_splits)

lemma notify_client_view: "notify_client E key dne addr s = Inr s' \<Longrightarrow> cache_view s' = cache_view s"
  by (auto simp: notify_client_def Let_def dest!: answer_cross_view split: option.splits if_splits)

lemma for_each_same:
  assumes "for_each f xs s = Inr s'" "\<And>x s s'. f x s = Inr s' \<Longrightarrow> g s' = g s"
  shows "g s' = g s"
  using for_each_invariant [OF assms(1), where P = "\<lambda>t. g t = g s"] assms(2) by simp

lemmas for_each_view = for_each_same [where g = cache_view]

lemma inv_merge:
  assumes inv: "causal_inv ch tf pd ccs unm W R" and tf: "tf h = {||}" and W: "\<And>d v. (h, d, v) \<notin> W"
    and merged: "fold merge_version (fm_entries (ch h)) (dne, ccs) = (dne', ccs')"
  shows "causal_inv (ch(h := fmempty)) tf pd ccs' unm W R" and "clk ccs' k = vc_merge (clk ccs k) (clk (ch h) k)"
proof -
  note m = merge_versions [OF merged distinct_fm_entries]
  have clk: "clk ccs' k = vc_merge (clk ccs k) (clk (ch h) k)" for k
    using m(1) [of k] by (simp add: clk_def)
  show "clk ccs' k = vc_merge (clk ccs k) (clk (ch h) k)" by (rule clk)
  have b: "bounds ch pd ccs W h d (clk ccs' d)" if "ch h \<noteq> fmempty" for d
    unfolding bounds_def
  proof (intro conjI allI impI)
    fix v assume pd: "pd h d v"
    then have "(d, v) \<in> R" using inv_pending [OF inv pd] tf by auto
    then have "vc_le v (clk (ch h) d)" using inv_covered [OF inv _ pd] that by blast
    then show "vc_le v (clk ccs' d)" unfolding clk using vc_le_merge(2) vc_le_trans by blast
  qed (use W in \<open>auto simp: clk\<close>)
  show "causal_inv (ch(h := fmempty)) tf pd ccs' unm W R"
  proof (rule causal_invI)
    fix h1 k l d b
    assume l: "fmlookup ((ch(h := fmempty)) h1) k = Some l" and b: "bounds (ch(h := fmempty)) pd ccs' W h1 d b"
    then have "h1 \<noteq> h" by auto
    with b have "bounds ch pd ccs W h1 d b" by - (rule bounds_antimono, assumption, auto simp: clk)
    with l \<open>h1 \<noteq> h\<close> show "dep_le l d b" by (auto intro: inv_chain [OF inv])
  next
    fix h1 d v assume "pd h1 d v" "(d, v) \<notin> R"
    then show "d |\<in>| tf h1 \<and> fm_contains ((ch(h := fmempty)) h1) h1" using inv_pending [OF inv] tf by fastforce
  next
    fix k l d assume l: "fmlookup ccs' k = Some l"
    show "dep_le l d (clk ccs' d)"
    proof (rule m(2) [OF l])
      fix l0 assume "fmlookup ccs k = Some l0"
      then show "dep_le l0 d (clk ccs' d)" using dep_le_mono [OF inv_cut [OF inv]] by (simp add: clk)
    next
      fix l0 assume "map_of (fm_entries (ch h)) k = Some l0"
      then have "fmlookup (ch h) k = Some l0" by simp
      then show "dep_le l0 d (clk ccs' d)" using inv_chain [OF inv] b by fastforce
    qed
  qed (use causal_invD [OF inv] in \<open>auto split: if_splits\<close>)
qed

lemma merge_into_causal_cut_inv:
  assumes run: "merge_into_causal_cut E h s = Inr s'" and inv: "cache_inv s W R"
    and "fetching s h = {||}" and "\<And>d v. (h, d, v) \<notin> W"
  shows "cache_inv s' W R \<and> chain s' = (chain s)(h := fmempty) \<and> unmerged_store s' = unmerged_store s \<and>
    to_fetch_map s' = to_fetch_map s \<and> (\<forall>k. clk (causal_cut_store s') k = vc_merge (clk (causal_cut_store s) k) (clk (chain s h) k))"
proof -
  obtain addrs dne ccs' s1 where p: "fm_at ({||}, fmempty) (in_preparation s) h = (addrs, chain s h)"
    and fold: "fold merge_version (fm_entries (chain s h)) (False, causal_cut_store s) = (dne, ccs')"
    and each: "for_each (notify_client E h dne) (fs_elems addrs) (s\<lparr>causal_cut_store := ccs'\<rparr>) = Inr s1"
    and s': "s' = s1\<lparr>in_preparation := fmdrop h (in_preparation s1)\<rparr>"
    using run by (auto simp: merge_into_causal_cut_def bindr_Inr_iff Let_def chain_def split: prod.splits)
  note v = cache_view_eq [OF for_each_view [OF each notify_client_view]]
  have "chain s' = (chain s)(h := fmempty)" "fetching s' = fetching s" "waits s' = waits s"
    using v by (auto simp: s' fun_eq_iff chain_def fetching_def waits_def)
  then show ?thesis
    using inv_merge [OF inv assms(3) assms(4) fold] v by (simp add: s')
qed

lemma settle_head_inv:
  assumes run: "settle_head E h s = Inr s'" and inv: "cache_inv s W R" and W: "\<And>d v. (h, d, v) \<notin> W"
  shows "cache_inv s' W R \<and> unmerged_store s' = unmerged_store s \<and> (\<forall>h1. h1 \<noteq> h \<longrightarrow> chain s' h1 = chain s h1) \<and>
    (\<forall>k. vc_le (clk (causal_cut_store s) k) (clk (causal_cut_store s') k)) \<and>
    (if fetching s h = {||} then chain s' h = fmempty \<and> (\<forall>k. vc_le (clk (chain s h) k) (clk (causal_cut_store s') k)) else s' = s)"
proof (cases "fetching s h = {||}")
  case False
  then show ?thesis using run inv by (auto simp: settle_head_def fetching_def)
next
  case True
  then obtain s1 where s1: "merge_into_causal_cut E h s = Inr s1" and s': "s' = s1\<lparr>to_fetch_map := fmdrop h (to_fetch_map s1)\<rparr>"
    using run by (auto simp: settle_head_def fetching_def bindr_Inr_iff)
  note m = merge_into_causal_cut_inv [OF s1 inv True W]
  have "fetching s' = fetching s1" "waits s' = waits s1"
    using True m by (auto simp: s' fetching_def waits_def fun_eq_iff)
  then show ?thesis using m True by (auto simp: s')
qed

section \<open>Changes of the other parts\<close>

lemma chain_put_chain [simp]: "chain (chain_put h k l s) = (chain s)(h := fmupd k l (chain s h))"
  by (auto simp: chain_put_def chain_def fm_modify_def fun_eq_iff case_prod_unfold)

lemma chain_put_frame [simp]:
  "fetching (chain_put h k l s) = fetching s" "waits (chain_put h k l s) = waits s"
  "causal_cut_store (chain_put h k l s) = causal_cut_store s" "unmerged_store (chain_put h k l s) = unmerged_store s"
  "cover_map (chain_put h k l s) = cover_map s" "to_fetch_map (chain_put h k l s) = to_fetch_map s"
  by (simp_all add: chain_put_def fetching_def waits_def fun_eq_iff)

text \<open>A version is put in the chains of the heads \<open>H\<close>; its dependencies are to be checked for each.\<close>

definition todo_for :: "Key set \<Rightarrow> CrossCausalPayload \<Rightarrow> todo" where
  "todo_for H l = {(h, d, v). h \<in> H \<and> fmlookup (cc_dependency l) d = Some v}"

lemma todo_for_empty [simp]: "todo_for {} l = {}"
  by (simp add: todo_for_def)

lemma todo_for_single: "todo_for {h} l = {h} \<times> set (fm_entries (cc_dependency l))"
  by (auto simp: todo_for_def set_fm_entries)

lemma inv_chain_puts:
  assumes inv: "causal_inv ch tf pd ccs unm W {}" and unm: "vc_le (cc_vector_clock l) (clk unm k)"
    and l: "\<And>h. h \<in> H \<Longrightarrow> vc_le (clk (ch h) k) (cc_vector_clock l)"
    and h: "\<And>h. h \<in> H \<Longrightarrow> h = k \<or> fm_contains (ch h) h"
  shows "causal_inv (\<lambda>h. if h \<in> H then fmupd k l (ch h) else ch h) tf pd ccs unm (W \<union> todo_for H l) {}"
proof (rule causal_invI)
  fix h1 k1 l1 d b
  assume l1: "fmlookup (if h1 \<in> H then fmupd k l (ch h1) else ch h1) k1 = Some l1"
    and b: "bounds (\<lambda>h. if h \<in> H then fmupd k l (ch h) else ch h) pd ccs (W \<union> todo_for H l) h1 d b"
  show "dep_le l1 d b"
  proof (cases "h1 \<in> H \<and> k1 = k")
    case True
    then show ?thesis using l1 b by (auto simp: dep_le_def bounds_def todo_for_def)
  next
    case False
    from b have "bounds ch pd ccs W h1 d b" by - (rule bounds_antimono, assumption, auto simp: l)
    moreover have "fmlookup (ch h1) k1 = Some l1" using l1 False by (auto split: if_splits)
    ultimately show ?thesis by (intro inv_chain [OF inv])
  qed
next
  fix h1 d v assume "pd h1 d v"
  then show "d |\<in>| tf h1 \<and> fm_contains (if h1 \<in> H then fmupd k l (ch h1) else ch h1) h1"
    using inv_pending [OF inv, of h1 d v] by auto
next
  fix h1 assume "(if h1 \<in> H then fmupd k l (ch h1) else ch h1) \<noteq> fmempty"
  then show "fm_contains (if h1 \<in> H then fmupd k l (ch h1) else ch h1) h1"
    using h [of h1] inv_head [OF inv, of h1] by (cases "h1 \<in> H") auto
qed (use inv_cut [OF inv] inv_unmerged [OF inv] inv_real [OF inv] unm in auto)

lemma inv_arrived:
  assumes inv: "causal_inv ch tf pd ccs unm W {}"
    and R: "\<And>d v. (d, v) \<in> R \<Longrightarrow> fm_contains unm d \<and> vc_le v (clk unm d)"
      "\<And>d v h. (d, v) \<in> R \<Longrightarrow> pd h d v \<Longrightarrow> vc_le v (clk (ch h) d)"
    and tf: "\<And>h d v. pd h d v \<Longrightarrow> (d, v) \<notin> R \<Longrightarrow> d |\<in>| tf' h"
  shows "causal_inv ch tf' pd ccs unm W R"
proof (rule causal_invI)
  fix h d v assume "pd h d v" "(d, v) \<notin> R"
  then show "d |\<in>| tf' h \<and> fm_contains (ch h) h" using tf inv_pending [OF inv, of h d v] by auto
next
  fix d v h assume "(d, v) \<in> R" "pd h d v"
  then show "ch h = fmempty \<or> vc_le v (clk (ch h) d)" using R(2) by blast
qed ((rule causal_invD [OF inv] R(1); assumption))+

lemma inv_clear_tf:
  assumes inv: "causal_inv ch tf pd ccs unm W {}" and h: "\<not> fm_contains (ch h) h"
  shows "causal_inv ch (tf(h := {||})) pd ccs unm W {}"
proof (rule inv_arrived [OF inv])
  fix h1 d v assume "pd h1 d v"
  then show "d |\<in>| (tf(h := {||})) h1" using inv_pending [OF inv, of h1 d v] h by (cases "h1 = h") auto
qed simp_all

lemma inv_uncover:
  assumes inv: "causal_inv ch tf pd ccs unm W R" and R: "(k, vc) \<in> R"
  shows "causal_inv ch tf (\<lambda>h d v. pd h d v \<and> (d, v) \<noteq> (k, vc)) ccs unm W (R - {(k, vc)})"
proof (rule causal_invI)
  fix h k1 l d b
  assume l: "fmlookup (ch h) k1 = Some l" and b: "bounds ch (\<lambda>h d v. pd h d v \<and> (d, v) \<noteq> (k, vc)) ccs W h d b"
  have "vc_le vc (clk (ch h) k)" if "pd h k vc"
    using inv_covered [OF inv R that] l by auto
  with b have "bounds ch pd ccs W h d b" by - (rule bounds_antimono, assumption, auto)
  with l show "dep_le l d b" by (rule inv_chain [OF inv])
next
  fix h d v assume "pd h d v \<and> (d, v) \<noteq> (k, vc)" "(d, v) \<notin> R - {(k, vc)}"
  then show "d |\<in>| tf h \<and> fm_contains (ch h) h" using inv_pending [OF inv, of h d v] by blast
next
  fix d v h assume "(d, v) \<in> R - {(k, vc)}" "pd h d v \<and> (d, v) \<noteq> (k, vc)"
  then show "ch h = fmempty \<or> vc_le v (clk (ch h) d)" using inv_covered [OF inv] by blast
qed (use inv_cut [OF inv] inv_head [OF inv] inv_unmerged [OF inv] inv_real [OF inv] inv_held [OF inv] in auto)

lemma inv_unmerged_update:
  assumes inv: "causal_inv ch tf pd ccs unm W {}" and "\<And>k. vc_le (clk unm k) (clk unm' k)"
    and "\<And>k l. fmlookup unm' k = Some l \<Longrightarrow> deps_real l"
  shows "causal_inv ch tf pd ccs unm' W {}"
proof (rule causal_invI)
  fix h k show "vc_le (clk (ch h) k) (clk unm' k)" using inv_unmerged [OF inv] assms(2) by (rule vc_le_trans)
qed ((rule causal_invD [OF inv] assms(3); assumption) | simp)+

lemma inv_store_merge:
  assumes inv: "causal_inv ch tf pd ccs unm W {}" and "deps_real l"
  shows "causal_inv ch tf pd ccs (store_merge k l unm) W {}"
  by (rule inv_unmerged_update [OF inv])
    (use inv_real [OF inv] assms(2) in \<open>auto simp: store_merge_lookup intro: deps_real_merge split: if_splits option.splits\<close>)

end
