(* ===== verification/Causal_Steps.thy ===== *)
theory Causal_Steps
  imports Causal_Laws
begin

text \<open>Every handler of the causal cache preserves the invariant of \<open>Causal_Laws\<close>.\<close>

section \<open>Starting a chain\<close>

lemma start_chain_inv:
  assumes run: "recursive_dependency_check E key l (chain_put key key l s) = Inr s'"
    and inv: "cache_inv s {} {}"
    and l: "vc_le (clk (chain s key) key) (cc_vector_clock l)" "vc_le (cc_vector_clock l) (clk (unmerged_store s) key)"
  shows "cache_inv s' {} {} \<and> unmerged_store s' = unmerged_store s"
proof -
  let ?s = "chain_put key key l s"
  have "chain ?s = (\<lambda>h. if h \<in> {key} then fmupd key l (chain s h) else chain s h)" by (simp add: fun_eq_iff)
  with inv_chain_puts [OF inv l(2), of "{key}"] l(1)
  have "cache_inv ?s ({} \<union> {key} \<times> set (fm_entries (cc_dependency l))) {}"
    by (simp add: todo_for_single)
  from check_dependencies_inv [OF run [unfolded recursive_dependency_check_def] _ this]
  have "cache_inv s' {} {}" and g: "grows key ?s s'" by simp_all
  moreover have "unmerged_store s' = unmerged_store s" using g by (simp add: grows_def)
  ultimately show ?thesis by blast
qed

lemma start_and_settle_inv:
  assumes run: "bindr (recursive_dependency_check E key l (chain_put key key l s)) (settle_head E key) = Inr s'"
    and inv: "cache_inv s {} {}"
    and l: "vc_le (clk (chain s key) key) (cc_vector_clock l)" "vc_le (cc_vector_clock l) (clk (unmerged_store s) key)"
  shows "cache_inv s' {} {} \<and> unmerged_store s' = unmerged_store s"
proof -
  obtain s1 where "recursive_dependency_check E key l (chain_put key key l s) = Inr s1" and settle: "settle_head E key s1 = Inr s'"
    using run by (auto simp: bindr_Inr_iff)
  from start_chain_inv [OF this(1) inv l] have "cache_inv s1 {} {}" "unmerged_store s1 = unmerged_store s" by blast+
  with settle_head_inv [OF settle this(1)] show ?thesis by auto
qed

section \<open>A version arrives\<close>

lemma cache_get_async_view: "cache_get_async E key s = Inr s' \<Longrightarrow> cache_view s' = cache_view s"
  by (auto simp: cache_get_async_def bindr_Inr_iff)

lemma cache_inv_view:
  assumes "cache_view s' = cache_view s" "cache_inv s W R"
  shows "cache_inv s' W R"
  using assms(2) by (simp add: cache_view_eq [OF assms(1)])

lemma notify_single_view: "notify_single E key addr s = Inr s' \<Longrightarrow> cache_view s' = cache_view s"
  by (auto simp: notify_single_def bindr_Inr_iff Let_def split: if_splits)

lemma update_unmerged_inv:
  assumes run: "update_unmerged E key l s = Inr s'" and inv: "cache_inv s {} {}" and l: "deps_real l"
  shows "cache_inv s' {} {} \<and> fm_contains (unmerged_store s') key"
proof -
  let ?s = "s\<lparr>unmerged_store := store_merge key l (unmerged_store s)\<rparr>"
  have view: "cache_view s' = cache_view ?s"
    using run by (auto simp: update_unmerged_def bindr_Inr_iff Let_def dest!: for_each_view [OF _ notify_single_view]
        split: if_splits option.splits)
  have "chain ?s = chain s" "fetching ?s = fetching s" "waits ?s = waits s"
    by (simp_all add: chain_def fetching_def waits_def fun_eq_iff)
  then have "cache_inv ?s {} {}"
    using inv_store_merge [OF inv l] by simp
  then show ?thesis
    using cache_inv_view [OF view] cache_view_eq(5) [OF view] by (simp add: store_merge_lookup)
qed

lemma prepare_queried_inv:
  assumes run: "prepare_queried E key s = Inr s'" and inv: "cache_inv s {} {}"
  shows "cache_inv s' {} {} \<and> unmerged_store s' = unmerged_store s"
proof (cases "fmlookup (to_fetch_map s) key = Some {||}")
  case True
  then obtain l where l: "fmlookup (unmerged_store s) key = Some l"
    and r: "bindr (recursive_dependency_check E key l (chain_put key key l s)) (settle_head E key) = Inr s'"
    using run by (auto simp: prepare_queried_def store_deref_def bindr_Inr_iff split: option.splits)
  have "vc_le (clk (chain s key) key) (cc_vector_clock l)"
    using inv_unmerged [OF inv, of key key] by (simp add: clk_Some [OF l])
  then show ?thesis by (rule start_and_settle_inv [OF r inv]) (simp add: clk_Some [OF l])
next
  case False
  then show ?thesis using run inv by (simp add: prepare_queried_def)
qed

subsection \<open>Dependencies that the version covers\<close>

lemma cover_head_fold:
  "\<exists>rem' may' s'. fold (cover_head key l vc) hs (rem, ns, may, s) = (rem', ns, may', s') \<and>
     (\<forall>v h. h |\<in>| fm_at {||} rem' v \<longleftrightarrow> h |\<in>| fm_at {||} rem v \<or> v = vc \<and> h \<in> set hs) \<and>
     (\<forall>v. fm_contains rem' v \<longrightarrow> fm_contains rem v \<or> v = vc) \<and>
     (\<forall>h. h |\<in>| may' \<longleftrightarrow> h |\<in>| may \<or> h \<in> set hs) \<and>
     (\<forall>h. chain s' h = (if h \<in> set hs then fmupd key l (chain s h) else chain s h)) \<and>
     fetching s' = fetching s \<and> cover_map s' = cover_map s \<and> causal_cut_store s' = causal_cut_store s \<and>
     unmerged_store s' = unmerged_store s"
proof (induction hs arbitrary: rem may s)
  case Nil
  show ?case by simp
next
  case (Cons h hs)
  let ?s = "(chain_put h key l s)\<lparr>to_fetch_map := fm_touch {||} h (to_fetch_map s)\<rparr>"
  have frame: "chain ?s = (chain s)(h := fmupd key l (chain s h))" "fetching ?s = fetching s"
    "cover_map ?s = cover_map s" "causal_cut_store ?s = causal_cut_store s" "unmerged_store ?s = unmerged_store s"
    by simp_all (simp add: fetching_def fun_eq_iff)
  obtain rem' may' s' where r: "fold (cover_head key l vc) hs (fm_modify {||} vc (finsert h) rem, ns, finsert h may, ?s) = (rem', ns, may', s')"
    and p: "\<forall>v h1. h1 |\<in>| fm_at {||} rem' v \<longleftrightarrow> h1 |\<in>| fm_at {||} (fm_modify {||} vc (finsert h) rem) v \<or> v = vc \<and> h1 \<in> set hs"
      "\<forall>v. fm_contains rem' v \<longrightarrow> fm_contains (fm_modify {||} vc (finsert h) rem) v \<or> v = vc"
      "\<forall>h1. h1 |\<in>| may' \<longleftrightarrow> h1 |\<in>| finsert h may \<or> h1 \<in> set hs"
      "\<forall>h1. chain s' h1 = (if h1 \<in> set hs then fmupd key l (chain ?s h1) else chain ?s h1)"
      "fetching s' = fetching ?s" "cover_map s' = cover_map ?s" "causal_cut_store s' = causal_cut_store ?s"
      "unmerged_store s' = unmerged_store ?s"
    using Cons.IH [of "fm_modify {||} vc (finsert h) rem" "finsert h may" ?s] by blast
  have "fold (cover_head key l vc) (h # hs) (rem, ns, may, s) = (rem', ns, may', s')"
    using r by (simp add: cover_head_def)
  then show ?case
    using p by (intro exI [of _ rem'] exI [of _ may'] exI [of _ s']) (auto simp: frame split: if_splits)
qed

definition satisfied :: "VectorClock \<Rightarrow> (VectorClock \<times> Key fset) list \<Rightarrow> VectorClock \<Rightarrow> Key \<Rightarrow> bool" where
  "satisfied b es v h \<longleftrightarrow> vc_le v b \<and> (\<exists>hs. (v, hs) \<in> set es \<and> h |\<in>| hs)"

lemma cover_scan:
  assumes "for_each (cover_clock key) es (rem, ns, may, s) = Inr (rem', ns', may', s')" "fmlookup (unmerged_store s) key = Some l"
  shows "(\<forall>v h. h |\<in>| fm_at {||} rem' v \<longleftrightarrow> h |\<in>| fm_at {||} rem v \<or> satisfied (cc_vector_clock l) es v h) \<and>
     (\<forall>v. fm_contains rem' v \<longrightarrow> fm_contains rem v \<or> vc_le v (cc_vector_clock l)) \<and>
     (\<forall>h. h |\<in>| may' \<longleftrightarrow> h |\<in>| may \<or> (\<exists>v. satisfied (cc_vector_clock l) es v h)) \<and>
     (\<forall>h. h |\<in>| ns' \<longleftrightarrow> h |\<in>| ns \<or> (\<exists>v hs. (v, hs) \<in> set es \<and> h |\<in>| hs \<and> \<not> vc_le v (cc_vector_clock l))) \<and>
     (\<forall>h. chain s' h = (if \<exists>v. satisfied (cc_vector_clock l) es v h then fmupd key l (chain s h) else chain s h)) \<and>
     fetching s' = fetching s \<and> cover_map s' = cover_map s \<and> causal_cut_store s' = causal_cut_store s \<and>
     unmerged_store s' = unmerged_store s"
  using assms
proof (induction es arbitrary: rem ns may s)
  case Nil
  then show ?case by (simp add: satisfied_def)
next
  case (Cons e es)
  obtain vc heads where e: "e = (vc, heads)" by (cases e)
  show ?case
  proof (cases "vc_le vc (cc_vector_clock l)")
    case True
    obtain rem1 may1 s1 where r: "fold (cover_head key l vc) (fs_elems heads) (rem, ns, may, s) = (rem1, ns, may1, s1)"
      and p: "\<forall>v h. h |\<in>| fm_at {||} rem1 v \<longleftrightarrow> h |\<in>| fm_at {||} rem v \<or> v = vc \<and> h \<in> set (fs_elems heads)"
        "\<forall>v. fm_contains rem1 v \<longrightarrow> fm_contains rem v \<or> v = vc"
        "\<forall>h. h |\<in>| may1 \<longleftrightarrow> h |\<in>| may \<or> h \<in> set (fs_elems heads)"
        "\<forall>h. chain s1 h = (if h \<in> set (fs_elems heads) then fmupd key l (chain s h) else chain s h)"
        "fetching s1 = fetching s" "cover_map s1 = cover_map s" "causal_cut_store s1 = causal_cut_store s"
        "unmerged_store s1 = unmerged_store s"
      using cover_head_fold [of key l vc "fs_elems heads" rem ns may s] by blast
    have "for_each (cover_clock key) es (rem1, ns, may1, s1) = Inr (rem', ns', may', s')"
      using Cons.prems r True by (simp add: e cover_clock_def store_at_def comparison_cases)
    note ih = Cons.IH [OF this]
    have cont: "fm_contains rem' v \<longrightarrow> fm_contains rem v \<or> vc_le v (cc_vector_clock l)" for v
      using ih p(2,8) Cons.prems(2) True by metis
    have sat: "satisfied (cc_vector_clock l) (e # es) v h \<longleftrightarrow> v = vc \<and> h |\<in>| heads \<or> satisfied (cc_vector_clock l) es v h" for v h
      using True by (auto simp: satisfied_def e)
    show ?thesis using ih p(1,3-) cont Cons.prems(2) True unfolding sat by (auto simp: e)
  next
    case False
    have "for_each (cover_clock key) es (rem, fold finsert (fs_elems heads) ns, may, s) = Inr (rem', ns', may', s')"
      using Cons.prems False by (simp add: e cover_clock_def store_at_def comparison_cases)
    note ih = Cons.IH [OF this Cons.prems(2)]
    have sat: "satisfied (cc_vector_clock l) (e # es) v h \<longleftrightarrow> satisfied (cc_vector_clock l) es v h" for v h
      using False by (auto simp: satisfied_def e)
    show ?thesis using ih False unfolding sat by (auto simp: e fold_finsert fset_of_list_elem)
  qed
qed

lemma drop_fetched_fold:
  "fetching (fold (drop_fetched key ns) hs s) h = (if h \<in> set hs \<and> h |\<notin>| ns then fetching s h |-| {|key|} else fetching s h)"
  "chain (fold (drop_fetched key ns) hs s) = chain s" "cover_map (fold (drop_fetched key ns) hs s) = cover_map s"
  "causal_cut_store (fold (drop_fetched key ns) hs s) = causal_cut_store s"
  "unmerged_store (fold (drop_fetched key ns) hs s) = unmerged_store s"
proof (induction hs arbitrary: s)
  case (Cons h1 hs)
  case 1 show ?case using Cons by (auto simp: drop_fetched_def fetching_def)
  case 2 show ?case using Cons by (simp add: drop_fetched_def)
  case 3 show ?case using Cons by (simp add: drop_fetched_def)
  case 4 show ?case using Cons by (simp add: drop_fetched_def)
  case 5 show ?case using Cons by (simp add: drop_fetched_def)
qed simp_all

definition ready :: "CrossCausalPayload \<Rightarrow> causal_cache \<Rightarrow> Key \<Rightarrow> bool" where
  "ready l s h \<longleftrightarrow> fm_contains (chain s h) h \<or>
     chain s h = fmempty \<and> (\<forall>d v. fmlookup (cc_dependency l) d = Some v \<longrightarrow> vc_le v (clk (causal_cut_store s) d))"

text \<open>After the check of a head key its dependencies are covered, whether or not it is checked again.\<close>

lemma check_covers:
  assumes run: "recursive_dependency_check E h l s = Inr s1" and inv: "cache_inv s (todo_for (insert h H) l) R"
    and l: "deps_real l" and r: "ready l s h"
  shows "cache_inv s1 (todo_for (H - {h}) l) R \<and> grows h s s1 \<and> ready l s1 h \<and>
    (\<forall>d v. fmlookup (cc_dependency l) d = Some v \<longrightarrow> covers s1 h d v)"
proof (cases "fm_contains (chain s h) h")
  case True
  have "cache_inv s (todo_for (H - {h}) l \<union> {h} \<times> set (fm_entries (cc_dependency l))) R"
    using inv by (rule causal_inv_cover) (auto simp: todo_for_def set_fm_entries)
  from check_dependencies_inv [OF run [unfolded recursive_dependency_check_def] True this]
  have "cache_inv s1 (todo_for (H - {h}) l) R" "grows h s s1" "\<forall>(d, v) \<in> set (fm_entries (cc_dependency l)). covers s1 h d v"
    by blast+
  with True show ?thesis by (auto simp: ready_def grows_def set_fm_entries)
next
  case False
  with r have in_cut: "vc_le v (clk (causal_cut_store s) d)" if "fmlookup (cc_dependency l) d = Some v" for d v
    using that by (auto simp: ready_def)
  have "v \<noteq> fmempty" if "fmlookup (cc_dependency l) d = Some v" for d v
    using that l by (auto simp: deps_real_def)
  with in_cut have "recursive_dependency_check E h l s = Inr s"
    unfolding recursive_dependency_check_def by (intro check_dependencies_done) (auto simp: set_fm_entries)
  moreover have "cache_inv s (todo_for (H - {h}) l) R"
    using inv by (rule causal_inv_cover) (auto simp: todo_for_def in_cut)
  ultimately show ?thesis using run r in_cut by (simp add: covers_def)
qed

lemma check_head_inv:
  assumes run: "check_head E key h s = Inr s'" and l: "fmlookup (unmerged_store s) key = Some l"
    and inv: "cache_inv s (todo_for (insert h H) l) R" and r: "\<And>h1. h1 \<in> insert h H \<Longrightarrow> ready l s h1"
  shows "cache_inv s' (todo_for H l) R \<and> unmerged_store s' = unmerged_store s \<and> (\<forall>h1 \<in> H. ready l s' h1)"
proof -
  obtain s1 where check: "recursive_dependency_check E h l s = Inr s1" and settle: "settle_head E h s1 = Inr s'"
    using run l by (auto simp: check_head_def store_deref_def bindr_Inr_iff)
  have "ready l s h" using r by simp
  from check_covers [OF check inv inv_real [OF inv l] this]
  have inv1: "cache_inv s1 (todo_for (H - {h}) l) R" and g: "grows h s s1" and r1: "ready l s1 h"
    and cov: "\<And>d v. fmlookup (cc_dependency l) d = Some v \<Longrightarrow> covers s1 h d v" by blast+
  have "\<And>d v. (h, d, v) \<notin> todo_for (H - {h}) l" by (simp add: todo_for_def)
  note st = settle_head_inv [OF settle inv1 this]
  have mono: "vc_le v (clk (causal_cut_store s1) d) \<Longrightarrow> vc_le v (clk (causal_cut_store s') d)" for v d
    using st vc_le_trans by blast
  have self: "ready l s' h"
  proof (cases "fetching s1 h = {||}")
    case True
    have "vc_le v (clk (causal_cut_store s') d)" if dep: "fmlookup (cc_dependency l) d = Some v" for d v
    proof -
      have chain: "vc_le v (clk (chain s1 h) d) \<Longrightarrow> vc_le v (clk (causal_cut_store s') d)"
        using st True vc_le_trans by auto
      have "vc_le v (clk (chain s1 h) d) \<or> vc_le v (clk (causal_cut_store s1) d)" if w: "waits s1 h d v"
      proof -
        have "(d, v) \<in> R" using inv_pending [OF inv1 w] True by auto
        then show ?thesis using inv_covered [OF inv1 _ w] r1 dep by (auto simp: ready_def)
      qed
      then show ?thesis using cov [OF dep] mono chain by (auto simp: covers_def)
    qed
    then show ?thesis using st True by (simp add: ready_def)
  next
    case False
    then show ?thesis using st r1 by simp
  qed
  have "ready l s' h1" if "h1 \<in> H" for h1
  proof (cases "h1 = h")
    case False
    then have "chain s' h1 = chain s h1" "causal_cut_store s1 = causal_cut_store s" using st g by (auto simp: grows_def)
    then show ?thesis using r [of h1] that mono by (auto simp: ready_def)
  qed (simp add: self)
  moreover have "cache_inv s' (todo_for H l) R"
    using conjunct1 [OF st] by (rule causal_inv_cover) (auto simp: todo_for_def)
  moreover have "unmerged_store s' = unmerged_store s" using st g by (simp add: grows_def)
  ultimately show ?thesis by blast
qed

lemma check_heads_inv:
  assumes "for_each (check_head E key) hs s = Inr s'" "fmlookup (unmerged_store s) key = Some l"
    and "cache_inv s (todo_for (set hs \<union> H) l) R" "\<And>h1. h1 \<in> set hs \<union> H \<Longrightarrow> ready l s h1"
  shows "cache_inv s' (todo_for H l) R \<and> unmerged_store s' = unmerged_store s \<and> (\<forall>h1 \<in> H. ready l s' h1)"
  using assms
proof (induction hs arbitrary: s)
  case Nil
  then show ?case by simp
next
  case (Cons h hs)
  obtain s1 where s1: "check_head E key h s = Inr s1" and rest: "for_each (check_head E key) hs s1 = Inr s'"
    using Cons.prems(1) by (auto simp: bindr_Inr_iff)
  have "cache_inv s (todo_for (insert h (set hs \<union> H)) l) R" "\<And>h1. h1 \<in> insert h (set hs \<union> H) \<Longrightarrow> ready l s h1"
    using Cons.prems(3,4) by simp_all
  note c = check_head_inv [OF s1 Cons.prems(2) this]
  have "fmlookup (unmerged_store s1) key = Some l" using c Cons.prems(2) by simp
  from Cons.IH [OF rest this] c show ?case by (metis Un_iff)
qed

definition heads_of :: "(VectorClock \<times> Key fset) list \<Rightarrow> Key set" where
  "heads_of es = (\<Union>(v, hs) \<in> set es. fset hs)"

lemma heads_of_simps [simp]: "heads_of [] = {}" "heads_of ((v, hs) # es) = fset hs \<union> heads_of es"
  by (simp_all add: heads_of_def)

lemma heads_of_iff: "h \<in> heads_of es \<longleftrightarrow> (\<exists>v hs. (v, hs) \<in> set es \<and> h |\<in>| hs)"
  by (auto simp: heads_of_def)

lemma mem_fm_at: "h |\<in>| fm_at {||} m v \<longleftrightarrow> (\<exists>hs. fmlookup m v = Some hs \<and> h |\<in>| hs)"
  by (simp add: fm_at_def split: option.split)

lemma remove_covered_inv:
  assumes "for_each (remove_covered E key) es s = Inr s'" "fmlookup (unmerged_store s) key = Some l"
    and "cache_inv s (todo_for (heads_of es) l) ({key} \<times> fst ` set es)" "distinct (map fst es)"
    and "\<And>h. h \<in> heads_of es \<Longrightarrow> ready l s h"
  shows "cache_inv s' {} {} \<and> unmerged_store s' = unmerged_store s"
  using assms
proof (induction es arbitrary: s)
  case Nil
  then show ?case by simp
next
  case (Cons e es)
  obtain vc hs where e: "e = (vc, hs)" by (cases e)
  let ?s = "s\<lparr>cover_map := fm_modify fmempty key (fmdrop vc) (cover_map s)\<rparr>"
  obtain s1 where s1: "for_each (check_head E key) (fs_elems hs) ?s = Inr s1"
    and rest: "for_each (remove_covered E key) es s1 = Inr s'"
    using Cons.prems(1) by (auto simp: e remove_covered_def bindr_Inr_iff)
  have frame: "chain ?s = chain s" "fetching ?s = fetching s" "waits ?s = (\<lambda>h d v. waits s h d v \<and> (d, v) \<noteq> (key, vc))"
    by (auto simp: fetching_def waits_def fun_eq_iff)
  have "{key} \<times> fst ` set (e # es) - {(key, vc)} = {key} \<times> fst ` set es"
    using Cons.prems(4) by (auto simp: e)
  with inv_uncover [OF Cons.prems(3), of key vc]
  have inv0: "cache_inv ?s (todo_for (set (fs_elems hs) \<union> heads_of es) l) ({key} \<times> fst ` set es)"
    unfolding frame by (simp add: e)
  have ready0: "ready l ?s h" if "h \<in> set (fs_elems hs) \<union> heads_of es" for h
    using Cons.prems(5) [of h] that by (auto simp: e ready_def)
  have "fmlookup (unmerged_store ?s) key = Some l" using Cons.prems(2) by simp
  from check_heads_inv [OF s1 this inv0 ready0]
  have c: "cache_inv s1 (todo_for (heads_of es) l) ({key} \<times> fst ` set es)" "\<And>h. h \<in> heads_of es \<Longrightarrow> ready l s1 h"
    and "unmerged_store s1 = unmerged_store ?s" by blast+
  then have u: "unmerged_store s1 = unmerged_store s" by simp
  have "fmlookup (unmerged_store s1) key = Some l" "distinct (map fst es)"
    using Cons.prems(2,4) u by simp_all
  from Cons.IH [OF rest this(1) c(1) this(2) c(2)] u show ?case by metis
qed

lemma cover_dependencies_inv:
  assumes run: "cover_dependencies E key s = Inr s'" and inv: "cache_inv s {} {}" and l: "fmlookup (unmerged_store s) key = Some l"
  shows "cache_inv s' {} {} \<and> unmerged_store s' = unmerged_store s"
proof (cases "fmlookup (cover_map s) key")
  case None
  then show ?thesis using run inv by (simp add: cover_dependencies_def)
next
  case (Some clocks)
  obtain rem ns may s1 s2 where scan: "for_each (cover_clock key) (fm_entries clocks) (fmempty, {||}, {||}, s) = Inr (rem, ns, may, s1)"
    and loop: "for_each (remove_covered E key) (fm_entries rem) (fold (drop_fetched key ns) (fs_elems may) s1) = Inr s2"
    and fin: "(if fm_at fmempty (cover_map s2) key = fmempty then Inr (s2\<lparr>cover_map := fmdrop key (cover_map s2)\<rparr>)
      else cache_get_async E key s2) = Inr s'"
    using run by (auto simp: cover_dependencies_def Some bindr_Inr_iff)
  let ?b = "cc_vector_clock l" and ?t = "fold (drop_fetched key ns) (fs_elems may) s1"
  have waits_key: "waits s h key v \<longleftrightarrow> (\<exists>hs. (v, hs) \<in> set (fm_entries clocks) \<and> h |\<in>| hs)" for h v
    by (simp add: waits_def fm_at_Some [OF Some] mem_fm_at set_fm_entries)
  note sc = cover_scan [OF scan l]
  have rem: "h |\<in>| fm_at {||} rem v \<longleftrightarrow> vc_le v ?b \<and> waits s h key v" for h v
    using sc by (simp add: satisfied_def waits_key)
  have remd: "fm_contains rem v \<Longrightarrow> vc_le v ?b" for v using sc by fastforce
  have may: "h |\<in>| may \<longleftrightarrow> (\<exists>v. vc_le v ?b \<and> waits s h key v)" for h
    using sc by (simp add: satisfied_def waits_key)
  have ns: "h |\<in>| ns \<longleftrightarrow> (\<exists>v. \<not> vc_le v ?b \<and> waits s h key v)" for h
    using sc by (auto simp: waits_key)
  have ch: "chain ?t = (\<lambda>h. if h |\<in>| may then fmupd key l (chain s h) else chain s h)"
    using sc by (auto simp: drop_fetched_fold satisfied_def may waits_key fun_eq_iff)
  have frame: "causal_cut_store ?t = causal_cut_store s" "unmerged_store ?t = unmerged_store s" "waits ?t = waits s"
    using sc by (auto simp: drop_fetched_fold waits_def fun_eq_iff)
  have tf: "fetching ?t h = (if h |\<in>| may \<and> h |\<notin>| ns then fetching s h |-| {|key|} else fetching s h)" for h
  proof -
    have "fetching s1 = fetching s" using sc by blast
    then show ?thesis by (simp add: drop_fetched_fold)
  qed
  have heads: "heads_of (fm_entries rem) = fset may"
  proof -
    have "h \<in> heads_of (fm_entries rem) \<longleftrightarrow> (\<exists>v. h |\<in>| fm_at {||} rem v)" for h
      unfolding heads_of_iff set_fm_entries mem_fm_at ..
    then show ?thesis using rem may by auto
  qed
  have started: "fm_contains (chain s h) h" if "h |\<in>| may" for h
    using that inv_pending [OF inv] by (auto simp: may)
  have "cache_inv ?t (todo_for (fset may) l) ({key} \<times> fset (fmdom rem))"
    unfolding frame ch
  proof (rule inv_arrived [where tf = "fetching s"])
    show "causal_inv (\<lambda>h. if h |\<in>| may then fmupd key l (chain s h) else chain s h) (fetching s) (waits s)
        (causal_cut_store s) (unmerged_store s) (todo_for (fset may) l) {}"
      using inv_chain_puts [OF inv, of l key "fset may"] started inv_unmerged [OF inv, of _ key]
      by (simp add: clk_Some [OF l])
  next
    fix d v assume "(d, v) \<in> {key} \<times> fset (fmdom rem)"
    then show "fm_contains (unmerged_store s) d \<and> vc_le v (clk (unmerged_store s) d)"
      using remd l by (auto simp: clk_Some fmlookup_dom_iff)
  next
    fix d v h assume "(d, v) \<in> {key} \<times> fset (fmdom rem)" "waits s h d v"
    then show "vc_le v (clk (if h |\<in>| may then fmupd key l (chain s h) else chain s h) d)"
      using remd may by (auto simp: fmlookup_dom_iff)
  next
    fix h d v assume w: "waits s h d v" "(d, v) \<notin> {key} \<times> fset (fmdom rem)"
    then show "d |\<in>| fetching ?t h"
      using inv_pending [OF inv w(1)] rem [of h v] by (auto simp: tf ns fm_at_def fmlookup_dom_iff split: option.splits)
  qed
  moreover have "ready l ?t h" if "h |\<in>| may" for h
    using started [OF that] that by (simp add: ready_def ch)
  moreover have "fst ` set (fm_entries rem) = fset (fmdom rem)"
    using map_fst_fm_entries [of rem] by (metis set_fs_elems set_map)
  ultimately have "cache_inv s2 {} {} \<and> unmerged_store s2 = unmerged_store ?t"
    using l by (intro remove_covered_inv [OF loop]) (simp_all add: heads frame distinct_fm_entries)
  then have "cache_inv s2 {} {}" "unmerged_store s2 = unmerged_store s" using frame(2) by metis+
  moreover have "chain s' = chain s2 \<and> fetching s' = fetching s2 \<and> waits s' = waits s2 \<and>
      causal_cut_store s' = causal_cut_store s2 \<and> unmerged_store s' = unmerged_store s2"
  proof (cases "fm_at fmempty (cover_map s2) key = fmempty")
    case True
    then have "s' = s2\<lparr>cover_map := fmdrop key (cover_map s2)\<rparr>" using fin by simp
    with True show ?thesis by (auto simp: fetching_def waits_def fun_eq_iff)
  next
    case False
    then have "cache_view s' = cache_view s2" using fin by (auto dest: cache_get_async_view)
    from cache_view_eq [OF this] show ?thesis by blast
  qed
  ultimately show ?thesis by metis
qed

section \<open>The handlers\<close>

definition cache_ok :: "causal_cache \<Rightarrow> bool" where
  "cache_ok s \<longleftrightarrow> cache_inv s {} {}"

lemma cache_ok_view: "cache_view s' = cache_view s \<Longrightarrow> cache_ok s \<Longrightarrow> cache_ok s'"
  unfolding cache_ok_def by (rule cache_inv_view)

lemma cache_ok_kvs [simp]: "cache_ok (s\<lparr>kvs := c\<rparr>) = cache_ok s"
  using cache_ok_view [of "s\<lparr>kvs := c\<rparr>" s] cache_ok_view [of s "s\<lparr>kvs := c\<rparr>"] by auto

lemma drop_missing_ok:
  assumes "drop_missing key s = Inr s'" "cache_ok s"
  shows "cache_ok s'"
proof (cases "clk (unmerged_store s) key = fmempty")
  case True
  let ?s = "s\<lparr>unmerged_store := fmdrop key (unmerged_store s)\<rparr>"
  have "s' = ?s"
    using assms(1) True by (auto simp: drop_missing_def store_deref_def bindr_Inr_iff comparison_cases clk_def split: option.splits)
  have frame: "chain ?s = chain s" "fetching ?s = fetching s" "waits ?s = waits s"
    by (simp_all add: chain_def fetching_def waits_def fun_eq_iff)
  have inv: "cache_inv s {} {}" using assms(2) by (simp add: cache_ok_def)
  have le: "vc_le (clk (unmerged_store s) k) (clk (fmdrop key (unmerged_store s)) k)" for k
    using True by (cases "k = key") (simp_all add: clk_def)
  have real: "deps_real l" if "fmlookup (fmdrop key (unmerged_store s)) k = Some l" for k l
    using that inv_real [OF inv] by (auto split: if_splits)
  show ?thesis
    using inv_unmerged_update [OF inv le real] by (simp add: cache_ok_def \<open>s' = ?s\<close> frame)
next
  case False
  then have "s' = s"
    using assms(1) by (auto simp: drop_missing_def store_deref_def bindr_Inr_iff comparison_cases clk_def split: option.splits if_splits)
  then show ?thesis using assms(2) by simp
qed

lemma process_response_ok:
  assumes run: "process_response E key l s = Inr s'" and ok: "cache_ok s" and l: "deps_real l"
  shows "cache_ok s'"
proof -
  obtain s1 s2 s3 where 1: "update_unmerged E key l s = Inr s1" and 2: "prepare_queried E key s1 = Inr s2"
    and 3: "cover_dependencies E key s2 = Inr s3" and 4: "drop_missing key s3 = Inr s'"
    using run by (auto simp: process_response_def bindr_Inr_iff)
  have i1: "cache_inv s1 {} {}" and k: "fm_contains (unmerged_store s1) key"
    using update_unmerged_inv [OF 1 ok [unfolded cache_ok_def] l] by blast+
  have i2: "cache_inv s2 {} {}" and u2: "unmerged_store s2 = unmerged_store s1"
    using prepare_queried_inv [OF 2 i1] by blast+
  obtain u where "fmlookup (unmerged_store s2) key = Some u" using k u2 by auto
  from cover_dependencies_inv [OF 3 i2 this] have "cache_ok s3" unfolding cache_ok_def by blast
  with drop_missing_ok [OF 4] show ?thesis .
qed

lemma single_read_view:
  "single_read E a t x = Inr y \<Longrightarrow> cache_view (snd (snd (snd y))) = cache_view (snd (snd (snd x)))"
  by (cases x) (auto simp: single_read_def bindr_Inr_iff Let_def dest!: cache_get_async_view split: if_splits)

lemma single_request_ok: "single_request E request s = Inr s' \<Longrightarrow> cache_ok s \<Longrightarrow> cache_ok s'"
proof -
  assume run: "single_request E request s = Inr s'" and ok: "cache_ok s"
  obtain rs cv tc s1 where each: "for_each (single_read E (cq_addr request)) (cq_tuples request) ({||}, True, {||}, s) = Inr (rs, cv, tc, s1)"
    and "cache_view s' = cache_view s1"
    using run by (auto simp: single_request_def bindr_Inr_iff Let_def split: if_splits)
  from for_each_same [OF each, where g = "\<lambda>x. cache_view (snd (snd (snd x)))", OF single_read_view]
  have "cache_view s1 = cache_view s" by simp
  with \<open>cache_view s' = cache_view s1\<close> show "cache_ok s'" using cache_ok_view ok by metis
qed

lemma wait_for_key_ok: "cache_ok s \<Longrightarrow> cache_ok (wait_for_key addr key s)"
proof -
  have "chain (wait_for_key addr key s) = chain s" "fetching (wait_for_key addr key s) = fetching s" "waits (wait_for_key addr key s) = waits s"
    "causal_cut_store (wait_for_key addr key s) = causal_cut_store s" "unmerged_store (wait_for_key addr key s) = unmerged_store s"
    by (auto simp: wait_for_key_def chain_def fetching_def waits_def fun_eq_iff fm_modify_def case_prod_unfold)
  then show "cache_ok s \<Longrightarrow> cache_ok (wait_for_key addr key s)" by (simp add: cache_ok_def)
qed

lemma prepare_held_ok:
  assumes run: "prepare_held E addr key l s = Inr (b, s')" and ok: "cache_ok s"
    and l: "chain s key = fmempty" "vc_le (cc_vector_clock l) (clk (unmerged_store s) key)"
  shows "cache_ok s'"
proof -
  obtain s1 where s1: "recursive_dependency_check E key l (chain_put key key l s) = Inr s1"
    using run by (auto simp: prepare_held_def bindr_Inr_iff)
  have "cache_inv s1 {} {} \<and> unmerged_store s1 = unmerged_store s"
    using l by (intro start_chain_inv [OF s1 ok [unfolded cache_ok_def]]) simp_all
  moreover have "(\<exists>s2. settle_head E key s1 = Inr s2 \<and> s' = s2) \<or> s' = wait_for_key addr key s1"
    using run s1 by (auto simp: prepare_held_def bindr_Inr_iff split: if_splits)
  ultimately show ?thesis
    using settle_head_inv [of E key s1] wait_for_key_ok [of s1] unfolding cache_ok_def by blast
qed

lemma find_lattice_None:
  assumes "find_lattice_from_in_preparation (in_preparation s) k fmempty = None"
  shows "\<not> fm_contains (chain s h) k"
proof
  assume c: "fm_contains (chain s h) k"
  then obtain l where l: "fmlookup (chain s h) k = Some l" by blast
  then obtain addrs where "fmlookup (in_preparation s) h = Some (addrs, chain s h)"
    by (auto simp: chain_def fm_at_def split: option.splits)
  then have "(k, l) \<in> set (concat (map (\<lambda>(head, addrs, chain). fm_entries chain) (fm_entries (in_preparation s))))"
    using l by (force simp: set_fm_entries)
  moreover have "List.find (\<lambda>(k1, l). k1 = k \<and> vector_clock_comparison (cc_vector_clock l) fmempty = kCausalGreaterOrEqual)
      (concat (map (\<lambda>(head, addrs, chain). fm_entries chain) (fm_entries (in_preparation s)))) = None"
    using assms by (simp add: find_lattice_from_in_preparation_def)
  ultimately have "\<not> (case (k, l) of (k1, l) \<Rightarrow> k1 = k \<and> vector_clock_comparison (cc_vector_clock l) fmempty = kCausalGreaterOrEqual)"
    unfolding find_None_iff by blast
  then show False by (simp add: comparison_cases)
qed

lemma clear_fetch_ok:
  assumes "cache_ok s" "chain s key = fmempty"
  shows "cache_ok (s\<lparr>to_fetch_map := fmupd key {||} (to_fetch_map s)\<rparr>)"
proof -
  let ?s = "s\<lparr>to_fetch_map := fmupd key {||} (to_fetch_map s)\<rparr>"
  have "chain ?s = chain s" "fetching ?s = (fetching s)(key := {||})" "waits ?s = waits s"
    by (simp_all add: fetching_def waits_def fun_eq_iff)
  then show ?thesis
    using inv_clear_tf [OF assms(1) [unfolded cache_ok_def], of key] assms(2) by (simp add: cache_ok_def)
qed

lemma cross_key_ok:
  assumes run: "cross_key E addr key s = Inr (b, s')" and ok: "cache_ok s"
  shows "cache_ok s'"
proof (cases "fm_contains (in_preparation s) key")
  case True
  then show ?thesis using run ok by (auto simp: cross_key_def intro: wait_for_key_ok)
next
  case False
  let ?s = "s\<lparr>to_fetch_map := fmupd key {||} (to_fetch_map s)\<rparr>"
  have empty: "chain s key = fmempty" using False by (auto simp: chain_def fm_at_def split: option.splits)
  have ok0: "cache_ok ?s" by (rule clear_fetch_ok [OF ok empty])
  consider l where "prepare_held E addr key l ?s = Inr (b, s')"
      "fmlookup (unmerged_store s) key = Some l \<or> (\<exists>h. fmlookup (chain s h) key = Some l)"
    | "cache_get_async E key (wait_for_key addr key ?s) = Inr s'"
    using run False find_lattice_Some [of s key fmempty]
    by (auto simp: cross_key_def Let_def bindr_Inr_iff split: option.splits)
  then show ?thesis
  proof cases
    case (1 l)
    have "vc_le (cc_vector_clock l) (clk (unmerged_store ?s) key)"
      using 1(2) inv_unmerged [OF ok [unfolded cache_ok_def], of _ key] by (simp, metis clk_Some vc_le_refl)
    with prepare_held_ok [OF 1(1) ok0] empty show ?thesis by simp
  next
    case 2
    from cache_ok_view [OF cache_get_async_view [OF 2]] wait_for_key_ok [OF ok0] show ?thesis by blast
  qed
qed

lemma cross_request_ok:
  assumes run: "cross_request E request s = Inr s'" and ok: "cache_ok s"
  shows "cache_ok s'"
proof -
  let ?begun = "begin_cross request s" and ?fr = "request_frontier request"
  obtain rs cv tc s1 where
    each: "for_each (cross_read E (cq_addr request) ?fr) (cq_tuples request) ({||}, True, {||}, ?begun) = Inr (rs, cv, tc, s1)"
    and fin: "cache_view s' = cache_view s1"
    using run by (auto simp: cross_request_def bindr_Inr_iff Let_def dest!: answer_cross_view split: if_splits)
  have read: "cache_ok s2" if "cross_read E a fr t (x1, x2, x3, s1) = Inr (y1, y2, y3, s2)" "cache_ok s1" for a fr t x1 x2 x3 s1 y1 y2 y3 s2
  proof -
    let ?s = "s1\<lparr>cache_key_set := finsert (ct_key t) (cache_key_set s1)\<rparr>"
    have "cache_ok ?s" using that(2) by (intro cache_ok_view [of ?s s1]) simp_all
    then show ?thesis
      using that(1) cross_key_ok [of E a "ct_key t" ?s]
      by (auto simp: cross_read_def Let_def bindr_Inr_iff split: if_splits)
  qed
  have "cache_ok ?begun" by (rule cache_ok_view [OF _ ok]) (simp add: begin_cross_def)
  with for_each_invariant [OF each, where P = "\<lambda>(x1, x2, x3, s). cache_ok s"] read have "cache_ok s1" by auto
  with fin show ?thesis by (rule cache_ok_view)
qed

lemma get_request_handler_ok: "get_request_handler E request s = Inr s' \<Longrightarrow> cache_ok s \<Longrightarrow> cache_ok s'"
  by (auto simp: get_request_handler_def split: ConsistencyType.splits intro: single_request_ok cross_request_ok)

lemma put_tuple_ok:
  assumes run: "put_tuple E addr t s = Inr s'" and ok: "cache_ok s"
    and real: "deps_real (parse_lattice E (from_option [] (ct_payload t)))"
  shows "cache_ok s'"
proof -
  let ?s = "s\<lparr>unmerged_store := store_merge (ct_key t) (parse_lattice E (from_option [] (ct_payload t))) (unmerged_store s)\<rparr>"
  have "chain ?s = chain s" "fetching ?s = fetching s" "waits ?s = waits s"
    by (simp_all add: chain_def fetching_def waits_def fun_eq_iff)
  then have "cache_ok ?s"
    using inv_store_merge [OF ok [unfolded cache_ok_def] real] by (simp add: cache_ok_def)
  moreover have "cache_view s' = cache_view ?s"
    using run by (auto simp: put_tuple_def Let_def bindr_Inr_iff)
  ultimately show ?thesis using cache_ok_view by blast
qed

lemma kvs_response_handler_ok:
  assumes run: "kvs_response_handler E r s = Inr s'" and ok: "cache_ok s"
    and real: "r_error r \<noteq> Some 0 \<Longrightarrow> \<forall>t \<in> set (r_tuples r). deps_real (parse_lattice E (t_value t))"
  shows "cache_ok s'"
proof -
  obtain t where t: "vec_at (r_tuples r) 0 = Inr t" using run by (auto simp: kvs_response_handler_def bindr_Inr_iff)
  then have "t \<in> set (r_tuples r)" by (auto simp: vec_at_def split: if_splits)
  moreover have "deps_real cc_default" by (simp add: deps_real_def cc_default_def)
  moreover have "cache_view s' = cache_view s \<or> r_error r \<noteq> Some 0 \<and>
      process_response E (t_key t) (if t_err t \<noteq> 1 then parse_lattice E (t_value t) else cc_default) s = Inr s'"
    using run by (auto simp: kvs_response_handler_def t Let_def bindr_Inr_iff retry_put_def confirm_put_def
        dest!: cache_get_async_view split: if_splits option.splits)
  ultimately show ?thesis
    using real by (auto intro: process_response_ok [OF _ ok] cache_ok_view [OF _ ok] split: if_splits)
qed

lemma finish_remote_view: "cache_view (snd (finish_remote r a x)) = cache_view (snd x)"
  by (cases x) (auto simp: finish_remote_def Let_def split: option.splits)

lemma versioned_key_response_handler_view: "cache_view (versioned_key_response_handler r s) = cache_view s"
proof -
  have "cache_view (snd (fold (finish_remote r) as x)) = cache_view (snd x)" for as x
    by (induction as arbitrary: x) (simp_all add: finish_remote_view)
  from this [of _ "({||}, s)"] show ?thesis
    by (auto simp: versioned_key_response_handler_def Let_def case_prod_unfold split: option.splits)
qed

lemma migrate_key_ok:
  assumes run: "migrate_key E (key, l) s = Inr s'" and ok: "cache_ok s" and l: "fmlookup (unmerged_store s) key = Some l"
  shows "cache_ok s' \<and> unmerged_store s' = unmerged_store s"
proof -
  let ?s = "s\<lparr>to_fetch_map := fmupd key {||} (to_fetch_map s)\<rparr>"
  consider "s' = s" | "bindr (recursive_dependency_check E key l (chain_put key key l ?s)) (settle_head E key) = Inr s'"
      "find_lattice_from_in_preparation (in_preparation s) key fmempty = None"
    using run unfolding migrate_key_def prod.case by (metis sum.inject(2))
  then show ?thesis
  proof cases
    case 2
    have empty: "chain s key = fmempty"
      using find_lattice_None [OF 2(2)] inv_head [OF ok [unfolded cache_ok_def]] by blast
    have "cache_inv ?s {} {}" using clear_fetch_ok [OF ok empty] unfolding cache_ok_def .
    then have "cache_inv s' {} {} \<and> unmerged_store s' = unmerged_store ?s"
      by (rule start_and_settle_inv [OF 2(1)]) (simp_all add: empty clk_Some [OF l])
    moreover have "unmerged_store ?s = unmerged_store s" by simp
    ultimately show ?thesis unfolding cache_ok_def by metis
  qed (use ok in simp)
qed

lemma periodic_migration_handler_ok:
  assumes run: "periodic_migration_handler E s = Inr s'" and ok: "cache_ok s"
  shows "cache_ok s'"
proof -
  have step: "cache_ok t' \<and> unmerged_store t' = unmerged_store s"
    if "x \<in> set (fm_entries (unmerged_store s))" "cache_ok t \<and> unmerged_store t = unmerged_store s" "migrate_key E x t = Inr t'" for x t t'
    using that migrate_key_ok [of E "fst x" "snd x" t t'] set_fm_entries [of "fst x" "snd x" "unmerged_store s"] by simp
  have "cache_ok s' \<and> unmerged_store s' = unmerged_store s"
    by (rule for_each_invariant [OF run [unfolded periodic_migration_handler_def]]) (use ok step in \<open>simp, blast\<close>)
  then show ?thesis ..
qed

section \<open>The loop\<close>

text \<open>The payloads that arrive name no dependency on the empty clock.\<close>

definition input_ok :: "env \<Rightarrow> cache_input \<Rightarrow> bool" where
  "input_ok E i \<longleftrightarrow>
     (\<forall>q. in_put i = Some q \<longrightarrow> (\<forall>t \<in> set (cq_tuples q). deps_real (parse_lattice E (from_option [] (ct_payload t))))) \<and>
     (\<forall>q. in_update i = Some q \<longrightarrow> (\<forall>t \<in> set (q_tuples q). deps_real (parse_lattice E (t_value t)))) \<and>
     (\<forall>r. in_kvs_response i = Some r \<longrightarrow> (\<forall>t \<in> set (r_tuples r). deps_real (parse_lattice E (t_value t))))"

lemma cache_versions_view: "cache_view (cache_versions E i s) = cache_view s"
  by (simp add: cache_versions_def versioned_key_response_handler_view versioned_key_request_handler_def Let_def split: option.split)

lemma cache_requests_ok:
  assumes run: "cache_requests E i s = Inr s'" and ok: "cache_ok s" and i: "input_ok E i"
  shows "cache_ok s'"
proof -
  obtain s1 s2 s3 where 1: "(case in_get i of None \<Rightarrow> Inr s | Some q \<Rightarrow> get_request_handler E q s) = Inr s1"
    and 2: "(case in_put i of None \<Rightarrow> Inr s1 | Some q \<Rightarrow> put_request_handler E q s1) = Inr s2"
    and 3: "(case in_update i of None \<Rightarrow> Inr s2 | Some q \<Rightarrow> for_each (update_tuple E) (q_tuples q) s2) = Inr s3"
    and s': "s' = cache_versions E i s3"
    using run by (auto simp: cache_requests_def bindr_Inr_iff)
  have ok1: "cache_ok s1" using 1 ok get_request_handler_ok by (cases "in_get i") auto
  have ok2: "cache_ok s2"
  proof (cases "in_put i")
    case (Some q)
    then have "for_each (put_tuple E (cq_addr q)) (cq_tuples q) s1 = Inr s2" using 2 by (simp add: put_request_handler_def)
    from for_each_invariant [OF this, where P = cache_ok, OF ok1] Some i put_tuple_ok show ?thesis
      by (auto simp: input_ok_def)
  qed (use 2 ok1 in simp)
  have "cache_ok s3"
  proof (cases "in_update i")
    case (Some q)
    then have "for_each (update_tuple E) (q_tuples q) s2 = Inr s3" using 3 by simp
    then show ?thesis
      by (rule for_each_invariant [where P = cache_ok, OF _ ok2])
        (use Some i process_response_ok in \<open>auto simp: input_ok_def update_tuple_def split: if_splits\<close>)
  qed (use 3 ok2 in simp)
  with cache_versions_view [of E i s3] show ?thesis unfolding s' by (rule cache_ok_view)
qed

text \<open>What the client hands out is the response that arrived, or says that a request timed out.\<close>

definition expected :: "KeyResponse option \<Rightarrow> KeyResponse \<Rightarrow> bool" where
  "expected r x \<longleftrightarrow> r = Some x \<or> r_error x = Some 0"

lemma bad_response_expected: "generate_bad_response req = Inr x \<Longrightarrow> expected r x"
  by (auto simp: generate_bad_response_def bindr_Inr_iff Let_def expected_def)

lemma handle_response_expected: "handle_response E x c = Inr (result, c') \<Longrightarrow> y \<in> set result \<Longrightarrow> expected (Some x) y"
  by (auto simp: handle_response_def handle_get_response_def handle_put_response_def bindr_Inr_iff Let_def expected_def
      split: if_splits option.splits prod.splits)

lemma gc_step_expected:
  assumes "\<forall>y \<in> set result. expected r y"
  shows "gc_address e (gone, result, c) = Inr (gone', result', c') \<Longrightarrow> \<forall>y \<in> set result'. expected r y"
    and "gc_get e' (gone, result, c) = Inr (gone', result', c') \<Longrightarrow> \<forall>y \<in> set result'. expected r y"
    and "gc_put e'' (gone'', result, c) = Inr (gone''', result', c') \<Longrightarrow> \<forall>y \<in> set result'. expected r y"
proof -
  have loop: "\<forall>y \<in> set result'. expected r y"
    if "for_each (\<lambda>req result. bindr (generate_bad_response req) (\<lambda>r. Inr (result @ [r]))) reqs result = Inr result'" for reqs result'
    by (rule for_each_invariant [OF that]) (use assms in \<open>auto simp: bindr_Inr_iff intro: bad_response_expected\<close>)
  show "gc_address e (gone, result, c) = Inr (gone', result', c') \<Longrightarrow> \<forall>y \<in> set result'. expected r y"
    using assms by (auto simp: gc_address_def bindr_Inr_iff Let_def dest!: loop split: prod.splits if_splits)
  show "gc_get e' (gone, result, c) = Inr (gone', result', c') \<Longrightarrow> \<forall>y \<in> set result'. expected r y"
    using assms by (auto simp: gc_get_def bindr_Inr_iff Let_def intro: bad_response_expected split: prod.splits if_splits)
  show "gc_put e'' (gone'', result, c) = Inr (gone''', result', c') \<Longrightarrow> \<forall>y \<in> set result'. expected r y"
    using assms by (auto simp: gc_put_def bindr_Inr_iff Let_def intro: bad_response_expected split: prod.splits if_splits)
qed

lemma gc_expected:
  "\<forall>y \<in> set (fst (snd x)). expected r y \<Longrightarrow> gc_address e x = Inr x' \<Longrightarrow> \<forall>y \<in> set (fst (snd x')). expected r y"
  "\<forall>y \<in> set (fst (snd x)). expected r y \<Longrightarrow> gc_get e' x = Inr x' \<Longrightarrow> \<forall>y \<in> set (fst (snd x')). expected r y"
  "\<forall>y \<in> set (fst (snd z)). expected r y \<Longrightarrow> gc_put e'' z = Inr z' \<Longrightarrow> \<forall>y \<in> set (fst (snd z')). expected r y"
  using gc_step_expected [of "fst (snd x)" r] gc_step_expected(3) [of "fst (snd z)" r]
  by (metis prod.collapse)+

lemma receive_async_expected:
  assumes "receive_async E a r c = Inr (responses, c')" "y \<in> set responses"
  shows "expected r y"
proof -
  obtain c0 result1 c1 where r1: "(case r of None \<Rightarrow> Inr ([], c0) | Some x \<Rightarrow> handle_response E x c0) = Inr (result1, c1)"
    and gc: "collect_garbage (result1, c1) = Inr (responses, c')"
    using assms(1) by (auto simp: receive_async_def bindr_Inr_iff)
  have 1: "\<forall>y \<in> set result1. expected r y"
    using r1 handle_response_expected by (cases r) auto
  obtain g2 result2 c2 g3 result3 c3 g4 c4 where
    2: "for_each gc_address (fm_entries (pending_request_map c1)) ([], result1, c1) = Inr (g2, result2, c2)"
    and 3: "for_each gc_get (fm_entries (pending_get_response_map c2)) ([], result2, c2\<lparr>pending_request_map := fold fmdrop g2 (pending_request_map c2)\<rparr>) = Inr (g3, result3, c3)"
    and 4: "for_each gc_put (pending_puts (c3\<lparr>pending_get_response_map := fold fmdrop g3 (pending_get_response_map c3)\<rparr>))
      ([], result3, c3\<lparr>pending_get_response_map := fold fmdrop g3 (pending_get_response_map c3)\<rparr>) = Inr (g4, responses, c4)"
    using gc by (auto simp: collect_garbage_def bindr_Inr_iff Let_def)
  have "\<forall>y \<in> set (fst (snd (g2, result2, c2))). expected r y"
    by (rule for_each_invariant [OF 2 _ gc_expected(1)]) (use 1 in simp_all)
  then have "\<forall>y \<in> set (fst (snd (g3, result3, c3))). expected r y"
    by - (rule for_each_invariant [OF 3 _ gc_expected(2)], simp_all)
  then have "\<forall>y \<in> set (fst (snd (g4, responses, c4))). expected r y"
    by - (rule for_each_invariant [OF 4 _ gc_expected(3)], simp_all)
  then show ?thesis using assms(2) by simp
qed

lemma cache_responses_ok:
  assumes run: "cache_responses E i s = Inr s'" and ok: "cache_ok s" and i: "input_ok E i"
  shows "cache_ok s'"
proof -
  obtain responses c where r: "receive_async E (in_addresses i) (in_kvs_response i) (kvs s) = Inr (responses, c)"
    and each: "for_each (kvs_response_handler E) responses (s\<lparr>kvs := c\<rparr>) = Inr s'"
    using run by (auto simp: cache_responses_def bindr_Inr_iff)
  have "\<forall>t \<in> set (r_tuples x). deps_real (parse_lattice E (t_value t))" if "x \<in> set responses" "r_error x \<noteq> Some 0" for x
    using receive_async_expected [OF r that(1)] that(2) i by (auto simp: expected_def input_ok_def)
  then show ?thesis
    using for_each_invariant [OF each, where P = cache_ok] ok kvs_response_handler_ok by (metis cache_ok_kvs)
qed

lemma cache_now_view [simp]: "cache_view (snd (cache_now s)) = cache_view s"
  by (simp add: cache_now_def case_prod_unfold Let_def)

lemma cache_report_ok: "cache_report E time s = Inr s' \<Longrightarrow> cache_ok s \<Longrightarrow> cache_ok s'"
  by (erule cache_ok_view [rotated])
    (auto simp: cache_report_def report_keys_def Let_def bindr_Inr_iff case_prod_unfold split: if_splits)

lemma cache_migrate_ok:
  assumes run: "cache_migrate E s = Inr s'" and ok: "cache_ok s"
  shows "cache_ok s'"
proof -
  let ?s = "snd (cache_now s)"
  have ok1: "cache_ok ?s" by (rule cache_ok_view [OF cache_now_view ok])
  consider "s' = ?s" | s2 where "periodic_migration_handler E ?s = Inr s2" "cache_view s' = cache_view s2"
    using run by (auto simp: cache_migrate_def Let_def bindr_Inr_iff case_prod_unfold split: if_splits)
  then show ?thesis
    using ok1 periodic_migration_handler_ok cache_ok_view by cases blast+
qed

lemma cache_round_ok: "cache_round E i s = Inr s' \<Longrightarrow> input_ok E i \<Longrightarrow> cache_ok s \<Longrightarrow> cache_ok s'"
  by (auto simp: cache_round_def bindr_Inr_iff dest: cache_requests_ok cache_responses_ok cache_report_ok cache_migrate_ok)

lemma new_causal_cache_ok: "cache_ok (new_causal_cache ip tid c)"
  by (auto simp: cache_ok_def new_causal_cache_def causal_inv_def chain_def waits_def fetching_def Let_def split: prod.splits)

end
