(* ===== verification/Causal_Correct.thy ===== *)
theory Causal_Correct
  imports Causal_Steps Message_Laws Sample_Env
begin

text \<open>
  Properties of the causal cache: the store it answers from is a causal cut, its dependency check
  ends, it does not serve values that are older than what a client has seen, the versions it compares
  them with are the newest ones, and a read that brings the cache down.
\<close>

section \<open>Evaluation\<close>

lemma sample_keys [simp]: "''a'' < (''b'' :: string)"
  by code_simp

text \<open>Two versions: that of \<open>a\<close> depends on that of \<open>b\<close>.\<close>

definition version_b :: CrossCausalPayload where
  "version_b = \<lparr>cc_vector_clock = fmupd ''x'' 1 fmempty, cc_dependency = fmempty, cc_value = {|''vb''|}\<rparr>"

definition version_a :: CrossCausalPayload where
  "version_a = \<lparr>cc_vector_clock = fmupd ''x'' 2 fmempty, cc_dependency = fmupd ''b'' (fmupd ''x'' 1 fmempty) fmempty,
     cc_value = {|''va''|}\<rparr>"

lemma parse_lattice_sample [simp]: "parse_lattice sample_env (serialize_cross_causal sample_env l) = l"
  by (simp add: parse_lattice_def cross_causal_reads_back)

definition no_input :: cache_input where
  "no_input = \<lparr>in_get = None, in_put = None, in_update = None, in_version_gc = None, in_versioned_request = None,
     in_versioned_response = None, in_addresses = None, in_kvs_response = None, in_time = 0\<rparr>"

definition put_both :: CausalRequest where
  "put_both = \<lparr>cq_consistency = CROSS, cq_id = ''c'',
     cq_tuples = [\<lparr>ct_key = ''b'', ct_error = None, ct_payload = Some (serialize_cross_causal sample_env version_b)\<rparr>,
       \<lparr>ct_key = ''a'', ct_error = None, ct_payload = Some (serialize_cross_causal sample_env version_a)\<rparr>],
     cq_future_read_set = [], cq_versioned_key_locations = fmempty, cq_response_address = Some ''tcp://u:1''\<rparr>"

text \<open>A cache whose clock says that ten seconds have passed since the last migration, but not since the last report.\<close>

definition sample_cache :: causal_cache where
  "sample_cache = new_causal_cache ''h'' 0
     (new_async_client sample_env [make_UserRoutingThread ''r'' 0] ''h'' 0 4000000000 0 (\<lambda>n. if n = 2 then 0 else 10000000000))"

section \<open>The cut is causal\<close>

text \<open>
  C3. The causal cache answers from a causal cut: after any number of rounds of its loop, whatever
  arrives in them, a version in the causal cut store has each of its dependencies in that store, at a
  version that is at least as new. Dependencies on the empty clock, which every version meets, are
  not sent.
\<close>

theorem causal_cut_closed:
  assumes "for_each (cache_round E) inputs (new_causal_cache ip thread_id c) = Inr s"
    and "\<forall>i \<in> set inputs. input_ok E i"
    and "fmlookup (causal_cut_store s) key = Some l" "fmlookup (cc_dependency l) dep = Some vc" "vc \<noteq> fmempty"
  shows "\<exists>l'. fmlookup (causal_cut_store s) dep = Some l' \<and> vc_le vc (cc_vector_clock l')"
proof -
  have "cache_ok s"
    by (rule for_each_invariant [OF assms(1), where P = cache_ok])
      (use assms(2) new_causal_cache_ok cache_round_ok in auto)
  then have "vc_le vc (clk (causal_cut_store s) dep)"
    using inv_cut [of _ _ _ "causal_cut_store s"] assms(3,4) unfolding cache_ok_def dep_le_def by blast
  with assms(5) show ?thesis by (auto simp: clk_def split: option.splits)
qed

lemma vc_le_sample: "vc_le (fmupd ''x'' n fmempty) (fmupd ''x'' m fmempty) \<longleftrightarrow> n \<le> m"
  by (auto simp: vc_le_def fmpred_iff)

lemma fmupd_not_empty [simp]: "fmupd k v m \<noteq> fmempty"
  by (metis fmempty_lookup fmupd_lookup option.distinct(1))

lemmas eval_request = put_async_def get_async_def async_prepare_def get_request_id_def async_try_request_def vec_at_def
  async_worker_thread_def async_worker_threads_def query_routing_async_def get_routing_thread_def client_rand_def
  pick_worker_def fm_modify_def fm_at_def c_send_def case_prod_unfold empty_tuple_def empty_request_def Let_def
  sample_cache_def new_causal_cache_def new_async_client_def a_now_def no_input_def cache_round_def cache_requests_def
  cache_versions_def cq_addr_def

lemmas eval_receive = cache_responses_def receive_async_def collect_garbage_def gc_address_def timed_out_def
  pending_puts_def a_now_def case_prod_unfold Let_def cache_report_def cache_now_def kCausalCacheReportThreshold_def

lemmas eval_dependencies = recursive_dependency_check_def check_dependency_def clock_covered_def comparison_cases vc_le_sample
  find_lattice_from_in_preparation_def store_at_def use_lattice_def populate_in_preparation_def fm_at_def settle_head_def
  merge_into_causal_cut_def merge_version_def store_merge_def fmdrop_fmupd_same chain_put_def fm_modify_def

theorem causal_cut_closed_witness:
  "\<exists>s l'. for_each (cache_round sample_env) [no_input\<lparr>in_put := Some put_both\<rparr>] sample_cache = Inr s \<and>
     fmlookup (causal_cut_store s) ''a'' = Some version_a \<and>
     fmlookup (causal_cut_store s) ''b'' = Some l' \<and> vc_le (fmupd ''x'' 1 fmempty) (cc_vector_clock l')"
proof -
  have "\<exists>s. for_each (cache_round sample_env) [no_input\<lparr>in_put := Some put_both\<rparr>] sample_cache = Inr s \<and>
      fmlookup (causal_cut_store s) ''a'' = Some version_a"
    by (simp add: eval_request put_both_def put_request_handler_def put_tuple_def store_merge_def store_deref_def,
        simp add: eval_receive,
        simp add: cache_migrate_def cache_now_def a_now_def case_prod_unfold Let_def kMigrateThreshold_def signed_divide_int_def
          periodic_migration_handler_def migrate_key_def,
        simp add: eval_dependencies version_a_def version_b_def)
  then obtain s where run: "for_each (cache_round sample_env) [no_input\<lparr>in_put := Some put_both\<rparr>] sample_cache = Inr s"
    and a: "fmlookup (causal_cut_store s) ''a'' = Some version_a" by blast
  have "input_ok sample_env (no_input\<lparr>in_put := Some put_both\<rparr>)"
    by (auto simp: input_ok_def no_input_def put_both_def deps_real_def version_a_def version_b_def)
  then have "\<exists>l'. fmlookup (causal_cut_store s) ''b'' = Some l' \<and> vc_le (fmupd ''x'' 1 fmempty) (cc_vector_clock l')"
    using causal_cut_closed [OF run [unfolded sample_cache_def] _ a, of "''b''" "fmupd ''x'' 1 fmempty"]
    by (simp add: version_a_def)
  with run a show ?thesis by blast
qed

section \<open>The dependency check ends\<close>

lemma get_async_total:
  assumes "routing_threads c \<noteq> []"
  shows "\<exists>c'. get_async E key c = Inr c' \<and> routing_threads c' \<noteq> []"
  using assms by (auto simp: get_async_def async_prepare_def get_request_id_def async_try_request_def async_worker_thread_def
      async_worker_threads_def query_routing_async_def get_routing_thread_def client_rand_def pick_worker_def a_now_def
      remember_get_def remember_put_def c_send_def case_prod_unfold Let_def vec_at_def bindr_Inr_iff)

lemma check_dependency_total:
  assumes "routing_threads (kvs s) \<noteq> []"
  shows "\<exists>ds s'. check_dependency E h x s = Inr (ds, s') \<and> routing_threads (kvs s') \<noteq> []"
proof -
  obtain d vc where x: "x = (d, vc)" by (cases x)
  have keep: "\<exists>ds s'. use_lattice h d l s = (ds, s') \<and> routing_threads (kvs s') \<noteq> []" for l
    using assms by (simp add: use_lattice_def case_prod_unfold Let_def)
  have held: "clock_covered (unmerged_store s) d vc \<Longrightarrow> \<exists>l. store_at (unmerged_store s) d = Inr l"
    by (auto simp: clock_covered_def store_at_def split: option.splits)
  have "\<exists>s'. fetch_dependency E h d vc s = Inr s' \<and> routing_threads (kvs s') \<noteq> []"
    using get_async_total [OF assms, of E d] by (auto simp: fetch_dependency_def cache_get_async_def)
  then show ?thesis
    using assms keep held
    by (cases "find_lattice_from_in_preparation (in_preparation s) d vc")
      (auto simp: x check_dependency_def bindr_Inr_iff)
qed

text \<open>
  C7. The recursive dependency check returns from every state, also when versions depend on each other in
  a circle, as long as the client of the cache knows a routing thread to ask.
\<close>

theorem dependency_check_returns:
  assumes "routing_threads (kvs s) \<noteq> []"
  shows "\<exists>s'. recursive_dependency_check E head_key lattice s = Inr s'"
proof -
  have "\<exists>s'. check_dependencies E head_key xs s = Inr s'" for xs
    using assms
  proof (induction E head_key xs s rule: check_dependencies.induct)
    case (2 E h x rest s)
    obtain ds s1 where "check_dependency E h x s = Inr (ds, s1)" "routing_threads (kvs s1) \<noteq> []"
      using check_dependency_total [OF "2.prems"] by blast
    with "2.IH" show ?case by auto
  qed simp
  then show ?thesis by (simp add: recursive_dependency_check_def)
qed

theorem dependency_check_returns_witness:
  "\<exists>s'. recursive_dependency_check sample_env ''a'' (version_b\<lparr>cc_dependency := fmupd ''a'' (fmupd ''x'' 3 fmempty) fmempty\<rparr>)
     sample_cache = Inr s'"
  by (rule dependency_check_returns) (simp add: sample_cache_def new_causal_cache_def new_async_client_def a_now_def)

section \<open>What a client has seen\<close>

text \<open>The clocks a request reports for a key.\<close>

definition seen :: "CausalRequest \<Rightarrow> Key \<Rightarrow> VectorClock set" where
  "seen request key = {clock_of vk | addr vks vk. fmlookup (cq_versioned_key_locations request) addr = Some vks \<and>
     vk \<in> set vks \<and> vk_key vk = key}"

definition maximal_in :: "VectorClock set \<Rightarrow> VectorClock set" where
  "maximal_in S = {v \<in> S. \<not> (\<exists>w \<in> S. vc_le v w \<and> w \<noteq> v)}"

lemma frontier_scan_eq:
  "frontier_scan v fs rem = (if \<exists>f \<in> set fs. vc_le v f then None else Some (fset_of_list (filter (\<lambda>f. vc_le f v) fs) |\<union>| rem))"
  by (induction fs arbitrary: rem) (auto simp: comparison_cases)

lemma populate_frontier_other: "k \<noteq> key \<Longrightarrow> fm_at {||} (populate_causal_frontier k v fr) key = fm_at {||} fr key"
  by (auto simp: populate_causal_frontier_def Let_def fm_touch_def split: option.splits)

lemma populate_frontier_maximal:
  assumes F: "fset (fm_at {||} fr key) = maximal_in S" and below: "\<And>u. u \<in> S \<Longrightarrow> \<exists>w \<in> maximal_in S. vc_le u w"
  shows "fset (fm_at {||} (populate_causal_frontier key v fr) key) = maximal_in (insert v S) \<and>
    (\<forall>u \<in> insert v S. \<exists>w \<in> maximal_in (insert v S). vc_le u w)"
proof (cases "\<exists>f \<in> maximal_in S. vc_le v f")
  case True
  then obtain f where f: "f \<in> maximal_in S" "vc_le v f" by blast
  have "maximal_in (insert v S) = maximal_in S"
  proof (cases "v \<in> S")
    case new: False
    have "v \<notin> maximal_in (insert v S)"
      using f new by (auto simp: maximal_in_def)
    moreover have "u \<in> maximal_in (insert v S)" if u: "u \<in> maximal_in S" for u
    proof -
      have "u = v" if "vc_le u v"
        using u f that vc_le_trans [OF that f(2)] vc_le_antisym [OF that] by (auto simp: maximal_in_def)
      with u show ?thesis by (auto simp: maximal_in_def)
    qed
    ultimately show ?thesis by (auto simp: maximal_in_def)
  qed (simp add: insert_absorb)
  moreover have "fm_at {||} (populate_causal_frontier key v fr) key = fm_at {||} fr key"
    using True F by (auto simp: populate_causal_frontier_def frontier_scan_eq Let_def)
  ultimately show ?thesis using F below f by auto
next
  case False
  have "\<not> vc_le v u" if "u \<in> S" for u
    using below [OF that] False vc_le_trans by blast
  then have max: "maximal_in (insert v S) = insert v {f \<in> maximal_in S. \<not> vc_le f v}"
    unfolding maximal_in_def by auto
  moreover have "fset (fm_at {||} (populate_causal_frontier key v fr) key) = insert v {f \<in> maximal_in S. \<not> vc_le f v}"
    using False F by (auto simp: populate_causal_frontier_def frontier_scan_eq Let_def fset_of_list_elem)
  moreover have "\<exists>w \<in> maximal_in (insert v S). vc_le u w" if "u \<in> insert v S" for u
    using that below vc_le_trans unfolding max by (cases "u = v") (auto, metis)
  ultimately show ?thesis by simp
qed

lemma frontier_fold:
  "fset (fm_at {||} (fold (\<lambda>vk. populate_causal_frontier (vk_key vk) (clock_of vk)) vks fmempty) key) =
     maximal_in {clock_of vk | vk. vk \<in> set vks \<and> vk_key vk = key} \<and>
   (\<forall>u \<in> {clock_of vk | vk. vk \<in> set vks \<and> vk_key vk = key}.
      \<exists>w \<in> maximal_in {clock_of vk | vk. vk \<in> set vks \<and> vk_key vk = key}. vc_le u w)"
proof (induction vks rule: rev_induct)
  case Nil
  show ?case by (simp add: maximal_in_def)
next
  case (snoc vk vks)
  let ?S = "{clock_of vk | vk. vk \<in> set vks \<and> vk_key vk = key}"
  have S: "{clock_of vk' | vk'. vk' \<in> set (vks @ [vk]) \<and> vk_key vk' = key} = (if vk_key vk = key then insert (clock_of vk) ?S else ?S)"
    by auto
  show ?case
    unfolding S using snoc populate_frontier_maximal [of _ key ?S "clock_of vk"]
    by (cases "vk_key vk = key") (auto simp: populate_frontier_other)
qed

text \<open>
  C8. The causal frontier that the cache computes from the versions a client has seen consists, for each
  key, of exactly the maximal clocks among them.
\<close>

theorem causal_frontier_maximal:
  "fset (fm_at {||} (request_frontier request) key) = maximal_in (seen request key)"
proof -
  let ?vks = "concat (map snd (fm_entries (cq_versioned_key_locations request)))"
  have "fold (\<lambda>(addr, vks). fold g vks) es m = fold g (concat (map snd es)) m"
    for g :: "VersionedKey \<Rightarrow> 'm \<Rightarrow> 'm" and es :: "(Address \<times> VersionedKey list) list" and m
    by (induction es arbitrary: m) auto
  then have "request_frontier request = fold (\<lambda>vk. populate_causal_frontier (vk_key vk) (clock_of vk)) ?vks fmempty"
    by (simp add: request_frontier_def)
  moreover have "seen request key = {clock_of vk | vk. vk \<in> set ?vks \<and> vk_key vk = key}"
    by (auto simp: seen_def set_fm_entries) (metis set_fm_entries snd_conv)+
  ultimately show ?thesis using frontier_fold [of ?vks key] by simp
qed

section \<open>Local reads are not stale\<close>

lemma find_in: "List.find P xs = Some x \<Longrightarrow> x \<in> set xs"
  by (induction xs) (auto split: if_splits)

lemma find_address_none:
  assumes "find_address key vc pcc = []" "fmlookup pcc [] = None"
    and "fmlookup pcc addr = Some held" "fmlookup held key = Some v"
  shows "vector_clock_comparison vc v \<noteq> kCausalLess"
proof
  let ?P = "\<lambda>(addr :: Address, k, v). k = key \<and> vector_clock_comparison vc v = kCausalLess"
  let ?xs = "concat (map (\<lambda>(addr, m). map (Pair addr) (fm_entries m)) (fm_entries pcc))"
  assume "vector_clock_comparison vc v = kCausalLess"
  moreover have "(addr, key, v) \<in> set ?xs" using assms(3,4) by (force simp: set_fm_entries)
  ultimately have "List.find ?P ?xs \<noteq> None" unfolding find_None_iff by blast
  then obtain x where found: "List.find ?P ?xs = Some x" by blast
  obtain a k u where x: "x = (a, k, u)" by (rule prod_cases3)
  have "(a, k, u) \<in> set ?xs" using find_in [OF found] x by blast
  then have "\<exists>m. (a, m) \<in> set (fm_entries pcc)" by auto
  then have "fmlookup pcc a \<noteq> None" by (auto simp: set_fm_entries)
  moreover have "a = []" using assms(1) found x by (simp add: find_address_def)
  ultimately show False using assms(2) by simp
qed

lemma read_key_local:
  assumes "read_key E s key (r, requests, md, versions) = Inr (False, requests', md', versions')"
  shows "\<not> r" "pm_dne_set md' = pm_dne_set md" "pm_prior_causal_chains md' = pm_prior_causal_chains md"
    and "key |\<notin>| pm_dne_set md \<Longrightarrow>
      \<exists>l. fmlookup (causal_cut_store s) key = Some l \<and> find_address key (cc_vector_clock l) (pm_prior_causal_chains md) = []"
  using assms by (auto simp: read_key_def Let_def bindr_Inr_iff split: if_splits option.splits)

lemma reads_local:
  assumes "for_each (read_key E s) keys (r, requests, md, versions) = Inr (False, requests', md', versions')"
  shows "\<not> r \<and> (key \<in> set keys \<longrightarrow> key |\<notin>| pm_dne_set md \<longrightarrow>
    (\<exists>l. fmlookup (causal_cut_store s) key = Some l \<and> find_address key (cc_vector_clock l) (pm_prior_causal_chains md) = []))"
  using assms
proof (induction keys arbitrary: r requests md versions)
  case (Cons k keys)
  then obtain r1 requests1 md1 versions1 where
    step: "read_key E s k (r, requests, md, versions) = Inr (r1, requests1, md1, versions1)" and
    rest: "for_each (read_key E s) keys (r1, requests1, md1, versions1) = Inr (False, requests', md', versions')"
    by (auto simp: bindr_Inr_iff)
  from Cons.IH [OF rest] have "\<not> r1" by blast
  then have "r1 = False" by simp
  from read_key_local [OF step [unfolded this]] Cons.IH [OF rest] show ?case by auto
qed simp



section \<open>A read that brings the cache down\<close>

lemma single_tuple_missing:
  "k \<in> set ks \<Longrightarrow> fmlookup store k = None \<Longrightarrow> for_each (single_tuple E store) ks tuples = Inl Null_pointer"
proof (induction ks arbitrary: tuples)
  case (Cons k' ks)
  then show ?case by (cases "fmlookup store k'") (auto simp: single_tuple_def store_deref_def)
qed simp

lemma single_request_missing:
  assumes "routing_threads (kvs s) \<noteq> []" "fmlookup (unmerged_store s) k1 = None" "fmlookup (unmerged_store s) k2 = None"
    and "fmlookup (single_callback_map s) k1 = None" "fmlookup (single_callback_map s) k2 = None" "k1 \<noteq> k2"
    and "cq_tuples request = [t1, t2]" "ct_key t1 = k1" "ct_key t2 = k2"
  shows "\<exists>s1 md. single_request E request s = Inr s1 \<and> unmerged_store s1 = unmerged_store s \<and>
    to_fetch_map s1 = to_fetch_map s \<and> cover_map s1 = cover_map s \<and>
    fmlookup (single_callback_map s1) k1 = Some {|cq_addr request|} \<and> fmlookup (single_callback_map s1) k2 = Some {|cq_addr request|} \<and>
    fmlookup (pending_single_metadata s1) (cq_addr request) = Some md \<and>
    pm_read_set md = {|k1, k2|} \<and> pm_to_cover_set md = {|k1, k2|}"
proof -
  obtain c1 where c1: "get_async E k1 (kvs s) = Inr c1" "routing_threads c1 \<noteq> []"
    using get_async_total [OF assms(1)] by blast
  obtain c2 where c2: "get_async E k2 c1 = Inr c2"
    using get_async_total [OF c1(2)] by blast
  show ?thesis
    using assms c1 c2 by (auto simp: single_request_def single_read_def cache_get_async_def fm_modify_def fm_at_def Let_def)
qed

text \<open>
  C9. A client that reads two keys without a session, neither of which exists, brings the cache down: the
  answer for the first key is dropped from the store again once it has been processed, and when the answer
  for the second key comes the cache reads the first one through a null pointer.
\<close>

theorem missing_keys_break_single_read:
  assumes "routing_threads (kvs s) \<noteq> []" "fmlookup (unmerged_store s) k1 = None" "fmlookup (unmerged_store s) k2 = None"
    and "fmlookup (single_callback_map s) k1 = None" "fmlookup (single_callback_map s) k2 = None" "k1 \<noteq> k2"
    and "fmlookup (to_fetch_map s) k1 = None" "fmlookup (cover_map s) k1 = None"
    and "cq_tuples request = [t1, t2]" "ct_key t1 = k1" "ct_key t2 = k2" "cc_vector_clock l1 = fmempty"
  shows "\<exists>s1 s2. single_request E request s = Inr s1 \<and> process_response E k1 l1 s1 = Inr s2 \<and>
    process_response E k2 l2 s2 = Inl Null_pointer"
proof -
  let ?addr = "cq_addr request"
  obtain s1 md where s1: "single_request E request s = Inr s1"
    and same: "unmerged_store s1 = unmerged_store s" "to_fetch_map s1 = to_fetch_map s" "cover_map s1 = cover_map s"
    and cb: "fmlookup (single_callback_map s1) k1 = Some {|?addr|}" "fmlookup (single_callback_map s1) k2 = Some {|?addr|}"
    and md: "fmlookup (pending_single_metadata s1) ?addr = Some md" "pm_read_set md = {|k1, k2|}" "pm_to_cover_set md = {|k1, k2|}"
    using single_request_missing [OF assms(1-6,9-11)] by blast
  define md1 where "md1 = md\<lparr>pm_to_cover_set := {|k2|}\<rparr>"
  define s2 where "s2 = s1\<lparr>unmerged_store := fmdrop k1 (fmupd k1 l1 (unmerged_store s)),
    pending_single_metadata := fmupd ?addr md1 (pending_single_metadata s1), single_callback_map := fmdrop k1 (single_callback_map s1)\<rparr>"
  have rest: "{|k1, k2|} |-| {|k1|} = {|k2|}" using assms(6) by auto
  have up: "update_unmerged E k1 l1 s1 = Inr (s2\<lparr>unmerged_store := fmupd k1 l1 (unmerged_store s)\<rparr>)"
    using assms(2) assms(6) [symmetric] cb md same rest
    by (simp add: update_unmerged_def store_merge_def notify_single_def fm_at_def Let_def md1_def s2_def)
  have first: "process_response E k1 l1 s1 = Inr s2"
    using assms(7,8,12) same
    by (simp add: process_response_def up prepare_queried_def cover_dependencies_def drop_missing_def store_deref_def
        comparison_cases s2_def)
  have "fmlookup (fmupd k2 l2 (unmerged_store s2)) k1 = None" using assms(6) by (simp add: s2_def)
  moreover have "k1 \<in> set (fs_elems (pm_read_set md))" using md by simp
  ultimately have "notify_single E k2 ?addr (s2\<lparr>unmerged_store := fmupd k2 l2 (unmerged_store s2)\<rparr>) = Inl Null_pointer"
    using single_tuple_missing by (simp add: notify_single_def fm_at_def Let_def md1_def s2_def)
  then have "process_response E k2 l2 s2 = Inl Null_pointer"
    using assms(3,6) cb(2) by (simp add: process_response_def update_unmerged_def store_merge_def s2_def Let_def)
  with s1 first show ?thesis by blast
qed

theorem missing_keys_break_single_read_witness:
  "\<exists>s1 s2. single_request sample_env (put_both\<lparr>cq_consistency := SINGLE\<rparr>) sample_cache = Inr s1 \<and>
     process_response sample_env ''b'' (version_b\<lparr>cc_vector_clock := fmempty\<rparr>) s1 = Inr s2 \<and>
     process_response sample_env ''a'' version_a s2 = Inl Null_pointer"
  by (rule missing_keys_break_single_read,
      simp_all add: sample_cache_def new_causal_cache_def new_async_client_def a_now_def put_both_def, simp_all)

end
