(* ===== verification/Local_Cache.thy ===== *)
theory Local_Cache
  imports Kvs_Client
begin

text \<open>
  The cache of functions/cache/src/cache.cpp, which keeps values of three lattice types beside a
  function executor and talks to the key-value store through the blocking client. The local stores and
  the map of lattice types are shared with the asynchronous cache.
\<close>

section \<open>The local stores\<close>

record local_caches =
  local_lww_cache :: "(Key, TimestampValuePair) fmap"
  local_set_cache :: "(Key, string fset) fmap"
  local_ordered_set_cache :: "(Key, string fset) fmap"
  key_type_map :: "(Key, LatticeType) fmap"

definition merge_into :: "('v \<Rightarrow> 'v \<Rightarrow> 'v) \<Rightarrow> Key \<Rightarrow> 'v \<Rightarrow> (Key, 'v) fmap \<Rightarrow> (Key, 'v) fmap" where
  "merge_into merge key new_val m =
     fmupd key (case fmlookup m key of None \<Rightarrow> new_val | Some old \<Rightarrow> merge new_val old) m"

definition drop_local :: "LatticeType \<Rightarrow> Key \<Rightarrow> 'a local_caches_scheme \<Rightarrow> 'a local_caches_scheme" where
  "drop_local type key s =
     (case type of
        LWW \<Rightarrow> s\<lparr>local_lww_cache := fmdrop key (local_lww_cache s)\<rparr>
      | SET \<Rightarrow> s\<lparr>local_set_cache := fmdrop key (local_set_cache s)\<rparr>
      | ORDERED_SET \<Rightarrow> s\<lparr>local_ordered_set_cache := fmdrop key (local_ordered_set_cache s)\<rparr>
      | _ \<Rightarrow> s)"

definition lc_store :: "env \<Rightarrow> LatticeType \<Rightarrow> Key \<Rightarrow> string \<Rightarrow> 'a local_caches_scheme \<Rightarrow> 'a local_caches_scheme" where
  "lc_store E type key payload s =
     (case type of
        LWW \<Rightarrow> s\<lparr>local_lww_cache := merge_into lww_do_merge key (deserialize_lww E payload) (local_lww_cache s)\<rparr>
      | SET \<Rightarrow> s\<lparr>local_set_cache := merge_into set_do_merge key (deserialize_set E payload) (local_set_cache s)\<rparr>
      | ORDERED_SET \<Rightarrow> s\<lparr>local_ordered_set_cache :=
          merge_into oset_do_merge key (deserialize_ordered_set E payload) (local_ordered_set_cache s)\<rparr>
      | _ \<Rightarrow> s)"

section \<open>State of the blocking cache\<close>

record sync_cache = local_caches +
  lc_thread :: CacheThread
  lc_client :: sync_client
  lc_out :: "KeyResponse list"
  lc_report_start :: int

definition kCacheReportThreshold :: u32 where
  "kCacheReportThreshold = 5"

definition new_sync_cache :: "Address \<Rightarrow> u32 \<Rightarrow> sync_client \<Rightarrow> int \<Rightarrow> sync_cache" where
  "new_sync_cache ip thread_id c now =
     \<lparr>local_lww_cache = fmempty, local_set_cache = fmempty, local_ordered_set_cache = fmempty, key_type_map = fmempty,
      lc_thread = make_CacheThread ip thread_id, lc_client = c, lc_out = [], lc_report_start = now\<rparr>"

section \<open>Gets\<close>

definition fetch_lww :: "env \<Rightarrow> Key \<Rightarrow> sync_cache \<Rightarrow> fault + sync_cache" where
  "fetch_lww E key s =
     (if fm_contains (local_lww_cache s) key then Inr s
      else bindr (get_lww E key 10 (lc_client s)) (\<lambda>(v, c).
           Inr (s\<lparr>lc_client := c, local_lww_cache := fmupd key v (local_lww_cache s),
                  key_type_map := fmupd key LWW (key_type_map s)\<rparr>)))"

definition fetch_set :: "env \<Rightarrow> Key \<Rightarrow> sync_cache \<Rightarrow> fault + sync_cache" where
  "fetch_set E key s =
     (if fm_contains (local_set_cache s) key then Inr s
      else bindr (get_set E key 10 (lc_client s)) (\<lambda>(v, c).
           Inr (s\<lparr>lc_client := c, local_set_cache := fmupd key v (local_set_cache s),
                  key_type_map := fmupd key SET (key_type_map s)\<rparr>)))"

definition fetch_ordered_set :: "env \<Rightarrow> Key \<Rightarrow> sync_cache \<Rightarrow> fault + sync_cache" where
  "fetch_ordered_set E key s =
     (if fm_contains (local_ordered_set_cache s) key then Inr s
      else bindr (get_ordered_set E key 10 (lc_client s)) (\<lambda>(v, c).
           Inr (s\<lparr>lc_client := c, local_ordered_set_cache := fmupd key v (local_ordered_set_cache s),
                  key_type_map := fmupd key ORDERED_SET (key_type_map s)\<rparr>)))"

definition lc_get_tuple :: "env \<Rightarrow> KeyTuple \<Rightarrow> KeyTuple list \<times> sync_cache \<Rightarrow> fault + (KeyTuple list \<times> sync_cache)" where
  "lc_get_tuple E tuple = (\<lambda>(tuples, s).
     let key = t_key tuple;
         resp = empty_tuple\<lparr>t_key := key\<rparr>;
         value_of = (\<lambda>type payload. resp\<lparr>t_payload := Some payload, t_lattice_type := Some type\<rparr>)
     in case t_lattice_type tuple of
          None \<Rightarrow> Inr (tuples @ [resp\<lparr>t_error := Some 3\<rparr>], s)
        | Some LWW \<Rightarrow> bindr (fetch_lww E key s) (\<lambda>s.
            Inr (tuples @ [value_of LWW (serialize_lww E (fm_at lww_default (local_lww_cache s) key))], s))
        | Some SET \<Rightarrow> bindr (fetch_set E key s) (\<lambda>s.
            Inr (tuples @ [value_of SET (serialize_set E (fm_at {||} (local_set_cache s) key))], s))
        | Some ORDERED_SET \<Rightarrow> bindr (fetch_ordered_set E key s) (\<lambda>s.
            Inr (tuples @ [value_of ORDERED_SET (serialize_ordered_set E (fm_at {||} (local_ordered_set_cache s) key))], s))
        | Some _ \<Rightarrow> Inr (tuples @ [resp\<lparr>t_error := Some 3\<rparr>], s))"

definition lc_get :: "env \<Rightarrow> KeyRequest \<Rightarrow> sync_cache \<Rightarrow> fault + sync_cache" where
  "lc_get E request s =
     bindr (for_each (lc_get_tuple E) (q_tuples request) ([], s)) (\<lambda>(tuples, s).
       Inr (s\<lparr>lc_out := lc_out s @ [empty_response\<lparr>r_type := q_type request, r_tuples := tuples\<rparr>]\<rparr>))"

section \<open>Puts\<close>

definition lc_put_tuple :: "env \<Rightarrow> KeyTuple \<Rightarrow> KeyTuple list \<times> sync_cache \<Rightarrow> KeyTuple list \<times> sync_cache" where
  "lc_put_tuple E tuple = (\<lambda>(tuples, s).
     let key = t_key tuple;
         resp = empty_tuple\<lparr>t_key := key\<rparr>;
         type = t_lattice tuple
     in if (case fmlookup (key_type_map s) key of None \<Rightarrow> False | Some t \<Rightarrow> t \<noteq> type) \<or> type \<notin> {LWW, SET, ORDERED_SET}
        then (tuples @ [resp\<lparr>t_error := Some 2\<rparr>], s)
        else (tuples @ [resp\<lparr>t_error := Some 0\<rparr>], lc_store E type key (t_value tuple) s))"

text \<open>The loop that passes the values on; \<open>operator[]\<close> puts a default value where the store has none.\<close>

definition lc_forward :: "env \<Rightarrow> KeyTuple \<Rightarrow> sync_cache \<Rightarrow> fault + sync_cache" where
  "lc_forward E tuple s =
     (let key = t_key tuple
      in case t_lattice tuple of
           LWW \<Rightarrow> bindr (put_lww E key (fm_at lww_default (local_lww_cache s) key) 10 (lc_client s)) (\<lambda>(_, c).
             Inr (s\<lparr>lc_client := c, local_lww_cache := fm_touch lww_default key (local_lww_cache s)\<rparr>))
         | SET \<Rightarrow> bindr (put_set E key (fm_at {||} (local_set_cache s) key) 10 (lc_client s)) (\<lambda>(_, c).
             Inr (s\<lparr>lc_client := c, local_set_cache := fm_touch {||} key (local_set_cache s)\<rparr>))
         | ORDERED_SET \<Rightarrow> bindr (put_ordered_set E key (fm_at {||} (local_ordered_set_cache s) key) 10 (lc_client s)) (\<lambda>(_, c).
             Inr (s\<lparr>lc_client := c, local_ordered_set_cache := fm_touch {||} key (local_ordered_set_cache s)\<rparr>))
         | _ \<Rightarrow> Inr s)"

definition lc_put :: "env \<Rightarrow> KeyRequest \<Rightarrow> sync_cache \<Rightarrow> fault + sync_cache" where
  "lc_put E request s =
     (let (tuples, s) = fold (lc_put_tuple E) (q_tuples request) ([], s)
      in for_each (lc_forward E) (q_tuples request)
           (s\<lparr>lc_out := lc_out s @ [empty_response\<lparr>r_type := q_type request, r_tuples := tuples\<rparr>]\<rparr>))"

section \<open>Updates and reports\<close>

text \<open>A set value falls through to the case of ordered sets.\<close>

definition lc_update_tuple :: "env \<Rightarrow> KeyTuple \<Rightarrow> sync_cache \<Rightarrow> sync_cache" where
  "lc_update_tuple E tuple s =
     (let key = t_key tuple;
          type = t_lattice tuple
      in case fmlookup (key_type_map s) key of
           None \<Rightarrow> s
         | Some known \<Rightarrow>
             let s = (if known \<noteq> type then (drop_local known key s)\<lparr>key_type_map := fmupd key type (key_type_map s)\<rparr> else s);
                 s = lc_store E type key (t_value tuple) s
             in if type = SET then lc_store E ORDERED_SET key (t_value tuple) s else s)"

definition lc_report :: "env \<Rightarrow> u64 \<Rightarrow> int \<Rightarrow> sync_cache \<Rightarrow> fault + sync_cache" where
  "lc_report E time now s =
     bindr (generate_timestamp time (ct_tid (lc_thread s))) (\<lambda>ts.
     bindr (put_lww E (get_user_metadata_key (ct_ip (lc_thread s)) cache_ip)
              \<lparr>timestamp = ts, tvp_value = ser_keyset E (map fst (fm_entries (key_type_map s)))\<rparr> 10 (lc_client s)) (\<lambda>(_, c).
       Inr (s\<lparr>lc_client := c, lc_report_start := now\<rparr>)))"

text \<open>
  One round of the loop: the message each socket has, if any, the two readings of the clock for the
  report and the time in milliseconds for its timestamp.
\<close>

record lc_input =
  li_get :: "KeyRequest option"
  li_put :: "KeyRequest option"
  li_update :: "KeyRequest option"
  li_report_end :: int
  li_report_start :: int
  li_time :: u64

definition lc_round :: "env \<Rightarrow> lc_input \<Rightarrow> sync_cache \<Rightarrow> fault + sync_cache" where
  "lc_round E i s =
     bindr (case li_get i of None \<Rightarrow> Inr s | Some q \<Rightarrow> lc_get E q s) (\<lambda>s.
     bindr (case li_put i of None \<Rightarrow> Inr s | Some q \<Rightarrow> lc_put E q s) (\<lambda>s.
     let s = (case li_update i of None \<Rightarrow> s | Some q \<Rightarrow> fold (lc_update_tuple E) (q_tuples q) s)
     in if uint kCacheReportThreshold \<le> (li_report_end i - lc_report_start s) sdiv 1000000000
        then lc_report E (li_time i) (li_report_start i) s else Inr s))"

end
