(* ===== verification/Async_Cache.thy ===== *)
theory Async_Cache
  imports Local_Cache
begin

text \<open>
  The cache of functions/cache/src/async\_cache.cpp, which answers when the key-value store has answered,
  evicts the keys that were not used for the longest time and talks to the store through the
  asynchronous client. A node of the list of recently used keys is identified by a number, and an
  iterator is such a number: it is valid as long as its node is in the list.
\<close>

section \<open>State\<close>

record ReadMetadata =
  read_keys :: "Key fset"
  to_retrieve_set :: "Key fset"

record async_cache = local_caches +
  ac_thread :: CacheThread
  pending_request_read_set :: "(Address, ReadMetadata) fmap"
  key_requestor_map :: "(Key, Address fset) fmap"
  request_address_map :: "(string, Address) fmap"
  access_order :: "(nat \<times> Key) list"
  iterator_cache :: "(Key, nat) fmap"
  next_node :: nat
  ac_client :: async_client
  ac_out :: "(Address \<times> KeyResponse) list"
  ac_report_start :: int

definition ac_send :: "Address \<Rightarrow> KeyResponse \<Rightarrow> async_cache \<Rightarrow> async_cache" where
  "ac_send addr response s = s\<lparr>ac_out := ac_out s @ [(addr, response)]\<rparr>"

definition q_addr :: "KeyRequest \<Rightarrow> Address" where
  "q_addr request = from_option [] (q_response_address request)"

section \<open>Values\<close>

definition get_serialized_value_from_cache :: "env \<Rightarrow> Key \<Rightarrow> LatticeType \<Rightarrow> 'a local_caches_scheme \<Rightarrow> string" where
  "get_serialized_value_from_cache E key type s =
     (case type of
        LWW \<Rightarrow> (case fmlookup (local_lww_cache s) key of Some v \<Rightarrow> serialize_lww E v | None \<Rightarrow> [])
      | SET \<Rightarrow> (case fmlookup (local_set_cache s) key of Some v \<Rightarrow> serialize_set E v | None \<Rightarrow> [])
      | ORDERED_SET \<Rightarrow> (case fmlookup (local_ordered_set_cache s) key of Some v \<Rightarrow> serialize_ordered_set E v | None \<Rightarrow> [])
      | _ \<Rightarrow> [])"

definition update_cache :: "env \<Rightarrow> Key \<Rightarrow> LatticeType \<Rightarrow> string \<Rightarrow> 'a local_caches_scheme \<Rightarrow> 'a local_caches_scheme" where
  "update_cache E key type payload s =
     (case type of
        LWW \<Rightarrow> s\<lparr>local_lww_cache :=
          fm_modify lww_default key (\<lambda>v. lww_do_merge v (deserialize_lww E payload)) (local_lww_cache s)\<rparr>
      | SET \<Rightarrow> s\<lparr>local_set_cache :=
          fm_modify {||} key (\<lambda>v. set_do_merge v (deserialize_set E payload)) (local_set_cache s)\<rparr>
      | ORDERED_SET \<Rightarrow> s\<lparr>local_ordered_set_cache :=
          fm_modify {||} key (\<lambda>v. oset_do_merge v (deserialize_ordered_set E payload)) (local_ordered_set_cache s)\<rparr>
      | _ \<Rightarrow> s)"

definition get_response_tuple :: "env \<Rightarrow> async_cache \<Rightarrow> Key \<Rightarrow> KeyTuple" where
  "get_response_tuple E s key =
     (case fmlookup (key_type_map s) key of
        None \<Rightarrow> empty_tuple\<lparr>t_key := key, t_error := Some 1\<rparr>
      | Some type \<Rightarrow> empty_tuple\<lparr>t_key := key, t_error := Some 0, t_lattice_type := Some type,
          t_payload := Some (get_serialized_value_from_cache E key type s)\<rparr>)"

definition send_get_response :: "env \<Rightarrow> Key fset \<Rightarrow> Address \<Rightarrow> async_cache \<Rightarrow> async_cache" where
  "send_get_response E read_set response_addr s =
     ac_send response_addr (empty_response\<lparr>r_type := GET, r_tuples := map (get_response_tuple E s) (fs_elems read_set)\<rparr>) s"

definition send_error_response :: "RequestType \<Rightarrow> Address \<Rightarrow> async_cache \<Rightarrow> async_cache" where
  "send_error_response type response_addr = ac_send response_addr (empty_response\<lparr>r_type := type, r_error := Some 1\<rparr>)"

section \<open>Recently used keys\<close>

definition access_erase :: "Key \<Rightarrow> async_cache \<Rightarrow> fault + async_cache" where
  "access_erase key s =
     (case fmlookup (iterator_cache s) key of
        None \<Rightarrow> Inl Invalid_iterator
      | Some n \<Rightarrow>
          if n \<in> set (map fst (access_order s))
          then Inr (s\<lparr>access_order := filter (\<lambda>(m, _). m \<noteq> n) (access_order s)\<rparr>)
          else Inl Invalid_iterator)"

definition access_push :: "Key \<Rightarrow> async_cache \<Rightarrow> async_cache" where
  "access_push key s =
     s\<lparr>access_order := (next_node s, key) # access_order s, next_node := next_node s + 1,
       iterator_cache := fmupd key (next_node s) (iterator_cache s)\<rparr>"

text \<open>One turn of the loop that drops keys; the last element of an empty list is not defined.\<close>

definition evict :: "async_cache \<Rightarrow> fault + async_cache" where
  "evict s =
     (if access_order s = [] then Inl Invalid_iterator
      else let key = snd (last (access_order s));
               type = fm_at NO (key_type_map s) key
           in Inr (drop_local type key
                (s\<lparr>access_order := butlast (access_order s), iterator_cache := fmdrop key (iterator_cache s),
                   key_type_map := fmdrop key (key_type_map s)\<rparr>)))"

definition ac_evict :: "async_cache \<Rightarrow> fault + async_cache" where
  "ac_evict s =
     (if 1000 < fcard (fmdom (key_type_map s)) then for_each (\<lambda>_. evict) [0 ..< 10 :: nat] s else Inr s)"

section \<open>Requests\<close>

definition ac_get_async :: "env \<Rightarrow> Key \<Rightarrow> async_cache \<Rightarrow> fault + async_cache" where
  "ac_get_async E key s = bindr (get_async E key (ac_client s)) (\<lambda>c. Inr (s\<lparr>ac_client := c\<rparr>))"

definition ac_get_tuple ::
  "env \<Rightarrow> Address \<Rightarrow> KeyTuple \<Rightarrow> Key fset \<times> Key fset \<times> async_cache \<Rightarrow> fault + (Key fset \<times> Key fset \<times> async_cache)" where
  "ac_get_tuple E addr tuple = (\<lambda>(read_set, to_retrieve, s).
     let key = t_key tuple
     in if \<not> fm_contains (key_type_map s) key
        then bindr (ac_get_async E key (s\<lparr>key_requestor_map := fm_modify {||} key (finsert addr) (key_requestor_map s)\<rparr>)) (\<lambda>s.
             Inr (finsert key read_set, finsert key to_retrieve, access_push key s))
        else bindr (access_erase key s) (\<lambda>s. Inr (finsert key read_set, to_retrieve, access_push key s)))"

definition ac_get :: "env \<Rightarrow> KeyRequest \<Rightarrow> async_cache \<Rightarrow> fault + async_cache" where
  "ac_get E request s =
     bindr (for_each (ac_get_tuple E (q_addr request)) (q_tuples request) ({||}, {||}, s)) (\<lambda>(read_set, to_retrieve, s).
       if to_retrieve = {||} then Inr (send_get_response E read_set (q_addr request) s)
       else Inr (s\<lparr>pending_request_read_set := fmupd (q_addr request)
              \<lparr>read_keys = read_set, to_retrieve_set = to_retrieve\<rparr> (pending_request_read_set s)\<rparr>))"

definition ac_put_tuple :: "env \<Rightarrow> Address \<Rightarrow> KeyTuple \<Rightarrow> async_cache \<Rightarrow> fault + async_cache" where
  "ac_put_tuple E addr tuple s =
     (let key = t_key tuple;
          s = update_cache E key (t_lattice tuple) (t_value tuple)
                (s\<lparr>key_type_map := fmupd key (t_lattice tuple) (key_type_map s)\<rparr>)
      in bindr (if fm_contains (iterator_cache s) key then access_erase key s else Inr s) (\<lambda>s.
         let s = access_push key s
         in bindr (put_async E key (t_value tuple) (t_lattice tuple) (ac_client s)) (\<lambda>(req_id, c).
            Inr (s\<lparr>ac_client := c, request_address_map := fmupd req_id addr (request_address_map s)\<rparr>))))"

definition put_type_error :: "async_cache \<Rightarrow> KeyTuple \<Rightarrow> bool" where
  "put_type_error s tuple \<longleftrightarrow>
     (case t_lattice_type tuple of
        None \<Rightarrow> True
      | Some type \<Rightarrow> (case fmlookup (key_type_map s) (t_key tuple) of None \<Rightarrow> False | Some t \<Rightarrow> t \<noteq> type))"

definition ac_put :: "env \<Rightarrow> KeyRequest \<Rightarrow> async_cache \<Rightarrow> fault + async_cache" where
  "ac_put E request s =
     (if list_ex (put_type_error s) (q_tuples request) then Inr (send_error_response PUT (q_addr request) s)
      else for_each (ac_put_tuple E (q_addr request)) (q_tuples request) s)"

definition ac_update_tuple :: "env \<Rightarrow> KeyTuple \<Rightarrow> async_cache \<Rightarrow> async_cache" where
  "ac_update_tuple E tuple s =
     (let key = t_key tuple;
          type = t_lattice tuple
      in case fmlookup (key_type_map s) key of
           None \<Rightarrow> s
         | Some known \<Rightarrow>
             update_cache E key type (t_value tuple)
               (if known \<noteq> type then (drop_local known key s)\<lparr>key_type_map := fmupd key type (key_type_map s)\<rparr> else s))"

section \<open>Responses of the store\<close>

definition ac_retry_put :: "env \<Rightarrow> Key \<Rightarrow> KeyTuple \<Rightarrow> string \<Rightarrow> async_cache \<Rightarrow> fault + async_cache" where
  "ac_retry_put E key tuple response_id s =
     (case fmlookup (request_address_map s) response_id of
        None \<Rightarrow> Inr s
      | Some addr \<Rightarrow>
          bindr (put_async E key (t_value tuple) (t_lattice tuple) (ac_client s)) (\<lambda>(new_req_id, c).
            Inr (s\<lparr>ac_client := c, request_address_map :=
                     fmdrop response_id (fmupd new_req_id addr (request_address_map s))\<rparr>)))"

definition ac_notify :: "env \<Rightarrow> Key \<Rightarrow> Address \<Rightarrow> async_cache \<Rightarrow> async_cache" where
  "ac_notify E key addr s =
     (let md = fm_at \<lparr>read_keys = {||}, to_retrieve_set = {||}\<rparr> (pending_request_read_set s) addr;
          md = md\<lparr>to_retrieve_set := to_retrieve_set md |-| {|key|}\<rparr>
      in if to_retrieve_set md = {||}
         then (send_get_response E (read_keys md) addr s)
                \<lparr>pending_request_read_set := fmdrop addr (pending_request_read_set s)\<rparr>
         else s\<lparr>pending_request_read_set := fmupd addr md (pending_request_read_set s)\<rparr>)"

definition ac_take_value :: "env \<Rightarrow> KeyTuple \<Rightarrow> async_cache \<Rightarrow> async_cache" where
  "ac_take_value E tuple s =
     (let key = t_key tuple;
          s = (if t_err tuple \<noteq> 1
               then update_cache E key (t_lattice tuple) (t_value tuple)
                      (s\<lparr>key_type_map := fmupd key (t_lattice tuple) (key_type_map s)\<rparr>)
               else s)
      in case fmlookup (key_requestor_map s) key of
           None \<Rightarrow> s
         | Some addrs \<Rightarrow> (fold (ac_notify E key) (fs_elems addrs) s)
             \<lparr>key_requestor_map := fmdrop key (key_requestor_map s)\<rparr>)"

definition ac_response :: "env \<Rightarrow> KeyResponse \<Rightarrow> async_cache \<Rightarrow> fault + async_cache" where
  "ac_response E response s =
     bindr (vec_at (r_tuples response) 0) (\<lambda>tuple.
       if r_error response = Some 0
       then if r_type response = GET then ac_get_async E (t_key tuple) s
            else ac_retry_put E (t_key tuple) tuple (resp_id response) s
       else if r_type response = GET then Inr (ac_take_value E tuple s)
       else case fmlookup (request_address_map s) (resp_id response) of
              None \<Rightarrow> Inr s
            | Some addr \<Rightarrow> Inr ((ac_send addr response s)
                \<lparr>request_address_map := fmdrop (resp_id response) (request_address_map s)\<rparr>))"

section \<open>The loop\<close>

definition ac_now :: "async_cache \<Rightarrow> int \<times> async_cache" where
  "ac_now s = (let (now, c) = a_now (ac_client s) in (now, s\<lparr>ac_client := c\<rparr>))"

definition new_async_cache :: "Address \<Rightarrow> u32 \<Rightarrow> async_client \<Rightarrow> async_cache" where
  "new_async_cache ip thread_id c =
     (let (start, c) = a_now c;
          (_, c) = a_now c
      in \<lparr>local_lww_cache = fmempty, local_set_cache = fmempty, local_ordered_set_cache = fmempty, key_type_map = fmempty,
          ac_thread = make_CacheThread ip thread_id, pending_request_read_set = fmempty, key_requestor_map = fmempty,
          request_address_map = fmempty, access_order = [], iterator_cache = fmempty, next_node = 0, ac_client = c,
          ac_out = [], ac_report_start = start\<rparr>)"

definition ac_report :: "env \<Rightarrow> u64 \<Rightarrow> async_cache \<Rightarrow> fault + async_cache" where
  "ac_report E time s =
     (let (report_end, s) = ac_now s
      in if uint kCacheReportThreshold \<le> (report_end - ac_report_start s) sdiv 1000000000
         then bindr (generate_timestamp time (ct_tid (ac_thread s))) (\<lambda>ts.
              bindr (put_async E (get_user_metadata_key (ct_ip (ac_thread s)) cache_ip)
                 (serialize_lww E \<lparr>timestamp = ts, tvp_value = ser_keyset E (map fst (fm_entries (key_type_map s)))\<rparr>)
                 LWW (ac_client s)) (\<lambda>(_, c).
                let (now, s) = ac_now (s\<lparr>ac_client := c\<rparr>) in Inr (s\<lparr>ac_report_start := now\<rparr>)))
         else Inr s)"

record ac_input =
  ai_get :: "KeyRequest option"
  ai_put :: "KeyRequest option"
  ai_update :: "KeyRequest option"
  ai_addresses :: "KeyAddressResponse option"
  ai_kvs_response :: "KeyResponse option"
  ai_time :: u64

definition ac_requests :: "env \<Rightarrow> ac_input \<Rightarrow> async_cache \<Rightarrow> fault + async_cache" where
  "ac_requests E i s =
     bindr (case ai_get i of None \<Rightarrow> Inr s | Some q \<Rightarrow> ac_get E q s) (\<lambda>s.
     bindr (case ai_put i of None \<Rightarrow> Inr s | Some q \<Rightarrow> ac_put E q s) (\<lambda>s.
     Inr (case ai_update i of None \<Rightarrow> s | Some q \<Rightarrow> fold (ac_update_tuple E) (q_tuples q) s)))"

definition ac_responses :: "env \<Rightarrow> ac_input \<Rightarrow> async_cache \<Rightarrow> fault + async_cache" where
  "ac_responses E i s =
     bindr (receive_async E (ai_addresses i) (ai_kvs_response i) (ac_client s)) (\<lambda>(responses, c).
       for_each (ac_response E) responses (s\<lparr>ac_client := c\<rparr>))"

definition ac_round :: "env \<Rightarrow> ac_input \<Rightarrow> async_cache \<Rightarrow> fault + async_cache" where
  "ac_round E i s =
     bindr (ac_requests E i s) (\<lambda>s.
     bindr (ac_responses E i s) (\<lambda>s.
     bindr (ac_report E (ai_time i) s) ac_evict))"

end
