(* ===== verification/Cache_Correct.thy ===== *)
theory Cache_Correct
  imports Async_Cache Async_Correct Client_Correct
begin

text \<open>
  Properties of the caches with a blocking and an asynchronous client: the lattice types they record
  describe what they hold, no waiting client is forgotten, and where they go wrong.
\<close>

section \<open>Recorded types\<close>

definition holds :: "LatticeType \<Rightarrow> Key \<Rightarrow> 'a local_caches_scheme \<Rightarrow> bool" where
  "holds type key s \<longleftrightarrow>
     (case type of
        LWW \<Rightarrow> fm_contains (local_lww_cache s) key
      | SET \<Rightarrow> fm_contains (local_set_cache s) key
      | ORDERED_SET \<Rightarrow> fm_contains (local_ordered_set_cache s) key
      | _ \<Rightarrow> True)"

definition typed :: "'a local_caches_scheme \<Rightarrow> bool" where
  "typed s \<longleftrightarrow> (\<forall>key type. fmlookup (key_type_map s) key = Some type \<longrightarrow> holds type key s)"

definition stores :: "'a local_caches_scheme \<Rightarrow> (Key, TimestampValuePair) fmap \<times> (Key, string fset) fmap \<times>
    (Key, string fset) fmap \<times> (Key, LatticeType) fmap" where
  "stores s = (local_lww_cache s, local_set_cache s, local_ordered_set_cache s, key_type_map s)"

lemma typed_cong: "stores s' = stores s \<Longrightarrow> typed s' = typed s"
  by (simp add: stores_def typed_def holds_def cong: LatticeType.case_cong)

lemma holds_update_cache [simp]:
  "holds type' key' (update_cache E key type payload s) \<longleftrightarrow> key' = key \<and> type' = type \<or> holds type' key' s"
  by (cases type; cases type') (auto simp: update_cache_def holds_def fm_modify_def)

lemma key_type_update_cache [simp]: "key_type_map (update_cache E key type payload s) = key_type_map s"
  by (simp add: update_cache_def split: LatticeType.splits)

lemma key_type_drop_local [simp]: "key_type_map (drop_local type key s) = key_type_map s"
  by (simp add: drop_local_def split: LatticeType.splits)

lemma holds_drop_local: "key' \<noteq> key \<Longrightarrow> holds type' key' (drop_local type key s) = holds type' key' s"
  by (cases type; cases type') (simp_all add: drop_local_def holds_def)

lemma holds_types [simp]: "holds type key (s\<lparr>key_type_map := m\<rparr>) = holds type key s"
  by (simp add: holds_def cong: LatticeType.case_cong)

lemma typed_record: "typed s \<Longrightarrow> typed (update_cache E key type payload (s\<lparr>key_type_map := fmupd key type (key_type_map s)\<rparr>))"
  by (auto simp: typed_def split: if_splits)

lemma typed_update:
  assumes "typed s"
  shows "typed (ac_update_tuple E tuple s)"
proof (cases "fmlookup (key_type_map s) (t_key tuple)")
  case (Some known)
  then show ?thesis
    using assms by (auto simp: ac_update_tuple_def Let_def typed_def holds_drop_local split: if_splits)
qed (use assms in \<open>simp add: ac_update_tuple_def\<close>)

lemma typed_drop:
  "typed s \<Longrightarrow> typed (drop_local type key (s\<lparr>access_order := ao, iterator_cache := ic, key_type_map := fmdrop key (key_type_map s)\<rparr>))"
  for s :: async_cache
  by (auto simp: typed_def holds_drop_local split: if_splits) (simp add: holds_def cong: LatticeType.case_cong)

section \<open>Clients that wait\<close>

definition registered :: "async_cache \<Rightarrow> bool" where
  "registered s \<longleftrightarrow> (\<forall>addr md key. fmlookup (pending_request_read_set s) addr = Some md \<longrightarrow> key |\<in>| to_retrieve_set md \<longrightarrow>
     (\<exists>addrs. fmlookup (key_requestor_map s) key = Some addrs \<and> addr |\<in>| addrs))"

text \<open>Each key that someone waits for is asked for; the responses in \<open>R\<close> are still to be processed.\<close>

definition asked :: "KeyResponse list \<Rightarrow> async_cache \<Rightarrow> bool" where
  "asked R s \<longleftrightarrow> async_ok (ac_client s) \<and>
     (\<forall>key. fm_contains (key_requestor_map s) key \<longrightarrow> outstanding key (ac_client s) \<or> answered key R)"

definition ac_inv :: "KeyResponse list \<Rightarrow> async_cache \<Rightarrow> bool" where
  "ac_inv R s \<longleftrightarrow> typed s \<and> registered s \<and> asked R s"

text \<open>The parts of the cache that the invariant looks at.\<close>

definition ac_view :: "async_cache \<Rightarrow> _" where
  "ac_view s = (stores s, pending_request_read_set s, key_requestor_map s, pendings (ac_client s))"

lemma ac_inv_cong: "ac_view s' = ac_view s \<Longrightarrow> ac_inv R s' = ac_inv R s"
  using typed_cong [of s' s] pendings_cong [of "ac_client s'" "ac_client s"]
  by (simp add: ac_inv_def ac_view_def registered_def asked_def)

lemma ac_view_simps [simp]:
  "ac_view (ac_send a r s) = ac_view s" "ac_view (access_push key s) = ac_view s"
  "ac_view (send_get_response E ks a s) = ac_view s" "ac_view (send_error_response t a s) = ac_view s"
  "ac_view (snd (ac_now s)) = ac_view s"
  by (simp_all add: ac_view_def stores_def ac_send_def access_push_def send_get_response_def send_error_response_def ac_now_def
      case_prod_unfold Let_def)

lemma ac_view_erase: "access_erase key s = Inr s' \<Longrightarrow> ac_view s' = ac_view s"
  by (auto simp: access_erase_def ac_view_def stores_def split: option.splits if_splits)

lemma ac_get_async_inv:
  assumes "ac_get_async E key s = Inr s'" "ac_inv R (s\<lparr>key_requestor_map := m\<rparr>)"
    and "key_requestor_map s = fm_modify {||} key (finsert addr) m"
  shows "ac_inv R s'"
proof -
  obtain c where c: "get_async E key (ac_client s) = Inr c" and s': "s' = s\<lparr>ac_client := c\<rparr>"
    using assms(1) by (auto simp: ac_get_async_def bindr_Inr_iff)
  have "async_ok (ac_client s)" using assms(2) by (simp add: ac_inv_def asked_def)
  note get_effect [OF c this]
  moreover have "typed s' \<longleftrightarrow> typed (s\<lparr>key_requestor_map := m\<rparr>)"
    by (rule typed_cong) (simp add: s' stores_def)
  ultimately show ?thesis
    using assms(2,3) by (auto simp: ac_inv_def s' registered_def asked_def fm_modify_def fm_at_def split: if_splits option.splits) fastforce+
qed

section \<open>Every handler keeps the invariant\<close>

lemma ac_get_tuple_inv:
  assumes "ac_get_tuple E addr tuple (ks, ret, s) = Inr (ks', ret', s')" "ac_inv R s"
    and "\<And>key. key |\<in>| ret \<Longrightarrow> \<exists>addrs. fmlookup (key_requestor_map s) key = Some addrs \<and> addr |\<in>| addrs"
  shows "ac_inv R s' \<and> (\<forall>key. key |\<in>| ret' \<longrightarrow> (\<exists>addrs. fmlookup (key_requestor_map s') key = Some addrs \<and> addr |\<in>| addrs))"
proof (cases "fm_contains (key_type_map s) (t_key tuple)")
  case True
  then obtain s1 where s1: "access_erase (t_key tuple) s = Inr s1" "s' = access_push (t_key tuple) s1" "ret' = ret"
    using assms(1) by (auto simp: ac_get_tuple_def Let_def bindr_Inr_iff)
  then have v: "ac_view s' = ac_view s" using ac_view_erase by simp
  from v have "key_requestor_map s' = key_requestor_map s" by (simp add: ac_view_def)
  with ac_inv_cong [OF v] show ?thesis using assms(2,3) s1(3) by simp
next
  case False
  let ?s = "s\<lparr>key_requestor_map := fm_modify {||} (t_key tuple) (finsert addr) (key_requestor_map s)\<rparr>"
  obtain s1 where s1: "ac_get_async E (t_key tuple) ?s = Inr s1" "s' = access_push (t_key tuple) s1"
      "ret' = finsert (t_key tuple) ret"
    using False assms(1) by (auto simp: ac_get_tuple_def Let_def bindr_Inr_iff)
  have "ac_inv R s1"
    by (rule ac_get_async_inv [OF s1(1), of R "key_requestor_map s" addr]) (use assms(2) in simp_all)
  then have "ac_inv R s'" using ac_inv_cong [of s' s1 R] s1(2) by simp
  moreover have "key_requestor_map s' = key_requestor_map ?s"
    using s1 by (auto simp: ac_get_async_def access_push_def bindr_Inr_iff)
  ultimately show ?thesis using assms(3) s1(3) by (auto simp: fm_modify_def fm_at_def split: option.splits)
qed

lemma ac_get_inv:
  assumes "ac_get E request s = Inr s'" "ac_inv R s"
  shows "ac_inv R s'"
proof -
  let ?addr = "q_addr request"
  let ?P = "\<lambda>(ks, ret, s). ac_inv R s \<and> (\<forall>key. key |\<in>| ret \<longrightarrow> (\<exists>addrs. fmlookup (key_requestor_map s) key = Some addrs \<and> ?addr |\<in>| addrs))"
  obtain ks ret s1 where run: "for_each (ac_get_tuple E ?addr) (q_tuples request) ({||}, {||}, s) = Inr (ks, ret, s1)"
    and s': "(if ret = {||} then Inr (send_get_response E ks ?addr s1) else Inr (s1\<lparr>pending_request_read_set :=
        fmupd ?addr \<lparr>read_keys = ks, to_retrieve_set = ret\<rparr> (pending_request_read_set s1)\<rparr>)) = (Inr s' :: fault + _)"
    using assms(1) unfolding ac_get_def by (auto simp only: bindr_Inr_iff prod.case)
  have "?P (ks, ret, s1)"
    by (rule for_each_invariant [OF run, where P = ?P]) (use assms(2) ac_get_tuple_inv in \<open>auto simp del: split_paired_All\<close>)
  then have inv: "ac_inv R s1" and reg: "\<And>key. key |\<in>| ret \<Longrightarrow> \<exists>addrs. fmlookup (key_requestor_map s1) key = Some addrs \<and> ?addr |\<in>| addrs"
    by auto
  show ?thesis
  proof (cases "ret = {||}")
    case True
    then have "s' = send_get_response E ks ?addr s1" using s' by simp
    then show ?thesis using inv ac_inv_cong [of s' s1 R] by simp
  next
    case False
    then have s': "s' = s1\<lparr>pending_request_read_set :=
        fmupd ?addr \<lparr>read_keys = ks, to_retrieve_set = ret\<rparr> (pending_request_read_set s1)\<rparr>" using s' by simp
    have "typed s' = typed s1" by (rule typed_cong) (simp add: s' stores_def)
    moreover have "registered s'" using inv reg by (simp add: s' registered_def ac_inv_def)
    ultimately show ?thesis using inv by (simp add: s' ac_inv_def asked_def)
  qed
qed

lemma ac_inv_client:
  assumes "ac_inv R s" "stores s' = stores s" "pending_request_read_set s' = pending_request_read_set s"
    and "key_requestor_map s' = key_requestor_map s" "async_ok (ac_client s')"
    and "\<And>k. outstanding k (ac_client s) \<Longrightarrow> outstanding k (ac_client s')"
  shows "ac_inv R s'"
  using assms typed_cong [OF assms(2)] by (auto simp: ac_inv_def registered_def asked_def)

lemma ac_inv_stores:
  assumes "ac_inv R s" "typed s'" "pending_request_read_set s' = pending_request_read_set s"
    and "key_requestor_map s' = key_requestor_map s" "ac_client s' = ac_client s"
  shows "ac_inv R s'"
  using assms by (auto simp: ac_inv_def registered_def asked_def)

lemma update_cache_frame [simp]:
  "pending_request_read_set (update_cache E k t p s) = pending_request_read_set s"
  "key_requestor_map (update_cache E k t p s) = key_requestor_map s"
  "ac_client (update_cache E k t p s) = ac_client s"
  "request_address_map (update_cache E k t p s) = request_address_map s"
  "iterator_cache (update_cache E k t p s) = iterator_cache s"
  for s :: async_cache
  by (simp_all add: update_cache_def split: LatticeType.splits)

lemma drop_local_frame [simp]:
  "pending_request_read_set (drop_local t k s) = pending_request_read_set s"
  "key_requestor_map (drop_local t k s) = key_requestor_map s"
  "ac_client (drop_local t k s) = ac_client s"
  "iterator_cache (drop_local t k s) = iterator_cache s"
  for s :: async_cache
  by (simp_all add: drop_local_def split: LatticeType.splits)

lemma ac_record_inv:
  "ac_inv R s \<Longrightarrow> ac_inv R (update_cache E key type payload (s\<lparr>key_type_map := fmupd key type (key_type_map s)\<rparr>))"
  by (rule ac_inv_stores) (auto simp: ac_inv_def intro: typed_record)

lemma ac_update_inv:
  assumes "ac_inv R s"
  shows "ac_inv R (ac_update_tuple E tuple s)"
proof (rule ac_inv_stores [OF assms])
  show "typed (ac_update_tuple E tuple s)" using assms typed_update by (auto simp: ac_inv_def)
qed (simp_all add: ac_update_tuple_def Let_def split: option.splits)

lemma ac_put_async_inv:
  assumes "put_async E key payload type (ac_client s) = Inr (i, c)" "ac_inv R s"
  shows "ac_inv R (s\<lparr>ac_client := c, request_address_map := m\<rparr>)" "ac_inv R (s\<lparr>ac_client := c\<rparr>)"
proof -
  have "async_ok (ac_client s)" using assms(2) by (simp add: ac_inv_def asked_def)
  note put_effect [OF assms(1) this]
  then show "ac_inv R (s\<lparr>ac_client := c, request_address_map := m\<rparr>)" "ac_inv R (s\<lparr>ac_client := c\<rparr>)"
    by (auto intro!: ac_inv_client [OF assms(2)] simp: stores_def)
qed

lemma ac_put_tuple_inv:
  assumes "ac_put_tuple E addr tuple s = Inr s'" "ac_inv R s"
  shows "ac_inv R s'"
proof -
  let ?key = "t_key tuple"
  let ?s = "update_cache E ?key (t_lattice tuple) (t_value tuple) (s\<lparr>key_type_map := fmupd ?key (t_lattice tuple) (key_type_map s)\<rparr>)"
  obtain s1 i c where s1: "(if fm_contains (iterator_cache ?s) ?key then access_erase ?key ?s else Inr ?s) = Inr s1"
    and c: "put_async E ?key (t_value tuple) (t_lattice tuple) (ac_client (access_push ?key s1)) = Inr (i, c)"
    and s': "s' = (access_push ?key s1)\<lparr>ac_client := c, request_address_map := fmupd i addr (request_address_map (access_push ?key s1))\<rparr>"
    using assms(1) unfolding ac_put_tuple_def Let_def by (auto simp only: bindr_Inr_iff prod.case sum.inject)
  have "ac_view s1 = ac_view ?s" using s1 ac_view_erase by (auto split: if_splits)
  then have "ac_inv R (access_push ?key s1)"
    using ac_inv_cong [of s1 ?s R] ac_inv_cong [of "access_push ?key s1" s1 R] ac_record_inv [OF assms(2)] by simp
  then show ?thesis unfolding s' by (rule ac_put_async_inv [OF c])
qed

lemma ac_put_inv:
  assumes "ac_put E request s = Inr s'" "ac_inv R s"
  shows "ac_inv R s'"
proof (cases "list_ex (put_type_error s) (q_tuples request)")
  case True
  then have "s' = send_error_response PUT (q_addr request) s" using assms(1) by (simp add: ac_put_def)
  then show ?thesis using assms(2) ac_inv_cong [of s' s R] by simp
next
  case False
  then have "for_each (ac_put_tuple E (q_addr request)) (q_tuples request) s = Inr s'" using assms(1) by (simp add: ac_put_def)
  from for_each_invariant [OF this, where P = "ac_inv R"] show ?thesis using assms(2) ac_put_tuple_inv by blast
qed

lemma ac_notify_frame [simp]:
  "stores (ac_notify E key addr s) = stores s" "key_requestor_map (ac_notify E key addr s) = key_requestor_map s"
  "ac_client (ac_notify E key addr s) = ac_client s"
  by (simp_all add: ac_notify_def stores_def send_get_response_def ac_send_def Let_def)

lemma fold_notify_frame [simp]:
  "stores (fold (ac_notify E key) addrs s) = stores s"
  "key_requestor_map (fold (ac_notify E key) addrs s) = key_requestor_map s"
  "ac_client (fold (ac_notify E key) addrs s) = ac_client s"
  by (induction addrs arbitrary: s) simp_all

lemma ac_notify_pending:
  "fmlookup (pending_request_read_set (ac_notify E key addr s)) a = Some md \<Longrightarrow>
   \<exists>md0. fmlookup (pending_request_read_set s) a = Some md0 \<and>
     to_retrieve_set md = to_retrieve_set md0 |-| (if a = addr then {|key|} else {||})"
  by (auto simp: ac_notify_def send_get_response_def ac_send_def Let_def fm_at_def split: if_splits option.splits)

lemma fold_notify_pending:
  "fmlookup (pending_request_read_set (fold (ac_notify E key) addrs s)) a = Some md \<Longrightarrow>
   \<exists>md0. fmlookup (pending_request_read_set s) a = Some md0 \<and>
     to_retrieve_set md = to_retrieve_set md0 |-| (if a \<in> set addrs then {|key|} else {||})"
proof (induction addrs arbitrary: s)
  case (Cons b addrs)
  then obtain md1 where "fmlookup (pending_request_read_set (ac_notify E key b s)) a = Some md1"
    "to_retrieve_set md = to_retrieve_set md1 |-| (if a \<in> set addrs then {|key|} else {||})"
    by fastforce
  with ac_notify_pending [of E key b s a md1] show ?case by (auto split: if_splits)
qed auto

text \<open>Notifying the clients that wait for a key.\<close>

lemma notified_registered:
  assumes "registered s" "fmlookup (key_requestor_map s) key = Some addrs"
  shows "registered ((fold (ac_notify E key) (fs_elems addrs) s)\<lparr>key_requestor_map := fmdrop key (key_requestor_map s)\<rparr>)"
proof -
  have "\<exists>as. fmlookup (fmdrop key (key_requestor_map s)) k = Some as \<and> a |\<in>| as"
    if pd: "fmlookup (pending_request_read_set (fold (ac_notify E key) (fs_elems addrs) s)) a = Some md" and k: "k |\<in>| to_retrieve_set md" for a md k
  proof -
    obtain md0 where md0: "fmlookup (pending_request_read_set s) a = Some md0"
      and ret: "to_retrieve_set md = to_retrieve_set md0 |-| (if a \<in> set (fs_elems addrs) then {|key|} else {||})"
      using fold_notify_pending [OF pd] by blast
    then have "k |\<in>| to_retrieve_set md0" using k by auto
    then obtain as where as: "fmlookup (key_requestor_map s) k = Some as" "a |\<in>| as"
      using assms(1) md0 unfolding registered_def by blast
    have "k \<noteq> key" using as assms(2) ret k by auto
    with as show ?thesis by simp
  qed
  then show ?thesis unfolding registered_def by simp
qed

lemma ac_take_value_inv:
  assumes "ac_inv (r # R) s" "r_tuples r = tuple # ts"
  shows "ac_inv R (ac_take_value E tuple s)"
proof -
  define s1 where "s1 = (if t_err tuple \<noteq> 1
               then update_cache E (t_key tuple) (t_lattice tuple) (t_value tuple)
                      (s\<lparr>key_type_map := fmupd (t_key tuple) (t_lattice tuple) (key_type_map s)\<rparr>)
               else s)"
  have inv: "ac_inv (r # R) s1" using assms(1) ac_record_inv by (simp add: s1_def)
  have other: "answered k R" if "answered k (r # R)" "k \<noteq> t_key tuple" for k
    using that assms(2) by (auto simp: answered_def)
  show ?thesis
  proof (cases "fmlookup (key_requestor_map s1) (t_key tuple)")
    case None
    then have "ac_take_value E tuple s = s1" by (simp add: ac_take_value_def Let_def s1_def [symmetric])
    moreover have "asked R s1" using inv other None unfolding ac_inv_def asked_def by (metis option.distinct(1))
    ultimately show ?thesis using inv by (simp add: ac_inv_def)
  next
    case (Some addrs)
    let ?s = "(fold (ac_notify E (t_key tuple)) (fs_elems addrs) s1)\<lparr>key_requestor_map := fmdrop (t_key tuple) (key_requestor_map s1)\<rparr>"
    have "ac_take_value E tuple s = ?s" using Some by (simp add: ac_take_value_def Let_def s1_def [symmetric])
    moreover have "stores ?s = stores s1"
      using fold_notify_frame(1) [of E "t_key tuple" "fs_elems addrs" s1] by (simp add: stores_def)
    moreover have "asked R ?s" using inv other by (auto simp: ac_inv_def asked_def)
    ultimately show ?thesis
      using inv notified_registered [OF _ Some] typed_cong [of ?s s1] by (simp add: ac_inv_def)
  qed
qed

lemma ac_response_inv:
  assumes "ac_response E r s = Inr s'" "ac_inv (r # R) s"
  shows "ac_inv R s'"
proof -
  obtain tuple ts where t: "r_tuples r = tuple # ts"
    using assms(1) by (cases "r_tuples r") (auto simp: ac_response_def vec_at_def)
  then have vec: "vec_at (r_tuples r) 0 = Inr tuple" by (simp add: vec_at_def)
  have put: "ac_inv R s" if "r_type r \<noteq> GET"
    using assms(2) that by (auto simp: ac_inv_def asked_def answered_def)
  consider (retry_get) "r_error r = Some 0" "r_type r = GET" | (retry) "r_error r = Some 0" "r_type r \<noteq> GET"
    | (get) "r_error r \<noteq> Some 0" "r_type r = GET" | (put) "r_error r \<noteq> Some 0" "r_type r \<noteq> GET" by blast
  then show ?thesis
  proof cases
    case retry_get
    then obtain c where c: "get_async E (t_key tuple) (ac_client s) = Inr c" and s': "s' = s\<lparr>ac_client := c\<rparr>"
      using assms(1) by (auto simp: ac_response_def vec ac_get_async_def bindr_Inr_iff)
    have ok: "async_ok (ac_client s)" using assms(2) by (simp add: ac_inv_def asked_def)
    have "outstanding k c \<or> answered k R" if "outstanding k (ac_client s) \<or> answered k (r # R)" for k
      using that get_effect [OF c ok, of k] t by (auto simp: answered_def)
    moreover have "typed s' = typed s" by (rule typed_cong) (simp add: s' stores_def)
    ultimately show ?thesis using assms(2) get_effect [OF c ok] by (auto simp: ac_inv_def s' asked_def registered_def)
  next
    case retry
    then have "s' = s \<or> (\<exists>i c m. put_async E (t_key tuple) (t_value tuple) (t_lattice tuple) (ac_client s) = Inr (i, c) \<and>
        s' = s\<lparr>ac_client := c, request_address_map := m\<rparr>)"
      using assms(1) by (auto simp: ac_response_def vec ac_retry_put_def bindr_Inr_iff split: option.splits)
    with ac_put_async_inv(1) put [OF retry(2)] show ?thesis by blast
  next
    case get
    then show ?thesis using assms(1) ac_take_value_inv [OF assms(2) t, of E] by (auto simp: ac_response_def vec)
  next
    case put
    then have "ac_view s' = ac_view s"
      using assms(1) by (auto simp: ac_response_def vec ac_view_def stores_def ac_send_def split: option.splits)
    with ac_inv_cong [OF this] show ?thesis using \<open>r_type r \<noteq> GET \<Longrightarrow> ac_inv R s\<close> put by simp
  qed
qed

lemma ac_responses_inv:
  assumes "ac_responses E i s = Inr s'" "ac_inv [] s"
  shows "ac_inv [] s'"
proof -
  have step: "for_each (ac_response E) R s = Inr s' \<Longrightarrow> ac_inv R s \<Longrightarrow> ac_inv [] s'" for R s
    by (induction R arbitrary: s) (auto simp: bindr_Inr_iff dest: ac_response_inv)
  obtain R c where c: "receive_async E (ai_addresses i) (ai_kvs_response i) (ac_client s) = Inr (R, c)"
    and run: "for_each (ac_response E) R (s\<lparr>ac_client := c\<rparr>) = Inr s'"
    using assms(1) by (auto simp: ac_responses_def bindr_Inr_iff)
  have ok: "async_ok (ac_client s)" using assms(2) by (simp add: ac_inv_def asked_def)
  have "typed (s\<lparr>ac_client := c\<rparr>) = typed s" by (rule typed_cong) (simp add: stores_def)
  moreover have "asked R (s\<lparr>ac_client := c\<rparr>)"
    using assms(2) receive_effect [OF c ok] by (auto simp: ac_inv_def asked_def answered_def)
  ultimately have "ac_inv R (s\<lparr>ac_client := c\<rparr>)" using assms(2) by (auto simp: ac_inv_def registered_def)
  with step [OF run] show ?thesis .
qed

lemma ac_requests_inv:
  assumes "ac_requests E i s = Inr s'" "ac_inv R s"
  shows "ac_inv R s'"
proof -
  obtain s1 s2 where s1: "(case ai_get i of None \<Rightarrow> Inr s | Some q \<Rightarrow> ac_get E q s) = Inr s1"
    and s2: "(case ai_put i of None \<Rightarrow> Inr s1 | Some q \<Rightarrow> ac_put E q s1) = Inr s2"
    and s': "s' = (case ai_update i of None \<Rightarrow> s2 | Some q \<Rightarrow> fold (ac_update_tuple E) (q_tuples q) s2)"
    using assms(1) by (auto simp: ac_requests_def bindr_Inr_iff)
  have "ac_inv R s1" using s1 assms(2) ac_get_inv by (cases "ai_get i") auto
  then have "ac_inv R s2" using s2 ac_put_inv by (cases "ai_put i") auto
  then have "ac_inv R (fold (ac_update_tuple E) ts s2)" for ts
    by (induction ts arbitrary: s2) (simp_all add: ac_update_inv)
  with \<open>ac_inv R s2\<close> show ?thesis unfolding s' by (cases "ai_update i") simp_all
qed

lemma ac_report_inv:
  assumes "ac_report E time s = Inr s'" "ac_inv R s"
  shows "ac_inv R s'"
proof -
  define s1 where "s1 = snd (ac_now s)"
  have inv: "ac_inv R s1" using assms(2) ac_inv_cong [of s1 s R] by (simp add: s1_def)
  have "s' = s1 \<or> (\<exists>key payload i c now. put_async E key payload LWW (ac_client s1) = Inr (i, c) \<and>
      s' = (snd (ac_now (s1\<lparr>ac_client := c\<rparr>)))\<lparr>ac_report_start := now\<rparr>)"
    using assms(1) unfolding ac_report_def case_prod_unfold Let_def s1_def [symmetric]
    by (auto simp: bindr_Inr_iff split: if_splits) blast
  moreover have "ac_inv R ((snd (ac_now (s1\<lparr>ac_client := c\<rparr>)))\<lparr>ac_report_start := now\<rparr>)"
    if "put_async E key payload LWW (ac_client s1) = Inr (i, c)" for key payload i c now
  proof -
    have "ac_inv R (s1\<lparr>ac_client := c\<rparr>)" by (rule ac_put_async_inv(2) [OF that inv])
    moreover have "ac_view ((snd (ac_now (s1\<lparr>ac_client := c\<rparr>)))\<lparr>ac_report_start := now\<rparr>) = ac_view (s1\<lparr>ac_client := c\<rparr>)"
      by (simp add: ac_view_def stores_def ac_now_def case_prod_unfold Let_def)
    ultimately show ?thesis using ac_inv_cong by blast
  qed
  ultimately show ?thesis using inv by blast
qed

lemma evict_inv:
  assumes "evict s = Inr s'" "ac_inv R s"
  shows "ac_inv R s'"
  by (rule ac_inv_stores [OF assms(2)])
    (use assms in \<open>auto simp: evict_def Let_def ac_inv_def intro: typed_drop split: if_splits\<close>)

lemma ac_evict_inv:
  assumes "ac_evict s = Inr s'" "ac_inv R s"
  shows "ac_inv R s'"
proof (cases "1000 < fcard (fmdom (key_type_map s))")
  case True
  then have "for_each (\<lambda>_. evict) [0 ..< 10 :: nat] s = Inr s'" using assms(1) by (simp add: ac_evict_def)
  from for_each_invariant [OF this, where P = "ac_inv R"] show ?thesis using assms(2) evict_inv by blast
qed (use assms in \<open>simp add: ac_evict_def\<close>)

lemma ac_round_inv:
  assumes "ac_round E i s = Inr s'" "ac_inv [] s"
  shows "ac_inv [] s'"
  using assms ac_requests_inv ac_responses_inv ac_report_inv ac_evict_inv
  unfolding ac_round_def bindr_Inr_iff by metis

lemma new_async_cache_inv: "async_ok c \<Longrightarrow> ac_inv [] (new_async_cache ip thread_id c)"
  using pendings_cong(1) [of "snd (a_now (snd (a_now c)))" c]
  by (auto simp: ac_inv_def typed_def registered_def asked_def new_async_cache_def case_prod_unfold Let_def)

lemma ac_rounds_inv:
  assumes "for_each (ac_round E) inputs (new_async_cache ip thread_id c) = Inr s" "async_ok c"
  shows "ac_inv [] s"
  by (rule for_each_invariant [OF assms(1), where P = "ac_inv []"])
    (use assms(2) new_async_cache_inv ac_round_inv in auto)

section \<open>The asynchronous cache\<close>

definition sample_ac_client :: async_client where
  "sample_ac_client = new_async_client sample_env [make_UserRoutingThread ''r'' 0] ''h'' 0 10000 0 (\<lambda>n. 0)"

definition ac_idle :: ac_input where
  "ac_idle = \<lparr>ai_get = None, ai_put = None, ai_update = None, ai_addresses = None, ai_kvs_response = None, ai_time = 0\<rparr>"

lemmas eval_ac_round = ac_round_def ac_requests_def ac_responses_def ac_report_def ac_evict_def ac_now_def
  kCacheReportThreshold_def signed_divide_int_def ac_idle_def new_async_cache_def sample_ac_client_def fcard.rep_eq

text \<open>
  C6. The asynchronous cache knows what it holds: after any number of rounds, a key whose recorded type
  is one of the three cached lattice types has a value in the store of that type, whatever puts, updates
  and answers of the store arrived and whatever was evicted.
\<close>

theorem cached_types_sound:
  assumes "for_each (ac_round E) inputs
      (new_async_cache ip thread_id (new_async_client E routing ip thread_id timeout time0 clk)) = Inr s"
    and "fmlookup (key_type_map s) key = Some type"
  shows "holds type key s"
  using ac_rounds_inv [OF assms(1)] assms(2) by (simp add: ac_inv_def typed_def)

theorem cached_types_sound_witness:
  "\<exists>s. for_each (ac_round sample_env) [ac_idle\<lparr>ai_put := Some (empty_request\<lparr>q_type := PUT,
         q_tuples := [empty_tuple\<lparr>t_key := ''k'', t_lattice_type := Some SET, t_payload := Some ''''\<rparr>]\<rparr>)\<rparr>]
       (new_async_cache ''h'' 0 sample_ac_client) = Inr s \<and>
     fmlookup (key_type_map s) ''k'' = Some SET \<and> holds SET ''k'' s"
proof -
  let ?run = "for_each (ac_round sample_env) [ac_idle\<lparr>ai_put := Some (empty_request\<lparr>q_type := PUT,
         q_tuples := [empty_tuple\<lparr>t_key := ''k'', t_lattice_type := Some SET, t_payload := Some ''''\<rparr>]\<rparr>)\<rparr>]
       (new_async_cache ''h'' 0 sample_ac_client)"
  have "\<exists>s. ?run = Inr s \<and> fmlookup (key_type_map s) ''k'' = Some SET"
    by (simp add: eval_ac_round eval_async_client ac_put_def put_type_error_def ac_put_tuple_def t_lattice_def update_cache_def
        access_push_def)
  then obtain s where "?run = Inr s" "fmlookup (key_type_map s) ''k'' = Some SET" by blast
  with cached_types_sound [of sample_env _ "''h''" 0] show ?thesis unfolding sample_ac_client_def by blast
qed

lemma get_response_key [simp]: "t_key (get_response_tuple E s key) = key"
  by (simp add: get_response_tuple_def split: option.splits)

lemma notify_last:
  assumes "fmlookup (pending_request_read_set s) addr = Some md" "to_retrieve_set md = {|key|}"
  shows "\<exists>r. (addr, r) \<in> set (ac_out (ac_notify E key addr s)) \<and> map t_key (r_tuples r) = fs_elems (read_keys md)"
proof (intro exI conjI)
  let ?r = "empty_response\<lparr>r_type := GET, r_tuples := map (get_response_tuple E s) (fs_elems (read_keys md))\<rparr>"
  show "(addr, ?r) \<in> set (ac_out (ac_notify E key addr s))"
    using assms by (simp add: ac_notify_def Let_def fm_at_def send_get_response_def ac_send_def)
  show "map t_key (r_tuples ?r) = fs_elems (read_keys md)" by (simp add: comp_def)
qed

lemma ac_notify_other: "a \<noteq> addr \<Longrightarrow> fmlookup (pending_request_read_set (ac_notify E key a s)) addr = fmlookup (pending_request_read_set s) addr"
  by (auto simp: ac_notify_def Let_def send_get_response_def ac_send_def)

lemma ac_notify_out: "set (ac_out s) \<subseteq> set (ac_out (ac_notify E key a s))"
  by (auto simp: ac_notify_def Let_def send_get_response_def ac_send_def)

lemma fold_notify_out: "set (ac_out s) \<subseteq> set (ac_out (fold (ac_notify E key) addrs s))"
proof (induction addrs arbitrary: s)
  case (Cons a addrs)
  then show ?case using subset_trans [OF ac_notify_out [of s E key a]] by simp
qed simp

lemma fold_notify_last:
  assumes "fmlookup (pending_request_read_set s) addr = Some md" "to_retrieve_set md = {|key|}" "addr \<in> set addrs"
  shows "\<exists>r. (addr, r) \<in> set (ac_out (fold (ac_notify E key) addrs s)) \<and> map t_key (r_tuples r) = fs_elems (read_keys md)"
  using assms
proof (induction addrs arbitrary: s)
  case (Cons a addrs)
  show ?case
  proof (cases "a = addr")
    case True
    then show ?thesis using notify_last [OF Cons.prems(1,2), of E] fold_notify_out [of "ac_notify E key addr s" E key addrs] by auto
  next
    case False
    then show ?thesis using Cons by (simp add: ac_notify_other)
  qed
qed simp

text \<open>
  C5. No client of the asynchronous cache is forgotten: after any number of rounds, a key that a client
  still waits for has a get outstanding at the store, and when it is the last one the answer for it makes
  the cache send the client a response with all keys it reads.
\<close>

theorem waiting_reader_answered:
  assumes "for_each (ac_round E) inputs
      (new_async_cache ip thread_id (new_async_client E routing ip thread_id timeout time0 clk)) = Inr s"
    and "fmlookup (pending_request_read_set s) addr = Some md" "key |\<in>| to_retrieve_set md"
  shows "outstanding key (ac_client s) \<and>
    (to_retrieve_set md = {|t_key tuple|} \<longrightarrow>
      (\<exists>r. (addr, r) \<in> set (ac_out (ac_take_value E tuple s)) \<and> map t_key (r_tuples r) = fs_elems (read_keys md)))"
proof -
  have inv: "registered s" "asked [] s" using ac_rounds_inv [OF assms(1)] by (simp_all add: ac_inv_def)
  obtain addrs where addrs: "fmlookup (key_requestor_map s) key = Some addrs" "addr |\<in>| addrs"
    using inv(1) assms(2,3) unfolding registered_def by blast
  have "outstanding key (ac_client s)" using inv(2) addrs by (auto simp: asked_def answered_def)
  moreover have "\<exists>r. (addr, r) \<in> set (ac_out (ac_take_value E tuple s)) \<and> map t_key (r_tuples r) = fs_elems (read_keys md)"
    if last: "to_retrieve_set md = {|t_key tuple|}"
  proof -
    have key: "t_key tuple = key" using last assms(3) by simp
    let ?s = "if t_err tuple \<noteq> 1 then update_cache E key (t_lattice tuple) (t_value tuple)
      (s\<lparr>key_type_map := fmupd key (t_lattice tuple) (key_type_map s)\<rparr>) else s"
    have "fmlookup (pending_request_read_set ?s) addr = Some md" "fmlookup (key_requestor_map ?s) key = Some addrs"
      using assms(2) addrs by simp_all
    then show ?thesis
      using fold_notify_last [of ?s addr md key "fs_elems addrs" E] last addrs(2)
      by (simp add: ac_take_value_def key Let_def)
  qed
  ultimately show ?thesis by blast
qed

theorem waiting_reader_answered_witness:
  "\<exists>s. for_each (ac_round sample_env) [ac_idle\<lparr>ai_get := Some (empty_request\<lparr>q_tuples := [empty_tuple\<lparr>t_key := ''k''\<rparr>],
         q_response_address := Some ''tcp://u:1''\<rparr>)\<rparr>] (new_async_cache ''h'' 0 sample_ac_client) = Inr s \<and>
     outstanding ''k'' (ac_client s) \<and>
     (\<exists>r. (''tcp://u:1'', r) \<in> set (ac_out (ac_take_value sample_env (empty_tuple\<lparr>t_key := ''k'', t_error := Some 1\<rparr>) s)) \<and>
        map t_key (r_tuples r) = [''k''])"
proof -
  let ?run = "for_each (ac_round sample_env) [ac_idle\<lparr>ai_get := Some (empty_request\<lparr>q_tuples := [empty_tuple\<lparr>t_key := ''k''\<rparr>],
         q_response_address := Some ''tcp://u:1''\<rparr>)\<rparr>] (new_async_cache ''h'' 0 sample_ac_client)"
  let ?md = "\<lparr>read_keys = {|''k''|}, to_retrieve_set = {|''k''|}\<rparr>"
  have "\<exists>s. ?run = Inr s \<and> fmlookup (pending_request_read_set s) ''tcp://u:1'' = Some ?md"
    by (simp add: eval_ac_round eval_async_client ac_get_def ac_get_tuple_def ac_get_async_def access_push_def q_addr_def)
  then obtain s where s: "?run = Inr s" "fmlookup (pending_request_read_set s) ''tcp://u:1'' = Some ?md" by blast
  with waiting_reader_answered [OF s(1) [unfolded sample_ac_client_def] s(2), of "''k''" "empty_tuple\<lparr>t_key := ''k'', t_error := Some 1\<rparr>"]
  show ?thesis by simp
qed

text \<open>
  A key that is evicted while its get is outstanding brings the cache down: the answer enters the key
  into the type map, but not into the list of recently used keys, and the next client that reads the key
  makes the cache erase through an iterator that does not exist.
\<close>

lemma evicted_key_breaks_get:
  assumes "access_order s \<noteq> []" "snd (last (access_order s)) = key"
    and "r_tuples response = [tuple]" "r_type response = GET" "r_error response = None" "t_err tuple \<noteq> 1" "t_key tuple = key"
    and "q_tuples request = t # ts" "t_key t = key"
  shows "\<exists>s1 s2. evict s = Inr s1 \<and> ac_response E response s1 = Inr s2 \<and> ac_get E request s2 = Inl Invalid_iterator"
proof -
  obtain s1 where s1: "evict s = Inr s1" and gone: "fmlookup (iterator_cache s1) key = None"
    using assms(1,2) by (auto simp: evict_def Let_def)
  define s2 where "s2 = ac_take_value E tuple s1"
  have frame: "iterator_cache (fold (ac_notify E key) addrs s) = iterator_cache s \<and>
      key_type_map (fold (ac_notify E key) addrs s) = key_type_map s" for addrs s
    by (induction addrs arbitrary: s) (simp_all add: ac_notify_def Let_def send_get_response_def ac_send_def)
  have "ac_response E response s1 = Inr s2" using assms(3-5) by (simp add: ac_response_def vec_at_def s2_def)
  moreover have "fmlookup (iterator_cache s2) key = None" "fm_contains (key_type_map s2) key"
    using gone assms(6,7) by (auto simp: s2_def ac_take_value_def Let_def frame split: option.splits)
  then have "ac_get E request s2 = Inl Invalid_iterator"
    using assms(8,9) by (auto simp: ac_get_def ac_get_tuple_def access_erase_def Let_def)
  ultimately show ?thesis using s1 by blast
qed

section \<open>The blocking cache\<close>


text \<open>
  A put that the blocking cache refuses still changes what it answers: the loop that passes the values on
  enters an empty set for a key of another type, and a get for a set is then answered with it.
\<close>

lemma refused_put_served:
  assumes "lc_put E request s = Inr s1" "q_tuples request = [tuple]" "t_key tuple = key" "t_lattice_type tuple = Some SET"
    and "fmlookup (key_type_map s) key = Some LWW" "fmlookup (local_set_cache s) key = None"
    and "q_tuples query = [t]" "t_key t = key" "t_lattice_type t = Some SET"
  shows "\<exists>s2 r1 r2. lc_out s1 = lc_out s @ [r1] \<and> map t_error (r_tuples r1) = [Some 2] \<and>
    lc_get E query s1 = Inr s2 \<and> lc_out s2 = lc_out s1 @ [r2] \<and>
    map (\<lambda>t. (t_error t, t_payload t)) (r_tuples r2) = [(None, Some (serialize_set E {||}))]"
proof -
  have "fmlookup (local_set_cache s1) key = Some {||}" and
    "lc_out s1 = lc_out s @ [empty_response\<lparr>r_type := q_type request, r_tuples := [empty_tuple\<lparr>t_key := key, t_error := Some 2\<rparr>]\<rparr>]"
    using assms(1-6) by (auto simp: lc_put_def lc_put_tuple_def lc_forward_def t_lattice_def bindr_Inr_iff fm_touch_def Let_def)
  then show ?thesis
    using assms(7-9) by (simp add: lc_get_def lc_get_tuple_def fetch_set_def fm_at_def empty_tuple_def Let_def)
qed

lemmas eval_lc_put = lc_put_def lc_put_tuple_def lc_forward_def lc_store_def t_lattice_def put_lww_def put_set_def put_value_def
  prepare_data_request_def try_request.simps [of _ _ 10] get_request_id_def sample_client_def new_sync_client_def
  make_UserThread_def Let_def sample_strings get_worker_thread_def get_all_worker_threads_def fm_at_def vec_at_def
  pick_worker_def client_rand_def make_request_def c_send_def resp_id_def empty_response_def case_prod_unfold
  check_tuple_def t_err_def invalidate_cache_for_key_def ok_response_def empty_tuple_def empty_request_def new_sync_cache_def
  is_error_response_def bad_response_def


end
