(* ===== verification/Command_Line.thy ===== *)
theory Command_Line
  imports Kvs_Client
begin

text \<open>
  The command-line clients kvs/client/cpp/cli.cpp and async\_cli.cpp, and the mock client of
  include/kvs\_mock\_client.hpp that the tests of the caches use. What a command prints is appended to a
  string; the time in milliseconds that a timestamp is made of is an argument.
\<close>

definition endl :: string where
  "endl = [CHR 0x0A]"

text \<open>The loop of each \<open>main\<close> over the addresses of the routing nodes.\<close>

definition user_routing_threads :: "Address list \<Rightarrow> u32 \<Rightarrow> UserRoutingThread list" where
  "user_routing_threads routing_ips thread_count =
     concat (map (\<lambda>addr. map (\<lambda>i. make_UserRoutingThread addr (of_nat i)) [0 ..< unat thread_count]) routing_ips)"

section \<open>The blocking command line\<close>

type_synonym cli_state = "sync_client \<times> string"

definition print_set :: "string fset \<Rightarrow> string" where
  "print_set vals = ''{ '' @ concat (map (\<lambda>val. val @ '' '') (fs_elems vals)) @ ''}'' @ endl"

definition print_success :: "bool \<Rightarrow> string" where
  "print_success ok = (if ok then ''Success!'' else ''Failure!'') @ endl"

definition cli_handle_request :: "env \<Rightarrow> u64 \<Rightarrow> string \<Rightarrow> cli_state \<Rightarrow> fault + cli_state" where
  "cli_handle_request E time input = (\<lambda>(c, printed).
     let v = split input CHR '' '';
         show_result = (\<lambda>(text, c). Inr (c, printed @ text));
         arg = (\<lambda>i f. bindr (vec_at v i) f);
         lww = (\<lambda>f. bindr (generate_timestamp time 0) (\<lambda>ts. arg 2 (\<lambda>x. f \<lparr>timestamp = ts, tvp_value = x\<rparr>)));
         items = fold finsert (drop 2 v) {||};
         report = (\<lambda>(ok, c). show_result (print_success ok, c))
     in arg 0 (\<lambda>command.
        if command = ''GET''
        then arg 1 (\<lambda>key. bindr (get_lww E key 10 c) (\<lambda>(x, c). show_result (tvp_value x @ endl, c)))
        else if command = ''GET_SET''
        then arg 1 (\<lambda>key. bindr (get_set E key 10 c) (\<lambda>(x, c). show_result (print_set x, c)))
        else if command = ''PUT'' then arg 1 (\<lambda>key. lww (\<lambda>x. bindr (put_lww E key x 10 c) report))
        else if command = ''PUT_SET'' then arg 1 (\<lambda>key. bindr (put_set E key items 10 c) report)
        else if command = ''GET_ALL''
        then arg 1 (\<lambda>key. bindr (get_all_lww E key 10 c) (\<lambda>(xs, c).
          show_result (concat (map (\<lambda>x. tvp_value x @ ''('' @ nat_to_string (unat (timestamp x)) @ '')'' @ endl) xs), c)))
        else if command = ''GET_SET_ALL''
        then arg 1 (\<lambda>key. bindr (get_set_all E key 10 c) (\<lambda>(xs, c). show_result (concat (map print_set xs), c)))
        else if command = ''PUT_ALL'' then arg 1 (\<lambda>key. lww (\<lambda>x. bindr (put_all_lww E key x 10 c) report))
        else if command = ''PUT_SET_ALL'' then arg 1 (\<lambda>key. bindr (put_all_set E key items 10 c) report)
        else Inr (c, printed @ ''Unrecognized command '' @ command @
          ''. Valid commands are GET, GET_SET, GET_ALL, GET_SET_ALL, PUT, PUT_SET, PUT_ALL, and PUT_SET_ALL.'')))"

definition cli_prompt :: "env \<Rightarrow> u64 \<times> string \<Rightarrow> cli_state \<Rightarrow> fault + cli_state" where
  "cli_prompt E = (\<lambda>(time, input) (c, printed). cli_handle_request E time input (c, printed @ ''kvs> ''))"

definition cli_run_file :: "env \<Rightarrow> (u64 \<times> string) list \<Rightarrow> cli_state \<Rightarrow> fault + cli_state" where
  "cli_run_file E = for_each (\<lambda>(time, input). cli_handle_request E time input)"

section \<open>The asynchronous command line\<close>

text \<open>
  \<open>arrivals n\<close> is what the sockets have at the \<open>n\<close>-th call of \<open>receive_async\<close>. The loop that waits for
  a response may run forever: \<open>None\<close>.
\<close>

type_synonym arrivals = "nat \<Rightarrow> KeyAddressResponse option \<times> KeyResponse option"

partial_function (option) poll_responses ::
  "env \<Rightarrow> arrivals \<Rightarrow> nat \<Rightarrow> async_client \<Rightarrow> (fault + (KeyResponse list \<times> nat \<times> async_client)) option" where
  "poll_responses E arr n c =
     (case receive_async E (fst (arr n)) (snd (arr n)) c of
        Inl f \<Rightarrow> Some (Inl f)
      | Inr (responses, c) \<Rightarrow>
          if responses = [] then poll_responses E arr (Suc n) c else Some (Inr (responses, Suc n, c)))"

record acli_state =
  acli_client :: async_client
  acli_arrivals :: arrivals
  acli_polls :: nat
  acli_printed :: string

definition acli_print :: "string \<Rightarrow> acli_state \<Rightarrow> acli_state" where
  "acli_print text s = s\<lparr>acli_printed := acli_printed s @ text\<rparr>"

definition await :: "env \<Rightarrow> acli_state \<Rightarrow> fault + (KeyResponse \<times> acli_state)" where
  "await E s =
     (case poll_responses E (acli_arrivals s) (acli_polls s) (acli_client s) of
        None \<Rightarrow> Inl Diverges
      | Some (Inl f) \<Rightarrow> Inl f
      | Some (Inr (responses, n, c)) \<Rightarrow>
          let s = s\<lparr>acli_client := c, acli_polls := n\<rparr>
          in Inr (hd responses,
               if 1 < length responses then acli_print (''Error: received more than one response'' @ endl) s else s))"

definition acli_get :: "env \<Rightarrow> Key \<Rightarrow> LatticeType \<Rightarrow> acli_state \<Rightarrow> fault + (KeyTuple \<times> acli_state)" where
  "acli_get E key type s =
     bindr (get_async E key (acli_client s)) (\<lambda>c.
     bindr (await E (s\<lparr>acli_client := c\<rparr>)) (\<lambda>(response, s).
     bindr (vec_at (r_tuples response) 0) (\<lambda>tuple.
       if t_lattice tuple = type then Inr (tuple, s) else Inl Assertion_failed)))"

definition acli_put :: "env \<Rightarrow> Key \<Rightarrow> string \<Rightarrow> LatticeType \<Rightarrow> acli_state \<Rightarrow> fault + acli_state" where
  "acli_put E key payload type s =
     bindr (put_async E key payload type (acli_client s)) (\<lambda>(req_id, c).
     bindr (await E (s\<lparr>acli_client := c\<rparr>)) (\<lambda>(response, s).
       Inr (acli_print ((if resp_id response \<noteq> req_id then ''Error: request response ID mismatch'' else ''Success!'') @ endl) s)))"

definition print_clock :: "VectorClock \<Rightarrow> string" where
  "print_clock vc = concat (map (\<lambda>(client, version). ''{'' @ client @ '' : '' @ to_string version @ ''}'' @ endl) (fm_entries vc))"

definition print_causal :: "CrossCausalPayload \<Rightarrow> fault + string" where
  "print_causal ccl =
     bindr (vec_at (fs_elems (cc_value ccl)) 0) (\<lambda>val.
       Inr (print_clock (cc_vector_clock ccl) @
            concat (map (\<lambda>(dep, vc). dep @ '' : '' @ print_clock vc) (fm_entries (cc_dependency ccl))) @ val @ endl))"

definition test_payload :: "string \<Rightarrow> CrossCausalPayload" where
  "test_payload val =
     cc_default\<lparr>cc_vector_clock := vc_insert ''test'' 1 fmempty,
       cc_dependency := map_insert vc_merge ''dep1'' (fmupd ''test1'' 1 fmempty) fmempty,
       cc_value := set_insert val {||}\<rparr>"

definition acli_handle_request :: "env \<Rightarrow> u64 \<Rightarrow> string \<Rightarrow> acli_state \<Rightarrow> fault + acli_state" where
  "acli_handle_request E time input s =
     (let v = split input CHR '' ''
      in bindr (vec_at v 0) (\<lambda>command.
         if command = ''GET''
         then bindr (vec_at v 1) (\<lambda>key. bindr (acli_get E key LWW s) (\<lambda>(tuple, s).
           Inr (acli_print (tvp_value (deserialize_lww E (t_value tuple)) @ endl) s)))
         else if command = ''GET_CAUSAL''
         then bindr (vec_at v 1) (\<lambda>key. bindr (acli_get E key CROSSCAUSAL s) (\<lambda>(tuple, s).
           bindr (print_causal (to_cross_causal_payload (deserialize_cross_causal E (t_value tuple)))) (\<lambda>text.
             Inr (acli_print text s))))
         else if command = ''PUT''
         then bindr (vec_at v 1) (\<lambda>key. bindr (generate_timestamp time 0) (\<lambda>ts. bindr (vec_at v 2) (\<lambda>val.
           acli_put E key (serialize_lww E \<lparr>timestamp = ts, tvp_value = val\<rparr>) LWW s)))
         else if command = ''PUT_CAUSAL''
         then bindr (vec_at v 1) (\<lambda>key. bindr (vec_at v 2) (\<lambda>val.
           acli_put E key (serialize_cross_causal E (test_payload val)) CROSSCAUSAL s))
         else Inr (acli_print (''Unrecognized command '' @ command @ ''. Valid commands are GET and PUT.'') s)))"

definition acli_prompt :: "env \<Rightarrow> u64 \<times> string \<Rightarrow> acli_state \<Rightarrow> fault + acli_state" where
  "acli_prompt E = (\<lambda>(time, input) s. acli_handle_request E time input (acli_print ''kvs> '' s))"

definition acli_run_file :: "env \<Rightarrow> (u64 \<times> string) list \<Rightarrow> acli_state \<Rightarrow> fault + acli_state" where
  "acli_run_file E = for_each (\<lambda>(time, input). acli_handle_request E time input)"

section \<open>The mock client\<close>

record mock_client =
  keys_put :: "Key list"
  keys_get :: "Key list"
  mock_responses :: "KeyResponse list"
  mock_rid :: u32

definition new_mock_client :: mock_client where
  "new_mock_client = \<lparr>keys_put = [], keys_get = [], mock_responses = [], mock_rid = 0\<rparr>"

definition mock_request_id :: "mock_client \<Rightarrow> string \<times> mock_client" where
  "mock_request_id c =
     (let r = mock_rid c + 1;
          r = (if r mod 10000 = 0 then 0 else r)
      in (to_string r, c\<lparr>mock_rid := r + 1\<rparr>))"

definition mock_put_async :: "Key \<Rightarrow> string \<Rightarrow> LatticeType \<Rightarrow> mock_client \<Rightarrow> string \<times> mock_client" where
  "mock_put_async key payload lattice_type c = mock_request_id (c\<lparr>keys_put := keys_put c @ [key]\<rparr>)"

definition mock_get_async :: "Key \<Rightarrow> mock_client \<Rightarrow> mock_client" where
  "mock_get_async key c = c\<lparr>keys_get := keys_get c @ [key]\<rparr>"

definition mock_receive_async :: "mock_client \<Rightarrow> KeyResponse list" where
  "mock_receive_async c = mock_responses c"

definition mock_clear :: "mock_client \<Rightarrow> mock_client" where
  "mock_clear c = c\<lparr>keys_put := [], keys_get := [], mock_responses := []\<rparr>"

end
