(* ===== verification/Command_Correct.thy ===== *)
theory Command_Correct
  imports Command_Line Client_Correct Async_Correct
begin

text \<open>
  Properties of the command-line clients: what a put reports, that a command which waits for a response
  returns once one is handed out, and input that brings the blocking client down.
\<close>

section \<open>Waiting\<close>

lemma pow_loop_zero: "pow_loop 0 10 = Some 10"
  by (simp add: pow_loop.simps)

lemma timestamp_zero: "generate_timestamp time 0 = Inr (time * 10)"
  by (simp add: generate_timestamp_def pow_loop_zero)

text \<open>A client that waits for the routing tier to answer, and for nothing else.\<close>

definition only_waits :: "Key \<Rightarrow> int \<Rightarrow> KeyRequest \<Rightarrow> async_client \<Rightarrow> bool" where
  "only_waits key tp req c \<longleftrightarrow> pending_request_map c = fmupd key (tp, [req]) fmempty \<and> pending_get_response_map c = fmempty \<and>
     pending_put_response_map c = fmempty \<and> q_tuples req \<noteq> []"

lemma silent_response: "only_waits key tp req c \<Longrightarrow> \<exists>r. generate_bad_response req = Inr r"
  by (cases "q_tuples req") (auto simp: generate_bad_response_def vec_at_def only_waits_def Let_def)

lemma silent_poll:
  assumes "only_waits key tp req c"
  shows "receive_async E None None c =
    (if uint (timeout_ms c) < (a_clock c (a_ticks c) - tp) sdiv 1000000
     then bindr (generate_bad_response req) (\<lambda>r. Inr ([r], c\<lparr>a_ticks := Suc (a_ticks c), pending_request_map := fmempty\<rparr>))
     else Inr ([], c\<lparr>a_ticks := Suc (a_ticks c)\<rparr>))"
  using assms silent_response [OF assms]
  by (auto simp: only_waits_def receive_async_def collect_garbage_def gc_address_def timed_out_def a_now_def pending_puts_def Let_def
      fmdrop_fmupd_same)

lemma silent_wait_ends:
  assumes "only_waits key tp req c" "uint (timeout_ms c) < (a_clock c (a_ticks c + k) - tp) sdiv 1000000"
  shows "\<exists>r m c'. generate_bad_response req = Inr r \<and> poll_responses E (\<lambda>_. (None, None)) n c = Some (Inr ([r], m, c'))"
  using assms
proof (induction k arbitrary: n c)
  case 0
  then show ?case using silent_response [OF 0(1)] by (auto simp: poll_responses.simps [of E _ n] silent_poll)
next
  case (Suc k)
  let ?c = "c\<lparr>a_ticks := Suc (a_ticks c)\<rparr>"
  show ?case
  proof (cases "uint (timeout_ms c) < (a_clock c (a_ticks c) - tp) sdiv 1000000")
    case True
    then show ?thesis using silent_response [OF Suc.prems(1)] Suc.prems(1)
      by (auto simp: poll_responses.simps [of E _ n] silent_poll)
  next
    case False
    have "only_waits key tp req ?c" using Suc.prems(1) by (simp add: only_waits_def)
    from Suc.IH [OF this, of "Suc n"] show ?thesis
      using False Suc.prems by (simp add: poll_responses.simps [of E _ n] silent_poll)
  qed
qed

text \<open>
  C40. The asynchronous command line reports a put as successful when no server was reached: when no
  message arrives the wait ends once the clock has passed the timeout, the response that the client
  makes up carries the id of the request, and only this id is looked at.
\<close>

theorem unreachable_put_reports_success:
  assumes "split input CHR '' '' = [''PUT'', key, val]" "routing \<noteq> []"
    and "uint timeout < (clk (Suc k) - clk 0) sdiv 1000000"
    and "acli_client s = new_async_client E routing ip tid timeout time0 clk" "acli_arrivals s = (\<lambda>_. (None, None))"
  shows "\<exists>s'. acli_handle_request E time input s = Inr s' \<and> acli_printed s' = acli_printed s @ ''Success!'' @ endl"
proof -
  let ?payload = "serialize_lww E \<lparr>timestamp = time * 10, tvp_value = val\<rparr>"
  obtain req_id req c where put: "put_async E key ?payload LWW (acli_client s) = Inr (req_id, c)"
    and c: "only_waits key (clk 0) req c" "timeout_ms c = timeout" "a_clock c = clk" "a_ticks c = 1" and req: "q_id req = req_id"
    using assms(2,4) by (fastforce simp: eval_async_client q_id_def only_waits_def)
  obtain r m c' where r: "generate_bad_response req = Inr r"
    and wait: "poll_responses E (\<lambda>_. (None, None)) (acli_polls s) c = Some (Inr ([r], m, c'))"
    using silent_wait_ends [OF c(1), of k E "acli_polls s"] assms(3) c(2-4) by auto
  have "resp_id r = req_id" using r req by (auto simp: generate_bad_response_def resp_id_def bindr_Inr_iff Let_def)
  then have "acli_put E key ?payload LWW s = Inr (acli_print (''Success!'' @ endl) (s\<lparr>acli_client := c', acli_polls := m\<rparr>))"
    using put wait assms(5) by (simp add: acli_put_def await_def Let_def)
  then show ?thesis
    using assms(1) by (simp add: acli_handle_request_def Let_def vec_at_def timestamp_zero acli_print_def)
qed

theorem unreachable_put_reports_success_witness:
  "\<exists>s'. acli_handle_request sample_env 7 ''PUT k v''
      \<lparr>acli_client = new_async_client sample_env [make_UserRoutingThread ''r'' 0] ''h'' 0 10000 0 (\<lambda>n. int n * 4000000000),
       acli_arrivals = (\<lambda>n. (None, None)), acli_polls = 0, acli_printed = []\<rparr> = Inr s' \<and>
    acli_printed s' = ''Success!'' @ endl"
proof -
  let ?s = "\<lparr>acli_client = new_async_client sample_env [make_UserRoutingThread ''r'' 0] ''h'' 0 10000 0 (\<lambda>n. int n * 4000000000),
       acli_arrivals = (\<lambda>n. (None, None)), acli_polls = 0, acli_printed = []\<rparr>"
  have "split ''PUT k v'' CHR '' '' = [''PUT'', ''k'', ''v'']" by code_simp
  from unreachable_put_reports_success [OF this, of "[make_UserRoutingThread ''r'' 0]" 10000 "\<lambda>n. int n * 4000000000"
      2 ?s sample_env "''h''" 0 0 7]
  show ?thesis by (simp add: signed_divide_int_def)
qed

section \<open>The mock client\<close>

text \<open>The mock client meets the contract of the clients: it remembers every get.\<close>

interpretation mock: async_contract "\<lambda>_. True" "\<lambda>key c. key \<in> set (keys_get c)" "\<lambda>key c. Inr (mock_get_async key c)"
  "\<lambda>key payload t c. Inr (mock_put_async key payload t c)" "\<lambda>_ :: unit. \<lambda>c. Inr (mock_receive_async c, c)"
  by unfold_locales (auto simp: mock_get_async_def mock_put_async_def mock_request_id_def Let_def)

section \<open>Empty lines\<close>

text \<open>An empty line, also the one that \<open>getline\<close> leaves at the end of the input, is indexed all the same.\<close>

lemma split_nil: "split [] delim = []"
  by (simp add: Cxx_Strings.split_def)

lemma empty_line_faults:
  "cli_handle_request E time [] s = Inl Bad_index" "acli_handle_request E time [] s' = Inl Bad_index"
  by (simp_all add: cli_handle_request_def acli_handle_request_def split_nil vec_at_def case_prod_unfold Let_def)

end
