(* ===== verification/Benchmark.thy ===== *)
theory Benchmark
  imports Kvs_Client Monitor
begin

text \<open>
  The benchmark client kvs/src/benchmark/benchmark.cpp: the generator of Zipf-distributed keys, the
  commands that warm up caches and load the store, and the feedback to the monitoring nodes. The readings
  of the clock are inputs. \<open>std::pow\<close> and \<open>std::stod\<close> are on the exact doubles of the development.
\<close>

section \<open>Powers and numbers in text\<close>

text \<open>\<open>pow\<close> with an unsigned base.\<close>

fun u_pow :: "u32 \<Rightarrow> dbl \<Rightarrow> dbl" where
  "u_pow k (Fin b) =
     (if k \<noteq> 0 then Fin (real (unat k) powr b) else if b = 0 then Fin 1 else if 0 < b then Fin 0 else Inf True)"
| "u_pow k (Inf s) = (if k = 1 then Fin 1 else if s = (1 < k) then Inf True else Fin 0)"
| "u_pow k NaN = (if k = 1 then Fin 1 else NaN)"

definition lower :: "char \<Rightarrow> char" where
  "lower c = (let n = of_char c :: nat in if 65 \<le> n \<and> n \<le> 90 then char_of (n + 32) else c)"

definition is_hex :: "char \<Rightarrow> bool" where
  "is_hex c \<longleftrightarrow> is_digit c \<or> lower c \<in> set ''abcdef''"

definition hex_val :: "char \<Rightarrow> nat" where
  "hex_val c = (if is_digit c then digit_val c else of_char (lower c) - 87)"

definition radix_val :: "nat \<Rightarrow> string \<Rightarrow> nat" where
  "radix_val radix s = foldl (\<lambda>acc c. radix * acc + hex_val c) 0 s"

text \<open>Digits with at most one point: the value, and what follows.\<close>

definition mantissa :: "nat \<Rightarrow> (char \<Rightarrow> bool) \<Rightarrow> string \<Rightarrow> (real \<times> string) option" where
  "mantissa radix digit s =
     (let whole = takeWhile digit s;
          r = dropWhile digit s;
          (frac, r) = (if r \<noteq> [] \<and> hd r = CHR ''.'' then (takeWhile digit (tl r), dropWhile digit (tl r)) else ([], r))
      in if whole = [] \<and> frac = [] then None
         else Some (real (radix_val radix (whole @ frac)) / real radix ^ length frac, r))"

text \<open>An exponent is only taken when a digit follows its letter and sign.\<close>

definition exponent_of :: "char \<Rightarrow> string \<Rightarrow> int" where
  "exponent_of letter s =
     (if s \<noteq> [] \<and> lower (hd s) = letter
      then let r = tl s;
               neg = (r \<noteq> [] \<and> hd r = CHR ''-'');
               r = (if r \<noteq> [] \<and> (hd r = CHR ''-'' \<or> hd r = CHR ''+'') then tl r else r);
               e = int (radix_val 10 (takeWhile is_digit r))
           in if neg then - e else e
      else 0)"

definition decimal_of :: "string \<Rightarrow> real option" where
  "decimal_of s = (case mantissa 10 is_digit s of None \<Rightarrow> None | Some (v, r) \<Rightarrow> Some (v * 10 powi exponent_of CHR ''e'' r))"

definition number_of :: "string \<Rightarrow> real option" where
  "number_of s =
     (if map lower (take 2 s) = ''0x''
      then (case mantissa 16 is_hex (drop 2 s) of None \<Rightarrow> Some 0 | Some (v, r) \<Rightarrow> Some (v * 2 powi exponent_of CHR ''p'' r))
      else decimal_of s)"

definition stod :: "string \<Rightarrow> fault + dbl" where
  "stod s =
     (let s1 = dropWhile is_space s;
          neg = (s1 \<noteq> [] \<and> hd s1 = CHR ''-'');
          s2 = (if s1 \<noteq> [] \<and> (hd s1 = CHR ''-'' \<or> hd s1 = CHR ''+'') then tl s1 else s1)
      in if map lower (take 3 s2) = ''inf'' then Inr (Inf (\<not> neg))
         else if map lower (take 3 s2) = ''nan'' then Inr NaN
         else case number_of s2 of
                None \<Rightarrow> Inl Invalid_argument
              | Some v \<Rightarrow>
                  if 2 ^ 1024 \<le> v \<or> (0 < v \<and> v * 2 ^ 1022 < 1) then Inl Out_of_range
                  else Inr (Fin (if neg then - v else v)))"

section \<open>Keys\<close>

text \<open>\<open>for (unsigned k = 1; k <= n; k++)\<close>\<close>

definition up_to :: "u32 \<Rightarrow> fault + u32 list" where
  "up_to n = (if n = - 1 then Inl Diverges else Inr (map of_nat [1 ..< Suc (unat n)]))"

definition get_base :: "u32 \<Rightarrow> dbl \<Rightarrow> fault + dbl" where
  "get_base N skew =
     bindr (up_to N) (\<lambda>ks. Inr (dbl_div (Fin 1) (fold (\<lambda>k base. base + u_pow k (Fin (- 1) * skew)) ks (Fin 0))))"

definition get_zipf_prob :: "u32 \<Rightarrow> dbl \<Rightarrow> dbl \<Rightarrow> dbl" where
  "get_zipf_prob rank skew base = dbl_div (u_pow rank (Fin (- 1) * skew)) base"

definition zipf_step :: "dbl \<Rightarrow> dbl \<Rightarrow> u32 \<Rightarrow> (u32, dbl) fmap \<Rightarrow> (u32, dbl) fmap" where
  "zipf_step base zipf i sum_probs =
     fmupd i (fm_at (Fin 0) sum_probs (i - 1) + dbl_div base (u_pow i zipf)) sum_probs"

definition zipf_table :: "u32 \<Rightarrow> dbl \<Rightarrow> fault + (u32, dbl) fmap" where
  "zipf_table num_keys zipf =
     bindr (get_base num_keys zipf) (\<lambda>base.
     bindr (up_to num_keys) (\<lambda>is. Inr (fold (zipf_step base zipf) is (fmupd 0 (Fin 0) fmempty))))"

definition RAND_MAX :: real where
  "RAND_MAX = 2147483647"

partial_function (option) draw :: "env \<Rightarrow> u32 \<Rightarrow> (dbl \<times> u32) option" where
  "draw E sd =
     (case rand_r E sd of (sd', r) \<Rightarrow>
        if dbl_div (dbl_of r) (Fin RAND_MAX) = Fin 0 \<or> dbl_div (dbl_of r) (Fin RAND_MAX) = Fin 1
        then draw E sd' else Some (dbl_div (dbl_of r) (Fin RAND_MAX), sd'))"

lemma sdiv_two: "(a :: int) sdiv 2 = (if a < 0 then - (- a div 2) else a div 2)"
  by (auto simp: signed_divide_int_def sgn_if)

text \<open>The binary search: \<open>None\<close> when it ends without a value.\<close>

function sample_search :: "(u32, dbl) fmap \<Rightarrow> dbl \<Rightarrow> int \<Rightarrow> int \<Rightarrow> fault + int option" where
  "sample_search sum_probs z low high =
     (if low + high < - (2 ^ 31) \<or> 2 ^ 31 \<le> low + high then Inl Signed_overflow
      else let mid = (low + high) sdiv 2;
               prob = (\<lambda>i. fm_at (Fin 0) sum_probs (word_of_int i))
           in if z \<le> prob mid \<and> prob (mid - 1) < z then Inr (Some mid)
              else if z \<le> prob mid
              then if low \<le> mid - 1 then sample_search sum_probs z low (mid - 1) else Inr None
              else if mid + 1 \<le> high then sample_search sum_probs z (mid + 1) high else Inr None)"
  by pat_completeness auto

termination
  by (relation "measure (\<lambda>(sum_probs, z, low, high). nat (high - low + 1))") (auto simp: sdiv_two split: if_splits)

declare sample_search.simps [simp del]

definition sample :: "env \<Rightarrow> int \<Rightarrow> (u32, dbl) fmap \<Rightarrow> u32 \<Rightarrow> fault + (int \<times> u32)" where
  "sample E n sum_probs sd =
     (case draw E sd of
        None \<Rightarrow> Inl Diverges
      | Some (z, sd) \<Rightarrow> bindr (sample_search sum_probs z 1 n) (\<lambda>found.
          case found of
            None \<Rightarrow> Inl Uninitialised
          | Some zipf_value \<Rightarrow> if 1 \<le> zipf_value \<and> zipf_value \<le> n then Inr (zipf_value, sd) else Inl Assertion_failed))"

definition generate_key :: "u32 \<Rightarrow> fault + Key" where
  "generate_key n =
     (if 8 < length (to_string n) then Inl Length_error
      else Inr (replicate (8 - length (to_string n)) CHR ''0'' @ to_string n))"

section \<open>State\<close>

record bench =
  b_ip :: Address
  b_tid :: u32
  b_monitors :: "MonitoringThread list"
  b_client :: sync_client
  b_seed :: u32
  observed_latency :: "(Key, dbl \<times> u32) fmap"
  b_out :: "(Address \<times> UserFeedback) list"

definition new_bench :: "Address \<Rightarrow> u32 \<Rightarrow> MonitoringThread list \<Rightarrow> sync_client \<Rightarrow> bench" where
  "new_bench ip thread_id monitoring_threads c =
     \<lparr>b_ip = ip, b_tid = thread_id, b_monitors = monitoring_threads, b_client = c, b_seed = c_seed c,
      observed_latency = fmempty, b_out = []\<rparr>"

definition send_feedback :: "UserFeedback \<Rightarrow> bench \<Rightarrow> bench" where
  "send_feedback feedback s =
     s\<lparr>b_out := b_out s @ map (\<lambda>t. (mt_latency_report_connect_address t, feedback)) (b_monitors s)\<rparr>"

definition bench_uid :: "bench \<Rightarrow> string" where
  "bench_uid s = b_ip s @ '':'' @ to_string (b_tid s)"

text \<open>The timestamp is assigned to an \<open>unsigned\<close>.\<close>

definition bench_put :: "env \<Rightarrow> u64 \<Rightarrow> u32 \<Rightarrow> Key \<Rightarrow> bench \<Rightarrow> fault + bench" where
  "bench_put E time len key s =
     bindr (generate_timestamp time (b_tid s)) (\<lambda>ts.
     bindr (put_lww E key \<lparr>timestamp = ucast (ucast ts :: u32), tvp_value = replicate (unat len) CHR ''a''\<rparr> 10 (b_client s))
       (\<lambda>(_, c). Inr (s\<lparr>b_client := c\<rparr>)))"

definition bench_get :: "env \<Rightarrow> Key \<Rightarrow> bench \<Rightarrow> fault + bench" where
  "bench_get E key s = bindr (get_lww E key 10 (b_client s)) (\<lambda>(_, c). Inr (s\<lparr>b_client := c\<rparr>))"

section \<open>Warming up\<close>

definition bench_cache :: "env \<Rightarrow> u32 \<Rightarrow> bench \<Rightarrow> fault + bench" where
  "bench_cache E num_keys s =
     bindr (up_to num_keys) (\<lambda>is.
       for_each (\<lambda>i s. bindr (generate_key i) (\<lambda>key. bench_get E key s)) is (s\<lparr>b_client := clear_cache (b_client s)\<rparr>))"

definition warm_range :: "u32 \<Rightarrow> u32 \<Rightarrow> u32 \<Rightarrow> fault + u32 list" where
  "warm_range thread_id num_keys total_threads =
     (if total_threads = 0 then Inl Division_by_zero
      else let range = num_keys div total_threads;
               start = thread_id * range + 1;
               stop = thread_id * range + 1 + range
           in Inr (map of_nat [unat start ..< unat stop]))"

text \<open>\<open>put_time i\<close> is the time in milliseconds at which key \<open>i\<close> is written.\<close>

definition bench_warm :: "env \<Rightarrow> (u32 \<Rightarrow> u64) \<Rightarrow> u32 \<Rightarrow> u32 \<Rightarrow> u32 \<Rightarrow> bench \<Rightarrow> fault + bench" where
  "bench_warm E put_time num_keys len total_threads s =
     bindr (warm_range (b_tid s) num_keys total_threads) (\<lambda>is.
       for_each (\<lambda>i s. bindr (generate_key i) (\<lambda>key. bench_put E (put_time i) len key s)) is s)"

section \<open>Load\<close>

record load_command =
  ld_type :: string
  ld_num_keys :: u32
  ld_length :: u32
  ld_report_period :: u32
  ld_time :: u32
  ld_zipf :: dbl

text \<open>The readings of the clock in one turn of the loop, in nanoseconds, and the time for the timestamp.\<close>

record load_input =
  in_ts :: u64
  req_start :: int
  req_end :: int
  epoch_end :: int
  epoch_restart :: int
  benchmark_end :: int

record load_state = bench +
  ld_count :: u64
  ld_epoch :: u32
  epoch_start :: int

definition choose_key :: "env \<Rightarrow> load_command \<Rightarrow> (u32, dbl) fmap \<Rightarrow> load_state \<Rightarrow> fault + (u32 \<times> load_state)" where
  "choose_key E cmd sum_probs s =
     (if Fin 0 < ld_zipf cmd
      then bindr (sample E (sint (ld_num_keys cmd)) sum_probs (b_seed s)) (\<lambda>(k, sd). Inr (word_of_int k, s\<lparr>b_seed := sd\<rparr>))
      else if ld_num_keys cmd = 0 then Inl Division_by_zero
      else let (sd, r) = rand_r E (b_seed s) in Inr (r mod ld_num_keys cmd + 1, s\<lparr>b_seed := sd\<rparr>))"

definition observe :: "Key \<Rightarrow> dbl \<Rightarrow> (Key, dbl \<times> u32) fmap \<Rightarrow> (Key, dbl \<times> u32) fmap" where
  "observe key key_latency m =
     (case fmlookup m key of
        None \<Rightarrow> fmupd key (key_latency, 1) m
      | Some (avg, n) \<Rightarrow> fmupd key (dbl_div (avg * dbl_of n + key_latency) (dbl_of (n + 1)), n + 1) m)"

text \<open>A \<open>bench\<close> operation on the state of the loop.\<close>

definition in_load :: "(bench \<Rightarrow> fault + bench) \<Rightarrow> load_state \<Rightarrow> fault + load_state" where
  "in_load f s =
     bindr (f (bench.truncate s)) (\<lambda>b. Inr (bench.extend b \<lparr>ld_count = ld_count s, ld_epoch = ld_epoch s, epoch_start = epoch_start s\<rparr>))"

definition issue_request :: "env \<Rightarrow> load_command \<Rightarrow> load_input \<Rightarrow> Key \<Rightarrow> load_state \<Rightarrow> fault + load_state" where
  "issue_request E cmd i key s =
     (let put = in_load (bench_put E (in_ts i) (ld_length cmd) key);
          get = in_load (bench_get E key)
      in if ld_type cmd = ''G'' then bindr (get s) (\<lambda>s. Inr (s\<lparr>ld_count := ld_count s + 1\<rparr>))
         else if ld_type cmd = ''P'' then bindr (put s) (\<lambda>s. Inr (s\<lparr>ld_count := ld_count s + 1\<rparr>))
         else if ld_type cmd = ''M''
         then bindr (put s) (\<lambda>s. bindr (get s) (\<lambda>s.
              Inr (s\<lparr>ld_count := ld_count s + 2,
                     observed_latency := observe key (dbl_div (Fin (of_int ((req_end i - req_start i) sdiv 1000))) (Fin 2))
                       (observed_latency s)\<rparr>)))
         else Inr s)"

definition epoch_feedback :: "int \<Rightarrow> load_state \<Rightarrow> UserFeedback" where
  "epoch_feedback time_elapsed s =
     (let throughput = dbl_div (dbl_of (ld_count s)) (Fin (of_int time_elapsed))
      in \<lparr>fb_uid = bench_uid (bench.truncate s), fb_latency = Some (dbl_div (Fin 1000000) throughput), fb_finish = None,
          fb_throughput = Some throughput, fb_warmup = None,
          fb_key_latency = map (\<lambda>(key, avg, n). (key, avg))
            (filter (\<lambda>(key, avg, n). Fin 1 < avg) (fm_entries (observed_latency s)))\<rparr>)"

definition bench_report :: "load_command \<Rightarrow> load_input \<Rightarrow> load_state \<Rightarrow> fault + load_state" where
  "bench_report cmd i s =
     (let time_elapsed = seconds_between (epoch_start s) (epoch_end i)
      in if uint (ld_report_period cmd) \<le> time_elapsed
         then bindr (in_load (\<lambda>b. Inr (send_feedback (epoch_feedback time_elapsed s) b)) s) (\<lambda>s.
              Inr (s\<lparr>ld_epoch := ld_epoch s + 1, ld_count := 0, observed_latency := fmempty, epoch_start := epoch_restart i\<rparr>))
         else Inr s)"

definition load_step :: "env \<Rightarrow> load_command \<Rightarrow> (u32, dbl) fmap \<Rightarrow> load_input \<Rightarrow> load_state \<Rightarrow> fault + load_state" where
  "load_step E cmd sum_probs i s =
     bindr (choose_key E cmd sum_probs s) (\<lambda>(k, s).
     bindr (generate_key k) (\<lambda>key.
     bindr (issue_request E cmd i key s) (bench_report cmd i)))"

partial_function (option) load_loop ::
  "env \<Rightarrow> load_command \<Rightarrow> (u32, dbl) fmap \<Rightarrow> int \<Rightarrow> (nat \<Rightarrow> load_input) \<Rightarrow> nat \<Rightarrow> load_state \<Rightarrow> (fault + load_state) option" where
  "load_loop E cmd sum_probs start inputs n s =
     (case load_step E cmd sum_probs (inputs n) s of
        Inl f \<Rightarrow> Some (Inl f)
      | Inr s \<Rightarrow>
          if uint (ld_time cmd) < seconds_between start (benchmark_end (inputs n)) then Some (Inr s)
          else load_loop E cmd sum_probs start inputs (Suc n) s)"

definition bench_load :: "env \<Rightarrow> load_command \<Rightarrow> int \<Rightarrow> int \<Rightarrow> (nat \<Rightarrow> load_input) \<Rightarrow> bench \<Rightarrow> fault + bench" where
  "bench_load E cmd benchmark_start epoch_begin inputs s =
     bindr (if Fin 0 < ld_zipf cmd then zipf_table (ld_num_keys cmd) (ld_zipf cmd) else Inr fmempty) (\<lambda>sum_probs.
       case load_loop E cmd sum_probs benchmark_start inputs 0
              (bench.extend s \<lparr>ld_count = 0, ld_epoch = 1, epoch_start = epoch_begin\<rparr>) of
         None \<Rightarrow> Inl Diverges
       | Some (Inl f) \<Rightarrow> Inl f
       | Some (Inr s) \<Rightarrow>
           Inr (send_feedback \<lparr>fb_uid = bench_uid (bench.truncate s), fb_latency = None, fb_finish = Some True,
             fb_throughput = None, fb_warmup = None, fb_key_latency = []\<rparr> (bench.truncate s)))"

section \<open>Commands\<close>

record bench_clock =
  clock_start :: int
  clock_epoch :: int
  clock_inputs :: "nat \<Rightarrow> load_input"
  clock_warm :: "u32 \<Rightarrow> u64"

definition parse_load :: "string list \<Rightarrow> fault + load_command" where
  "parse_load v =
     (let num = (\<lambda>i f. bindr (vec_at v i) (\<lambda>x. bindr (stoi x) (\<lambda>n. f (word_of_int n :: u32))))
      in bindr (vec_at v 1) (\<lambda>type. num 2 (\<lambda>num_keys. num 3 (\<lambda>len. num 4 (\<lambda>period. num 5 (\<lambda>time.
         bindr (vec_at v 6) (\<lambda>x. bindr (stod x) (\<lambda>zipf.
           Inr \<lparr>ld_type = type, ld_num_keys = num_keys, ld_length = len, ld_report_period = period, ld_time = time,
                ld_zipf = zipf\<rparr>))))))))"

definition bench_command :: "env \<Rightarrow> bench_clock \<Rightarrow> string \<Rightarrow> bench \<Rightarrow> fault + bench" where
  "bench_command E clk msg s =
     (let v = split msg CHR '':'';
          num = (\<lambda>i f. bindr (vec_at v i) (\<lambda>x. bindr (stoi x) (\<lambda>n. f (word_of_int n :: u32))))
      in bindr (vec_at v 0) (\<lambda>mode.
         if mode = ''CACHE'' then num 1 (\<lambda>num_keys. bench_cache E num_keys s)
         else if mode = ''LOAD''
         then bindr (parse_load v) (\<lambda>cmd. bench_load E cmd (clock_start clk) (clock_epoch clk) (clock_inputs clk) s)
         else if mode = ''WARM''
         then num 1 (\<lambda>num_keys. num 2 (\<lambda>len. num 3 (\<lambda>total. bench_warm E (clock_warm clk) num_keys len total s)))
         else Inr s))"

end
