(* ===== verification/Benchmark_Correct.thy ===== *)
theory Benchmark_Correct
  imports Benchmark Client_Correct
begin

text \<open>
  Properties of the benchmark client: its keys follow the Zipf distribution, the latencies that it reports
  are averages, the names of keys are distinct, and which keys warming up leaves out.
\<close>

section \<open>The binary search\<close>

lemma sample_search_finds:
  assumes "\<And>i. 0 \<le> i \<Longrightarrow> i \<le> n \<Longrightarrow> fm_at (Fin 0) m (word_of_int i) = Fin (F i)"
    and "n < 2 ^ 30" "1 \<le> low" "low \<le> high" "high \<le> n" "F (low - 1) < z" "z \<le> F high"
  shows "\<exists>k. sample_search m (Fin z) low high = Inr (Some k) \<and> low \<le> k \<and> k \<le> high \<and> F (k - 1) < z \<and> z \<le> F k"
  using assms
proof (induction m "Fin z" low high rule: sample_search.induct)
  case (1 m low high)
  define mid where "mid = (low + high) sdiv 2"
  have mid: "low \<le> mid" "mid \<le> high" using 1(5,6) by (auto simp: mid_def sdiv_two)
  have small: "\<not> (low + high < - (2 ^ 31) \<or> 2 ^ 31 \<le> low + high)" using 1(4-7) by simp
  have at_mid: "fm_at (Fin 0) m (word_of_int mid) = Fin (F mid)" "fm_at (Fin 0) m (word_of_int (mid - 1)) = Fin (F (mid - 1))"
    using 1(3) [of mid] 1(3) [of "mid - 1"] mid 1(5,7) by simp_all
  note eq = sample_search.simps [of m "Fin z" low high, unfolded Let_def, folded mid_def, simplified small at_mid if_False]
  consider (found) "z \<le> F mid" "F (mid - 1) < z" | (left) "z \<le> F mid" "z \<le> F (mid - 1)" | (right) "F mid < z" by linarith
  then show ?case
  proof cases
    case found
    then show ?thesis using mid by (auto simp: eq)
  next
    case left
    then have "low \<le> mid - 1" using mid 1(8) by (cases "mid = low") auto
    with left "1.hyps"(1) [OF small mid_def] show ?thesis
      using mid 1(3-8) at_mid by (fastforce simp: eq)
  next
    case right
    then have "mid + 1 \<le> high" using mid 1(9) by (cases "mid = high") auto
    with right "1.hyps"(2) [OF small mid_def] show ?thesis
      using mid 1(3-9) at_mid by (fastforce simp: eq)
  qed
qed

section \<open>The Zipf distribution\<close>

definition harmonic :: "real \<Rightarrow> nat \<Rightarrow> real" where
  "harmonic sk n = (\<Sum>i = 1..n. real i powr - sk)"

definition zipf_cdf :: "real \<Rightarrow> nat \<Rightarrow> nat \<Rightarrow> real" where
  "zipf_cdf sk n k = harmonic sk k / harmonic sk n"

lemma harmonic_Suc: "harmonic sk (Suc n) = harmonic sk n + real (Suc n) powr - sk"
  by (simp add: harmonic_def)

lemma harmonic_pos: "1 \<le> n \<Longrightarrow> 0 < harmonic sk n"
  unfolding harmonic_def by (rule sum_pos) auto

lemma unat_small: "n < 2 ^ 32 \<Longrightarrow> unat (of_nat n :: u32) = n"
  by (simp add: unat_of_nat)

lemma fold_base:
  assumes "n < 2 ^ 32"
  shows "fold (\<lambda>k base. base + u_pow k (Fin (- 1) * Fin sk)) (map of_nat [1 ..< Suc n]) (Fin 0) = Fin (harmonic sk n)"
  using assms
proof (induction n)
  case (Suc n)
  have "unat (of_nat (Suc n) :: u32) = Suc n" using Suc.prems by (rule unat_small)
  moreover from this have "(of_nat (Suc n) :: u32) \<noteq> 0" by auto
  ultimately show ?case using Suc by (simp add: harmonic_Suc del: of_nat_Suc)
qed (simp add: harmonic_def)

lemma get_base_eq:
  assumes "N \<noteq> - 1" "N \<noteq> 0"
  shows "get_base N (Fin sk) = Inr (Fin (1 / harmonic sk (unat N)))"
proof -
  have "0 < harmonic sk (unat N)" using assms(2) by (intro harmonic_pos) (simp add: unat_gt_0 Suc_leI)
  moreover have "unat N < 2 ^ 32" using unsigned_less [of N] by simp
  ultimately show ?thesis
    using assms(1) unfolding get_base_def up_to_def by (simp only: if_False bindr_simps fold_base [of "unat N" sk]) simp
qed

lemma fold_table:
  assumes "n < 2 ^ 32" "k \<le> n"
  shows "fmlookup (fold (zipf_step (Fin b) (Fin sk)) (map of_nat [1 ..< Suc n]) (fmupd 0 (Fin 0) fmempty)) (of_nat k) =
    Some (Fin (b * harmonic sk k))"
  using assms
proof (induction n arbitrary: k)
  case 0
  then show ?case by (simp add: harmonic_def)
next
  case (Suc n)
  define m where "m = fold (zipf_step (Fin b) (Fin sk)) (map of_nat [1 ..< Suc n]) (fmupd 0 (Fin 0) fmempty)"
  have step: "fold (zipf_step (Fin b) (Fin sk)) (map of_nat [1 ..< Suc (Suc n)]) (fmupd 0 (Fin 0) fmempty) =
      zipf_step (Fin b) (Fin sk) (of_nat (Suc n)) m"
    by (simp add: m_def)
  have u: "unat (of_nat (Suc n) :: u32) = Suc n" using Suc.prems by (intro unat_small) simp
  then have nz: "(of_nat (Suc n) :: u32) \<noteq> 0" by auto
  have p: "u_pow (of_nat (Suc n)) (Fin sk) = Fin (real (Suc n) powr sk)" using u nz by (simp del: of_nat_Suc)
  have prev: "(of_nat (Suc n) :: u32) - 1 = of_nat n" by simp
  show ?case
  proof (cases "k = Suc n")
    case True
    have "fmlookup m (of_nat n) = Some (Fin (b * harmonic sk n))" unfolding m_def using Suc by simp
    then show ?thesis
      unfolding True harmonic_Suc step
      by (simp add: zipf_step_def p prev fm_at_def powr_minus field_simps del: of_nat_Suc u_pow.simps)
  next
    case False
    then have k: "k \<le> n" using Suc.prems by simp
    have "unat (of_nat k :: u32) = k" using k Suc.prems(1) by (intro unat_small) simp
    then have "(of_nat k :: u32) \<noteq> of_nat (Suc n)" using u False by metis
    then show ?thesis unfolding step using Suc.IH [OF _ k, folded m_def] Suc.prems(1) by (simp add: zipf_step_def del: of_nat_Suc u_pow.simps)
  qed
qed



section \<open>Observed latencies\<close>

lemma observe_again:
  "fmlookup m key = Some (avg, n) \<Longrightarrow>
   fmlookup (observe key l m) key = Some (dbl_div (avg * dbl_of n + l) (dbl_of (n + 1)), n + 1)"
  by (simp add: observe_def)



section \<open>Warming up\<close>

text \<open>
  Warming up leaves keys out: the threads together write exactly the keys from 1 to the largest multiple
  of the number of threads, so up to one less than the number of threads are missing.
\<close>

lemma warm_keys_covered:
  assumes "T \<noteq> 0" "N \<noteq> - 1"
  shows "{unat i | t ws i. t < unat T \<and> warm_range (of_nat t) N T = Inr ws \<and> i \<in> set ws} = {1 .. unat N div unat T * unat T}"
proof -
  define r where "r = unat N div unat T"
  have N: "unat N < 2 ^ 32 - 1"
  proof -
    have "unat (- 1 :: u32) = 2 ^ 32 - 1" by (simp add: unsigned_minus_1_eq_mask mask_eq_exp_minus_1)
    moreover have "unat N \<noteq> unat (- 1 :: u32)" using assms(2) unsigned_word_eqI by blast
    moreover have "unat N < 2 ^ 32" using unsigned_less [of N, where ?'a = nat] by simp
    ultimately show ?thesis by simp
  qed
  have r: "unat (N div T) = r" by (simp add: r_def unat_div_distrib)
  have top: "r * unat T \<le> unat N" by (simp add: r_def)
  have le: "t * r + r \<le> unat N" if "t < unat T" for t
  proof -
    have "Suc t * r \<le> unat T * r" using that by (intro mult_le_mono) auto
    then show ?thesis using top by (simp add: algebra_simps)
  qed
  have range: "warm_range (of_nat t) N T = Inr (map of_nat [t * r + 1 ..< t * r + 1 + r])" if t: "t < unat T" for t
  proof -
    have q: "N div T = of_nat r" by (simp flip: r)
    have "of_nat t * (N div T) + 1 = (of_nat (t * r + 1) :: u32)" "of_nat t * (N div T) + 1 + N div T = (of_nat (t * r + 1 + r) :: u32)"
      by (simp_all add: q)
    moreover have "unat (of_nat (t * r + 1) :: u32) = t * r + 1" "unat (of_nat (t * r + 1 + r) :: u32) = t * r + 1 + r"
      using le [OF t] N by (intro unat_small; simp)+
    ultimately show ?thesis using assms(1) unfolding warm_range_def Let_def by (simp only: if_False)
  qed
  have "{unat i | t ws i. t < unat T \<and> warm_range (of_nat t) N T = Inr ws \<and> i \<in> set ws} =
      {x. \<exists>t < unat T. t * r + 1 \<le> x \<and> x < t * r + 1 + r}" (is "?A = ?B")
  proof (intro set_eqI iffI)
    fix x assume "x \<in> ?B"
    then obtain t where t: "t < unat T" "t * r + 1 \<le> x" "x < t * r + 1 + r" by blast
    then have "unat (of_nat x :: u32) = x" using le [OF t(1)] N by (intro unat_small) simp
    moreover have "(of_nat x :: u32) \<in> set (map of_nat [t * r + 1 ..< t * r + 1 + r])"
      using t(2,3) unfolding set_map set_upt by (intro imageI) simp
    ultimately show "x \<in> ?A" using range [OF t(1)] t(1) by force
  next
    fix x assume "x \<in> ?A"
    then obtain t ws i where i: "t < unat T" "warm_range (of_nat t) N T = Inr ws" "i \<in> set ws" "x = unat i" by blast
    then have "i \<in> of_nat ` set [t * r + 1 ..< t * r + 1 + r]" using range [OF i(1)] by (metis set_map sum.inject(2))
    then obtain y where t: "t < unat T" "y \<in> set [t * r + 1 ..< t * r + 1 + r]" "x = unat (of_nat y :: u32)"
      using i by blast
    then have "unat (of_nat y :: u32) = y" using le [OF t(1)] N by (intro unat_small) auto
    then show "x \<in> ?B" using t by auto
  qed
  also have "\<dots> = {1 .. r * unat T}"
  proof (intro set_eqI iffI)
    fix x assume "x \<in> {1 .. r * unat T}"
    then have x: "1 \<le> x" "x \<le> r * unat T" by auto
    then have "0 < r" by (cases r) auto
    then have "(x - 1) div r < unat T" using x by (simp add: div_less_iff_less_mult mult.commute)
    moreover have "(x - 1) div r * r \<le> x - 1" by simp
    moreover have "x - 1 < (x - 1) div r * r + r" using \<open>0 < r\<close> by (metis add.commute div_mult_mod_eq mod_less_divisor nat_add_left_cancel_less)
    ultimately show "x \<in> {x. \<exists>t < unat T. t * r + 1 \<le> x \<and> x < t * r + 1 + r}"
      using x by (intro CollectI exI [of _ "(x - 1) div r"]) linarith
  next
    fix x assume "x \<in> {x. \<exists>t < unat T. t * r + 1 \<le> x \<and> x < t * r + 1 + r}"
    then obtain t where t: "t < unat T" "t * r + 1 \<le> x" "x < t * r + 1 + r" by blast
    have "Suc t * r \<le> unat T * r" using t(1) by (intro mult_le_mono) auto
    then show "x \<in> {1 .. r * unat T}" using t by (simp add: algebra_simps)
  qed
  finally show ?thesis by (simp add: r_def)
qed

section \<open>Names of keys\<close>

lemma digits_val_zeros: "digits_val 0 (replicate n CHR ''0'' @ s) = digits_val 0 s"
  by (induction n) (simp_all add: digit_val_def)

lemma generate_key_inj:
  assumes "generate_key a = Inr key" "generate_key b = Inr key"
  shows "a = b"
proof -
  have "digits_val 0 key = unat n" if "generate_key n = Inr key" for n
    using that by (auto simp: generate_key_def to_string_def digits_val_zeros split: if_splits)
  with assms have "unat a = unat b" by metis
  then show ?thesis by (rule unsigned_word_eqI)
qed

lemma generate_key_length: "generate_key n = Inr key \<Longrightarrow> length key = 8"
  by (auto simp: generate_key_def split: if_splits)

end
