(* ===== verification/Transport.thy ===== *)
theory Transport
  imports Prelude
begin

text \<open>
  The wrappers of include/zmq around the ZeroMQ library: a cache of sockets that are connected on first use, and
  messages that carry strings. The library is the parameter \<open>zmq\<close>, with a state of its own; sockets are numbers. The other
  theories append what a process sends to a list of addresses and messages; here it is shown that sending through
  the cache is that, and that one socket serves each address.
\<close>

record message_t =
  msg_data :: string
  msg_size :: nat

record 'z zmq =
  zmq_socket :: "int \<Rightarrow> 'z \<Rightarrow> nat \<times> 'z"              \<comment> \<open>\<open>socket_t(context, type)\<close>\<close>
  zmq_connect :: "nat \<Rightarrow> Address \<Rightarrow> 'z \<Rightarrow> fault + 'z"  \<comment> \<open>\<open>connect\<close>, which throws on an address it cannot parse\<close>
  zmq_send :: "nat \<Rightarrow> message_t \<Rightarrow> 'z \<Rightarrow> 'z"          \<comment> \<open>\<open>send\<close>\<close>
  zmq_recv :: "nat \<Rightarrow> 'z \<Rightarrow> message_t \<times> 'z"         \<comment> \<open>\<open>recv\<close>\<close>

record SocketCache =
  cache_sockets :: "(Address, nat) fmap"   \<comment> \<open>\<open>cache_\<close>\<close>
  cache_type :: int                        \<comment> \<open>\<open>type_\<close>\<close>

definition new_socket_cache :: "int \<Rightarrow> SocketCache" where
  "new_socket_cache t = \<lparr>cache_sockets = fmempty, cache_type = t\<rparr>"

definition socket_at :: "'z zmq \<Rightarrow> Address \<Rightarrow> SocketCache \<times> 'z \<Rightarrow> fault + (nat \<times> SocketCache \<times> 'z)" where
  "socket_at Z addr = (\<lambda>(c, z).
     case fmlookup (cache_sockets c) addr of
       Some s \<Rightarrow> Inr (s, c, z)
     | None \<Rightarrow>
        (case zmq_socket Z (cache_type c) z of (s, z) \<Rightarrow>
           bindr (zmq_connect Z s addr z) (\<lambda>z.
             Inr (s, c\<lparr>cache_sockets := fmupd addr s (cache_sockets c)\<rparr>, z))))"

definition clear_sockets :: "SocketCache \<Rightarrow> SocketCache" where
  "clear_sockets c = c\<lparr>cache_sockets := fmempty\<rparr>"

definition message_to_string :: "message_t \<Rightarrow> string" where
  "message_to_string m = take (msg_size m) (msg_data m)"

definition string_to_message :: "string \<Rightarrow> message_t" where
  "string_to_message s = \<lparr>msg_data = s, msg_size = length s\<rparr>"

definition send_string :: "'z zmq \<Rightarrow> string \<Rightarrow> nat \<Rightarrow> 'z \<Rightarrow> 'z" where
  "send_string Z s sock z = zmq_send Z sock (string_to_message s) z"

definition recv_string :: "'z zmq \<Rightarrow> nat \<Rightarrow> 'z \<Rightarrow> string \<times> 'z" where
  "recv_string Z sock z = (case zmq_recv Z sock z of (m, z) \<Rightarrow> (message_to_string m, z))"

text \<open>What the callers write: \<open>kZmqUtil->send_string(s, &pushers[addr])\<close>.\<close>

definition push_string :: "'z zmq \<Rightarrow> Address \<times> string \<Rightarrow> SocketCache \<times> 'z \<Rightarrow> fault + (SocketCache \<times> 'z)" where
  "push_string Z = (\<lambda>(addr, s) cz. bindr (socket_at Z addr cz) (\<lambda>(sock, c, z). Inr (c, send_string Z s sock z)))"

lemma message_roundtrip [simp]: "message_to_string (string_to_message s) = s"
  by (simp add: message_to_string_def string_to_message_def)

text \<open>
  The documented behaviour of push sockets: a new socket is not one of those that are open; connecting gives it
  its peer and changes no other; sending appends the message to what has been sent to the peer.
\<close>

definition zmq_pushes :: "'z zmq \<Rightarrow> ('z \<Rightarrow> (nat, Address) fmap) \<Rightarrow> ('z \<Rightarrow> (Address \<times> string) list) \<Rightarrow> bool" where
  "zmq_pushes Z peers sent \<longleftrightarrow>
     (\<forall>t z s z'. zmq_socket Z t z = (s, z') \<longrightarrow> s |\<notin>| fmdom (peers z) \<and> peers z' = peers z \<and> sent z' = sent z) \<and>
     (\<forall>s addr z z'. zmq_connect Z s addr z = Inr z' \<longrightarrow> peers z' = fmupd s addr (peers z) \<and> sent z' = sent z) \<and>
     (\<forall>s m z addr. fmlookup (peers z) s = Some addr \<longrightarrow>
        peers (zmq_send Z s m z) = peers z \<and> sent (zmq_send Z s m z) = sent z @ [(addr, message_to_string m)])"

text \<open>The invariant of a cache: the socket of an address is connected to it.\<close>

definition cache_connected :: "(nat, Address) fmap \<Rightarrow> SocketCache \<Rightarrow> bool" where
  "cache_connected peers c \<longleftrightarrow> (\<forall>addr s. fmlookup (cache_sockets c) addr = Some s \<longrightarrow> fmlookup peers s = Some addr)"

lemma new_socket_cache_connected [simp]: "cache_connected peers (new_socket_cache t)"
  by (simp add: cache_connected_def new_socket_cache_def)

lemma clear_sockets_connected [simp]: "cache_connected peers (clear_sockets c)"
  by (simp add: cache_connected_def clear_sockets_def)

lemma socket_at_connected:
  assumes "socket_at Z addr (c, z) = Inr (s, c', z')" "zmq_pushes Z peers sent" "cache_connected (peers z) c"
  shows "fmlookup (peers z') s = Some addr" "cache_connected (peers z') c'" "sent z' = sent z"
    "fmlookup (cache_sockets c') addr = Some s"
proof -
  have "fmlookup (peers z') s = Some addr \<and> cache_connected (peers z') c' \<and> sent z' = sent z \<and>
    fmlookup (cache_sockets c') addr = Some s"
  proof (cases "fmlookup (cache_sockets c) addr")
    case (Some s0)
    then show ?thesis using assms by (auto simp: socket_at_def cache_connected_def)
  next
    case None
    obtain z1 where "zmq_socket Z (cache_type c) z = (s, z1)" and "zmq_connect Z s addr z1 = Inr z'"
      and c': "c' = c\<lparr>cache_sockets := fmupd addr s (cache_sockets c)\<rparr>"
      using assms(1) None by (auto simp: socket_at_def bindr_Inr_iff split: prod.splits)
    then have "fmlookup (peers z) s = None" and "peers z' = fmupd s addr (peers z)" and "sent z' = sent z"
      using assms(2) unfolding zmq_pushes_def by (metis fmdom_notD)+
    then show ?thesis using assms(3) by (auto simp: c' cache_connected_def)
  qed
  then show "fmlookup (peers z') s = Some addr" "cache_connected (peers z') c'" "sent z' = sent z"
    "fmlookup (cache_sockets c') addr = Some s" by simp_all
qed

text \<open>A second use of an address is served by the socket of the first.\<close>

lemma socket_at_again:
  assumes "socket_at Z addr (c, z) = Inr (s, c', z')" "zmq_pushes Z peers sent" "cache_connected (peers z) c"
  shows "socket_at Z addr (c', z') = Inr (s, c', z')"
  using socket_at_connected(4) [OF assms] by (simp add: socket_at_def)

lemma push_string_connected:
  assumes "push_string Z (addr, m) (c, z) = Inr (c', z')" "zmq_pushes Z peers sent" "cache_connected (peers z) c"
  shows "cache_connected (peers z') c' \<and> sent z' = sent z @ [(addr, m)]"
proof -
  obtain s z1 where at: "socket_at Z addr (c, z) = Inr (s, c', z1)" and z': "z' = zmq_send Z s (string_to_message m) z1"
    using assms(1) by (auto simp: push_string_def send_string_def bindr_Inr_iff)
  note S = socket_at_connected [OF at assms(2,3)]
  then have "peers z' = peers z1 \<and> sent z' = sent z1 @ [(addr, m)]"
    using assms(2) by (simp add: zmq_pushes_def z')
  then show ?thesis using S by simp
qed

text \<open>Sending a list of messages through the cache delivers exactly that list, in order.\<close>

lemma pushes_refine_out:
  assumes "for_each (push_string Z) msgs (c, z) = Inr (c', z')" "zmq_pushes Z peers sent" "cache_connected (peers z) c"
  shows "cache_connected (peers z') c' \<and> sent z' = sent z @ msgs"
  using assms(1,3)
proof (induction msgs arbitrary: c z)
  case (Cons m msgs)
  obtain c1 z1 where 1: "push_string Z m (c, z) = Inr (c1, z1)" and 2: "for_each (push_string Z) msgs (c1, z1) = Inr (c', z')"
    using Cons.prems(1) by (auto simp: bindr_Inr_iff)
  show ?case
    using push_string_connected [of Z "fst m" "snd m" c z c1 z1 peers sent] 1 assms(2) Cons.prems(2) Cons.IH [OF 2] by simp
qed simp

text \<open>No two addresses share a socket.\<close>

lemma cached_sockets_distinct:
  "cache_connected peers c \<Longrightarrow> fmlookup (cache_sockets c) a = Some s \<Longrightarrow> fmlookup (cache_sockets c) b = Some s \<Longrightarrow> a = b"
  by (metis cache_connected_def option.inject)

text \<open>
  A library that keeps its promise: its state is the number of the next socket, the peers and what was sent.
\<close>

definition sample_zmq :: "(nat \<times> (nat, Address) fmap \<times> (Address \<times> string) list) zmq" where
  "sample_zmq =
     \<lparr>zmq_socket = \<lambda>t (n, p, l). let n = Suc (Max (insert n (fset (fmdom p)))) in (n, n, p, l),
      zmq_connect = \<lambda>s addr (n, p, l). if addr = [] then Inl Invalid_argument else Inr (n, fmupd s addr p, l),
      zmq_send = \<lambda>s m (n, p, l). (n, p, case fmlookup p s of Some addr \<Rightarrow> l @ [(addr, message_to_string m)] | None \<Rightarrow> l),
      zmq_recv = \<lambda>s z. (string_to_message [], z)\<rparr>"

lemma Suc_Max_fresh: "finite A \<Longrightarrow> Suc (Max (insert n A)) \<notin> A"
  by (metis Max_ge finite_insert insertI2 not_less_eq_eq order_refl)

lemma sample_zmq_pushes: "zmq_pushes sample_zmq (fst \<circ> snd) (snd \<circ> snd)"
  by (auto simp: zmq_pushes_def sample_zmq_def Let_def Suc_Max_fresh split: if_splits)

lemma sample_pushes:
  "\<exists>c z. for_each (push_string sample_zmq) [(''a'', ''x''), (''b'', ''y''), (''a'', ''z'')] (new_socket_cache 8, 0, fmempty, []) = Inr (c, z) \<and>
     snd (snd z) = [(''a'', ''x''), (''b'', ''y''), (''a'', ''z'')] \<and> fmlookup (cache_sockets c) ''a'' = Some 1"
  by (simp add: push_string_def socket_at_def send_string_def sample_zmq_def new_socket_cache_def Let_def)

end
