(* ===== verification/Python_Lattices.thy ===== *)
theory Python_Lattices
  imports Prelude
begin

text \<open>
  The lattices of the Python client, kvs/client/python/anna/lattices.py. A Python value is tagged with its type, which the
  constructors test; an exception is a value of \<open>py_error\<close>. The elements of an ordered set are bytes, compared
  lexicographically. Objects are values: no method here changes one that another object holds.
\<close>

section \<open>Values, exceptions and lattices\<close>

datatype py_error = ValueError | AttributeError | NameError | IndexError

datatype py_value =
    Py_int int
  | Py_bytes string
  | Py_str string
  | Py_tuple "py_value list"
  | Py_set "string fset"
  | Py_dict                   \<comment> \<open>\<open>{}\<close>, the empty dictionary\<close>
  | Py_ordered "string list"  \<comment> \<open>a \<open>ListBasedOrderedSet\<close> with its \<open>lst\<close>\<close>

datatype py_lattice =
    Py_LWWPairLattice int string
  | Py_SetLattice "string fset"
  | Py_OrderedSetLattice "string list"

fun py_bind :: "py_error + 'a \<Rightarrow> ('a \<Rightarrow> py_error + 'b) \<Rightarrow> py_error + 'b" where
  "py_bind (Inl e) f = Inl e"
| "py_bind (Inr x) f = f x"

fun py_for :: "('a \<Rightarrow> 's \<Rightarrow> py_error + 's) \<Rightarrow> 'a list \<Rightarrow> 's \<Rightarrow> py_error + 's" where
  "py_for f [] s = Inr s"
| "py_for f (x # xs) s = py_bind (f x s) (py_for f xs)"

fun lww_pair_init :: "py_value \<Rightarrow> py_value \<Rightarrow> py_error + py_lattice" where
  "lww_pair_init (Py_int timestamp) (Py_bytes v) = Inr (Py_LWWPairLattice timestamp v)"
| "lww_pair_init _ _ = Inl ValueError"

text \<open>A string is converted with a name that does not exist; an index beyond the tuple raises.\<close>

fun lww_pair_assign :: "py_value \<Rightarrow> py_error + py_lattice" where
  "lww_pair_assign (Py_str s) = Inl NameError"
| "lww_pair_assign (Py_tuple []) = Inl IndexError"
| "lww_pair_assign (Py_tuple [Py_int timestamp]) = Inl IndexError"
| "lww_pair_assign (Py_tuple (Py_int timestamp # Py_bytes v # rest)) = Inr (Py_LWWPairLattice timestamp v)"
| "lww_pair_assign _ = Inl ValueError"

fun set_lattice_init :: "py_value \<Rightarrow> py_error + py_lattice" where
  "set_lattice_init (Py_set v) = Inr (Py_SetLattice v)"
| "set_lattice_init _ = Inl ValueError"

fun ordered_lattice_init :: "py_value \<Rightarrow> py_error + py_lattice" where
  "ordered_lattice_init (Py_ordered l) = Inr (Py_OrderedSetLattice l)"
| "ordered_lattice_init _ = Inl ValueError"

section \<open>The ordered set\<close>

text \<open>The loop of \<open>_index_of\<close>; \<open>int((high - low) / 2)\<close> is the integer half for every length a list can have.\<close>

function index_of_loop :: "'a::linorder list \<Rightarrow> 'a \<Rightarrow> nat \<Rightarrow> nat \<Rightarrow> py_error + (nat \<times> bool)" where
  "index_of_loop lst v low high =
     (if low < high then
        let middle = low + (high - low) div 2 in
        if middle < length lst then
          let pivot = lst ! middle in
          if v = pivot then Inr (middle, True)
          else if v < pivot then index_of_loop lst v low middle
          else index_of_loop lst v (middle + 1) high
        else Inl IndexError
      else Inr (low, False))"
  by auto
termination
  by (relation "measure (\<lambda>(lst, v, low, high). high - low)") auto

definition index_of :: "'a::linorder list \<Rightarrow> 'a \<Rightarrow> py_error + (nat \<times> bool)" where
  "index_of lst v = index_of_loop lst v 0 (length lst)"

definition ordered_insert :: "'a::linorder \<Rightarrow> 'a list \<Rightarrow> py_error + 'a list" where
  "ordered_insert v lst =
     (if length lst = 0 then Inr (lst @ [v])
      else if last lst < v then Inr (lst @ [v])
      else py_bind (index_of lst v) (\<lambda>(idx, present).
        if \<not> present then Inr (take idx lst @ [v] @ drop idx lst) else Inr lst))"

definition ordered_init :: "'a::linorder list \<Rightarrow> py_error + 'a list" where
  "ordered_init iterable = py_for ordered_insert iterable []"

section \<open>Merges\<close>

function lockstep :: "'a::linorder list \<Rightarrow> 'a list \<Rightarrow> nat \<Rightarrow> nat \<Rightarrow> 'a list \<Rightarrow> py_error + 'a list" where
  "lockstep us other i j new_lst =
     (if i < length us \<or> j < length other then
        if i = length us then Inr (new_lst @ drop j other)
        else if j = length other then Inr (new_lst @ drop i us)
        else if i < length us \<and> j < length other then
          let a = us ! i; b = other ! j in
          if a = b then lockstep us other (i + 1) (j + 1) (new_lst @ [a])
          else if a < b then lockstep us other (i + 1) j (new_lst @ [a])
          else lockstep us other i (j + 1) (new_lst @ [b])
        else Inl IndexError
      else Inr new_lst)"
  by auto
termination
  by (relation "measure (\<lambda>(us, other, i, j, new_lst). (length us - i) + (length other - j))") auto

text \<open>
  \<open>SetLattice.merge\<close> starts from \<open>{}\<close>, which is a dictionary: it has no method \<open>insert\<close>, and it is not a set.
\<close>

definition set_lattice_merge :: "string fset \<Rightarrow> string fset \<Rightarrow> py_error + py_lattice" where
  "set_lattice_merge us other =
     (if other \<noteq> {||} then Inl AttributeError
      else if us \<noteq> {||} then Inl AttributeError
      else set_lattice_init Py_dict)"

definition ordered_lattice_merge :: "string list \<Rightarrow> string list \<Rightarrow> py_error + py_lattice" where
  "ordered_lattice_merge us other =
     py_bind (lockstep us other 0 0 []) (\<lambda>new_lst.
     py_bind (ordered_init new_lst) (\<lambda>l. ordered_lattice_init (Py_ordered l)))"

fun py_merge :: "py_lattice \<Rightarrow> py_lattice \<Rightarrow> py_error + py_lattice" where
  "py_merge (Py_LWWPairLattice ts v) (Py_LWWPairLattice ts' v') =
     (if ts' > ts then Inr (Py_LWWPairLattice ts' v') else Inr (Py_LWWPairLattice ts v))"
| "py_merge (Py_LWWPairLattice ts v) _ = Inl AttributeError"
| "py_merge (Py_SetLattice us) (Py_SetLattice other) = set_lattice_merge us other"
| "py_merge (Py_SetLattice us) _ = Inl ValueError"
| "py_merge (Py_OrderedSetLattice us) (Py_OrderedSetLattice other) = ordered_lattice_merge us other"
| "py_merge (Py_OrderedSetLattice us) _ = Inl ValueError"

declare index_of_loop.simps [simp del] lockstep.simps [simp del]

section \<open>Correctness\<close>

text \<open>The binary search finds an element or the place between the smaller and the larger ones.\<close>

lemma index_of_loop_correct:
  assumes "sorted_wrt (<) lst" "low \<le> high" "high \<le> length lst"
    "\<forall>x\<in>set (take low lst). x < v" "\<forall>x\<in>set (drop high lst). v < x"
  shows "\<exists>idx. idx \<le> length lst \<and> (\<forall>x\<in>set (take idx lst). x < v) \<and>
    (if v \<in> set lst then index_of_loop lst v low high = Inr (idx, True) \<and> idx < length lst \<and> lst ! idx = v
     else index_of_loop lst v low high = Inr (idx, False) \<and> (\<forall>x\<in>set (drop idx lst). v < x))"
  using assms
proof (induction lst v low high rule: index_of_loop.induct)
  case (1 lst v low high)
  define middle where "middle = low + (high - low) div 2"
  show ?case
  proof (cases "low < high")
    case False
    then have "set lst = set (take low lst) \<union> set (drop high lst)"
      using 1(4) by (metis append_take_drop_id le_antisym linorder_not_less set_append)
    then have "v \<notin> set lst" using 1(6,7) by auto
    then show ?thesis using False 1(4-7) by (intro exI [of _ low]) (simp add: index_of_loop.simps)
  next
    case True
    then have m: "low \<le> middle" "middle < high" "middle < length lst" using 1(5) by (auto simp: middle_def)
    have below: "x < lst ! middle" if "x \<in> set (take middle lst)" for x
      using that 1(3) m(3) by (auto simp: in_set_conv_nth sorted_wrt_iff_nth_less)
    have above: "lst ! middle < x" if "x \<in> set (drop (middle + 1) lst)" for x
      using that 1(3) m(3) by (auto simp: in_set_conv_nth sorted_wrt_iff_nth_less)
    have unroll: "index_of_loop lst v low high = (if v = lst ! middle then Inr (middle, True)
        else if v < lst ! middle then index_of_loop lst v low middle else index_of_loop lst v (middle + 1) high)"
      using True m(3) by (subst index_of_loop.simps) (simp add: middle_def Let_def)
    consider (eq) "v = lst ! middle" | (less) "v < lst ! middle" | (greater) "lst ! middle < v" by fastforce
    then show ?thesis
    proof cases
      case eq
      then show ?thesis using m(3) below unroll by (intro exI [of _ middle]) auto
    next
      case less
      have "drop middle lst = lst ! middle # drop (middle + 1) lst" using m(3) by (simp add: Cons_nth_drop_Suc)
      then have *: "\<forall>x\<in>set (drop middle lst). v < x" using less above by fastforce
      have eq: "index_of_loop lst v low high = index_of_loop lst v low middle" using unroll less by auto
      show ?thesis unfolding eq
        by (rule 1(1) [OF True middle_def m(3) refl less_imp_neq [OF less] less 1(3) m(1) less_imp_le [OF m(3)] 1(6) *])
    next
      case greater
      have "take (middle + 1) lst = take middle lst @ [lst ! middle]" using m(3) by (simp add: take_Suc_conv_app_nth)
      then have *: "\<forall>x\<in>set (take (middle + 1) lst). x < v" using greater below by fastforce
      have eq: "index_of_loop lst v low high = index_of_loop lst v (middle + 1) high" using unroll greater by auto
      show ?thesis unfolding eq
        by (rule 1(2) [OF True middle_def m(3) refl _ _ 1(3) _ 1(5) * 1(7)]) (use greater m(2) in auto)
    qed
  qed
qed

lemma strict_sorted_unique:
  "sorted_wrt (<) xs \<Longrightarrow> xs = sorted_list_of_set (set xs)" for xs :: "'a::linorder list"
  by (simp add: sorted_list_of_set.idem_if_sorted_distinct strict_sorted_iff)

text \<open>Inserting keeps the list strictly ascending and adds the element.\<close>

lemma ordered_insert_correct:
  assumes "sorted_wrt (<) lst"
  shows "ordered_insert v lst = Inr (sorted_list_of_set (insert v (set lst)))"
proof -
  have sorted: "r = sorted_list_of_set (insert v (set lst))" if "sorted_wrt (<) r" "set r = insert v (set lst)" for r
    using strict_sorted_unique [OF that(1)] that(2) by simp
  show ?thesis
  proof (cases "lst = [] \<or> last lst < v")
    case True
    then have "\<forall>x\<in>set lst. x < v"
      using assms by (cases lst rule: rev_cases) (auto simp: sorted_wrt_append)
    then have "sorted_wrt (<) (lst @ [v])" using assms by (simp add: sorted_wrt_append)
    then show ?thesis using True sorted [of "lst @ [v]"] by (auto simp: ordered_insert_def)
  next
    case False
    obtain idx where idx: "\<forall>x\<in>set (take idx lst). x < v"
      "if v \<in> set lst then index_of lst v = Inr (idx, True)
       else index_of lst v = Inr (idx, False) \<and> (\<forall>x\<in>set (drop idx lst). v < x)"
      using index_of_loop_correct [OF assms, of 0 "length lst" v] by (auto simp: index_of_def split: if_splits)
    show ?thesis
    proof (cases "v \<in> set lst")
      case True
      then show ?thesis using False idx sorted [OF assms] by (simp add: ordered_insert_def insert_absorb)
    next
      case new: False
      have "sorted_wrt (<) (take idx lst @ drop idx lst)" using assms by simp
      then have "sorted_wrt (<) (take idx lst @ v # drop idx lst)"
        using idx new by (auto simp only: sorted_wrt_append sorted_wrt.simps list.set if_False)
      moreover have "set (take idx lst @ v # drop idx lst) = insert v (set lst)"
        by (metis append_take_drop_id insert_commute list.simps(15) set_append Un_insert_right)
      ultimately show ?thesis using False idx(2) new sorted by (simp add: ordered_insert_def)
    qed
  qed
qed

lemma ordered_init_correct: "ordered_init iterable = Inr (sorted_list_of_set (set iterable))"
proof -
  have "py_for ordered_insert iterable lst = Inr (sorted_list_of_set (set iterable \<union> set lst))"
    if "sorted_wrt (<) lst" for lst
    using that
  proof (induction iterable arbitrary: lst)
    case Nil
    then show ?case using strict_sorted_unique by simp
  next
    case (Cons a iterable)
    show ?case
      using Cons.IH [OF strict_sorted_list_of_set [of "insert a (set lst)"]] ordered_insert_correct [OF Cons.prems, of a]
      by (simp del: sorted_list_of_set.fold_insort_key.insert_remove sorted_list_of_set_insert_remove)
  qed
  from this [of "[]"] show ?thesis by (simp add: ordered_init_def)
qed

lemma sorted_drop_less: "sorted_wrt (<) xs \<Longrightarrow> i < length xs \<Longrightarrow> x \<in> set (drop (Suc i) xs) \<Longrightarrow> xs ! i < x"
  by (metis Cons_nth_drop_Suc sorted_wrt.simps(2) sorted_wrt_drop)

text \<open>The lockstep merge appends the union of what is left of both lists.\<close>

lemma lockstep_correct:
  assumes "sorted_wrt (<) us" "sorted_wrt (<) other" "i \<le> length us" "j \<le> length other"
  shows "\<exists>r. lockstep us other i j new_lst = Inr (new_lst @ r) \<and> sorted_wrt (<) r \<and>
    set r = set (drop i us) \<union> set (drop j other)"
  using assms
proof (induction us other i j new_lst rule: lockstep.induct)
  case (1 us other i j new_lst)
  show ?case
  proof (cases "i < length us \<and> j < length other")
    case False
    then show ?thesis using 1(4-7) by (subst lockstep.simps) (auto intro: sorted_wrt_drop)
  next
    case True
    then have i: "i < length us" and j: "j < length other" by simp_all
    note heads = Cons_nth_drop_Suc [OF i, symmetric] Cons_nth_drop_Suc [OF j, symmetric]
    note above = sorted_drop_less [OF 1(4) i] sorted_drop_less [OF 1(5) j]
    note step = lockstep.simps [of us other i j new_lst]
    consider (eq) "us ! i = other ! j" | (less) "us ! i < other ! j" | (greater) "other ! j < us ! i" by fastforce
    then show ?thesis
    proof cases
      case eq
      obtain r where r: "lockstep us other (i + 1) (j + 1) (new_lst @ [us ! i]) = Inr ((new_lst @ [us ! i]) @ r)"
        "sorted_wrt (<) r" "set r = set (drop (i + 1) us) \<union> set (drop (j + 1) other)"
        using 1(1) [OF _ _ _ True refl refl eq] 1(4,5) i j by fastforce
      show ?thesis
        by (rule exI [of _ "us ! i # r"], unfold heads) (use eq r i j above in \<open>auto simp: step Let_def\<close>)
    next
      case less
      obtain r where r: "lockstep us other (i + 1) j (new_lst @ [us ! i]) = Inr ((new_lst @ [us ! i]) @ r)"
        "sorted_wrt (<) r" "set r = set (drop (i + 1) us) \<union> set (drop j other)"
        using 1(2) [OF _ _ _ True refl refl _ less] 1(4,5) i j less by fastforce
      show ?thesis
        by (rule exI [of _ "us ! i # r"], unfold heads) (use less less_imp_neq [OF less] r i j above heads(2) in \<open>auto simp: step Let_def intro: less_trans\<close>)
    next
      case greater
      obtain r where r: "lockstep us other i (j + 1) (new_lst @ [other ! j]) = Inr ((new_lst @ [other ! j]) @ r)"
        "sorted_wrt (<) r" "set r = set (drop i us) \<union> set (drop (j + 1) other)"
        using 1(3) [OF _ _ _ True refl refl] 1(4,5) i j greater by fastforce
      show ?thesis
        by (rule exI [of _ "other ! j # r"], unfold heads) (use greater less_imp_neq [OF greater] r i j above heads(1) in \<open>auto simp: step Let_def intro: less_trans\<close>)
    qed
  qed
qed

text \<open>No two sets of the Python client can be merged.\<close>

lemma set_lattice_merge_raises: "\<exists>e. py_merge (Py_SetLattice us) (Py_SetLattice other) = Inl e"
  by (simp add: set_lattice_merge_def)

text \<open>
  C37. The lockstep merge of two ordered sets of the Python client, for ascending lists without repetitions, raises no
  exception and is the ascending list of the union of their elements.
\<close>

theorem ordered_lattice_merge_union:
  assumes "sorted_wrt (<) us" "sorted_wrt (<) other"
  shows "py_merge (Py_OrderedSetLattice us) (Py_OrderedSetLattice other) =
    Inr (Py_OrderedSetLattice (sorted_list_of_set (set us \<union> set other)))"
  using lockstep_correct [OF assms, of 0 0 "[]"] by (auto simp: ordered_lattice_merge_def ordered_init_correct)

theorem ordered_lattice_merge_union_witness:
  "py_merge (Py_OrderedSetLattice [''a'', ''c'']) (Py_OrderedSetLattice [''b'', ''c'', ''d'']) =
    Inr (Py_OrderedSetLattice [''a'', ''b'', ''c'', ''d''])"
proof -
  have "sorted_wrt (<) [''a'', ''c'']" "sorted_wrt (<) [''b'', ''c'', ''d'']" by code_simp+
  moreover have "sorted_list_of_set (set [''a'', ''c''] \<union> set [''b'', ''c'', ''d'']) = [''a'', ''b'', ''c'', ''d'']" by code_simp
  ultimately show ?thesis using ordered_lattice_merge_union by metis
qed

end
