(* ===== verification/Spec2Isabelle.thy ===== *)
theory Spec2Isabelle
  imports Server_Correct Node_Correct Message_Laws Routing_Correct Monitor_Correct Client_Correct Async_Correct
    Causal_Correct Cache_Correct Command_Correct Benchmark_Correct Transport Python_Lattices
begin

text \<open>
  A verification development of the fluent key-value store: the C++ sources under src/include, src/kvs and
  src/functions/cache, and the lattices of its Python client.

  \<^bold>\<open>The program.\<close> Clients ask the routing tier which servers hold a key and send their gets and puts to
  one of them. A storage server keeps values that merge (lattices) in memory or on disk, gossips
  updates to the other replicas of a key, and finds these replicas with consistent hash rings: a
  global one over servers and a local one over the threads of a server, with a replication factor per
  key and tier. Routing nodes keep the same rings. A monitoring node collects statistics that the
  servers store under metadata keys and feedback from clients, changes replication factors and
  adds or removes servers. Caches beside the function executors answer from local copies, one of them
  with causal consistency. The processes share nothing and exchange messages over sockets.

  \<^bold>\<open>How the code is modelled.\<close> Each class is a \<^theory_text>\<open>record\<close>, each enumeration or message a \<^theory_text>\<open>datatype\<close> or
  \<^theory_text>\<open>record\<close>, each function or handler one definition with the name of the source that takes the state
  and returns it updated. \<open>unsigned\<close> and \<open>size_t\<close> are 32- and 64-bit words and wrap. Maps and sets are
  finite maps and finite sets; a loop over one visits it in the order of its keys, which is the order of
  \<open>std::map\<close> and one of the possible orders of \<open>std::unordered_map\<close>. A read outside a container,
  a null pointer, an exception, an overflow of an \<open>int\<close>, an invalid iterator, a failed \<open>assert\<close> and a
  loop that never ends are values of the type \<open>fault\<close>; the result type is \<open>fault + 'a\<close>. Messages that a
  process sends are appended to a list in its state; messages that arrive, readings of the clock
  and random numbers are arguments. What is not in the sources is a field of the records \<open>wire\<close> and
  \<open>env\<close>: the serialization of protocol buffers (with the round trips that \<open>wire_ok\<close> states),
  \<open>std::hash\<close>, \<open>rand_r\<close> and the settings read from the configuration. \<open>Sample_Wire\<close> and \<open>Sample_Env\<close> give
  concrete ones, on which the witnesses of the theorems are evaluated.

  \<^bold>\<open>Theories and sources.\<close>

  \<^item> \<open>Prelude\<close>, \<open>Cxx_Strings\<close>, \<open>Cxx_Double\<close>: words, containers, faults, loops; \<open>to_string\<close>, \<open>stoi\<close>, \<open>find\<close>,
    \<open>split\<close> of include/common.hpp; doubles.
  \<^item> \<open>Merge_Laws\<close>, \<open>Fluent_Lattices\<close>: include/lattices. The contract of a merge is the locale \<open>merge_on\<close>
    (\<open>merge_bot\<close> with a least element), interpreted for every lattice that meets it.
  \<^item> \<open>Messages\<close>, \<open>Threads\<close>, \<open>Metadata\<close>, \<open>Message_Laws\<close>: the protocol buffer messages, include/common.hpp,
    include/requests.hpp, include/threads.hpp, kvs/include/kvs\_threads.hpp, kvs/include/metadata.hpp; round trips of
    values, metadata keys and timestamps.
  \<^item> \<open>Hash_Ring\<close>, \<open>Ring_Laws\<close>: kvs/include/consistent\_hash\_map.hpp, hash\_ring.hpp and hash\_ring.cpp. The walks round
    a ring are instances of the locale \<open>cyclic_scan\<close>; \<open>ring_hasher\<close> is what a ring needs of its hash function.
  \<^item> \<open>Kv_Storage\<close>, \<open>Storage_Laws\<close>: kvs/include/kvs/base\_kv\_store.hpp and server\_utils.hpp. The abstract class
    \<open>Serializer\<close> is the locale \<open>serializer\<close>, interpreted for the classes in memory and on disk that meet it.
  \<^item> \<open>Kvs_Server\<close>, \<open>Kvs_Node\<close>, \<open>Server_Laws\<close>, \<open>Frame_Laws\<close>, \<open>Node_Laws\<close>, \<open>Server_Correct\<close>, \<open>Node_Correct\<close>: the
    handlers of kvs/src/kvs and the loop of server.cpp; the locales \<open>store_frame\<close> and \<open>server_frame\<close> say which
    views of the state the handlers leave alone.
  \<^item> \<open>Routing\<close>, \<open>Routing_Laws\<close>, \<open>Routing_Correct\<close>: kvs/src/route.
  \<^item> \<open>Monitor\<close>, \<open>Monitor_Policy\<close>, \<open>Monitor_Laws\<close>, \<open>Monitor_Correct\<close>: kvs/src/monitor.
  \<^item> \<open>Kvs_Client\<close>, \<open>Client_Correct\<close>, \<open>Async_Interface\<close>, \<open>Async_Correct\<close>: include/kvs\_client.hpp and kvs\_async\_client.hpp. The abstract class
    \<open>KvsAsyncClientInterface\<close> is the locale \<open>async_contract\<close>, interpreted for the client and for the mock client.
  \<^item> \<open>Clock_Order\<close>, \<open>Causal_Cache\<close>, \<open>Causal_Handlers\<close>, \<open>Causal_Laws\<close>, \<open>Causal_Steps\<close>, \<open>Causal_Correct\<close>: the causal
    cache of functions/cache.
  \<^item> \<open>Local_Cache\<close>, \<open>Async_Cache\<close>, \<open>Cache_Correct\<close>: functions/cache/src/cache.cpp and async\_cache.cpp.
  \<^item> \<open>Command_Line\<close>, \<open>Command_Correct\<close>, \<open>Benchmark\<close>, \<open>Benchmark_Correct\<close>: kvs/client/cpp, include/kvs\_mock\_client.hpp
    and kvs/src/benchmark.
  \<^item> \<open>Transport\<close>: include/zmq. \<open>Python_Lattices\<close>: kvs/client/python/anna/lattices.py.

  \<^bold>\<open>What is shown.\<close> Lattices: after any sequence of merges a last-writer-wins value is the last of the writes with
  the largest timestamp; causal values converge when versions are determined by their clocks, and a concrete
  run in which they do not otherwise. Rings: a walk returns exactly when the ring has enough different
  servers, and joining or leaving moves only the keys of the server that joins or leaves. Storage: stores implement
  the map from keys to merged values, values read back, and an older put erases a file. Server:
  a key keeps its lattice type, a client reads its own write, waiting requests are answered, the two maps of caches
  are inverse in every reachable state. Routing: waiting requests are answered, and the rings built from the
  answer of a seed node hold its servers. Monitor: a change of replication factors is complete or
  undone, the one-pass statistics are the mean and the deviation. Clients: no get is lost, a durable put was acknowledged by
  every replica, request ids do not repeat. Causal cache: its store is closed under dependencies after any number of
  rounds, local answers are not older than what a client has seen, the dependency check ends. Caches: recorded types
  are right, no waiting client is forgotten. Benchmark: the search returns the rank that the Zipf distribution gives for the number drawn. Transport: what is sent through cached sockets
  is what the model appends to its lists. Python lattices: the binary search, the ordered insertion and the lockstep merge of
  ordered sets are sorted insertion and union. Theorems of kind error exhibit inputs on which the code faults or misreports.

  \<^bold>\<open>Loops and bounds.\<close> Loops over containers are folds. The walks round a ring, the loop of \<open>generate_timestamp\<close>, the
  polling loop of a command line, the draw of a random number and the load loop are \<^theory_text>\<open>partial_function\<close>s: not returning is \<open>None\<close>, and
  where the code is meant to return that is a theorem. The recursion over dependencies in the causal cache is a
  list of what is still to be visited, with a termination proof and the equations of the recursion as lemmas.
  No fuel is used.

  \<^bold>\<open>Idealised.\<close> Finite doubles are real numbers and exact. Memory is unbounded, logging is left out, and the
  contents of the disk change only through the server.

  \<^bold>\<open>Not modelled.\<close> The reading of configuration files and the starting of threads in each \<open>main\<close>, because they
  only call the YAML and thread libraries: what is read is an argument. The calls of the ZeroMQ library itself. The
  unit tests, build and deployment scripts (cmake, scripts, dockerfiles), and the other Python parts (functions/executor,
  functions/scheduler, functions/benchmarks, the clients in kvs/client/python, k8s), which are separate programs that talk to this
  one through the messages modelled here.
\<close>

end
